theory Spec2Isabelle
  imports Complex_Main "HOL-Library.Word"
begin

section \<open>Data model (src/types/index.ts)\<close>

text \<open>
  Numbers that count things (coins, minutes, streaks, thresholds) are whole numbers and
  are modelled as integers; the store bounds those it keeps in \<open>INTEGER\<close> columns (see
  \<open>int4\<close> below). A \<open>Date\<close> is the instant it denotes, in milliseconds since the
  epoch; an optional field is an \<open>option\<close>. \<open>lastActiveDate\<close> is stored as an ISO
  string and only ever read back through \<open>new Date(...)\<close>, so it is modelled by the
  instant as well. Field names shared by several interfaces carry the interface as a
  prefix.
\<close>

datatype PodStatus = WAITING | ACTIVE | COMPLETED | CANCELLED

datatype TaskAction = TaskCOMPLETED | SPLIT | POSTPONED | SKIPPED

datatype NotificationType =
  DAILY_REMINDER | ACHIEVEMENT_UNLOCKED | STREAK_WARNING | WEEKLY_STATS
  | POD_INVITE | POD_STARTED | POD_COMPLETED

datatype RequirementType = R_pomodoros | R_tasks | R_streak | R_pods | R_focus_hours

text \<open>
  User-facing texts that the services assemble from templates with non-ASCII literals are
  kept as the template's name together with the interpolated values. The title of a pod
  is the one the caller gave or the default built from the creator's name.
\<close>

datatype Title =
  Literal string
  | DefaultPodTitle string

datatype Text =
  AchievementUnlockedText string int
  | PodCancelledText Title

record User =
  user_id :: string
  maxUserId :: string
  user_name :: string
  focusCoins :: int
  totalPomodoros :: int
  totalFocusMinutes :: int
  completedTasks :: int
  currentStreak :: int
  bestStreak :: int
  lastActiveDate :: int
  achievements :: "string list"
  user_createdAt :: int

record PodParticipant =
  participant_userId :: string
  userName :: string
  joinedAt :: int
  isCreator :: bool
  taskCompleted :: "bool option"
  participant_taskAction :: "TaskAction option"

record Pod =
  pod_id :: string
  inviteCode :: string
  creatorId :: string
  title :: Title
  pod_duration :: int
  participants :: "PodParticipant list"
  pod_startTime :: "int option"
  pod_endTime :: "int option"
  status :: PodStatus
  shareLink :: string
  pod_createdAt :: int

record AchievementRequirement =
  req_type :: RequirementType
  req_count :: int

text \<open>The catalog's \<open>description\<close> and \<open>icon\<close> are presentation only and left out.\<close>

record Achievement =
  ach_id :: string
  ach_name :: string
  requirement :: AchievementRequirement
  ach_reward :: int

record PomodoroSession =
  session_id :: string
  session_userId :: string
  duration :: int
  startTime :: int
  endTime :: "int option"
  completed :: bool
  taskAction :: "TaskAction option"
  podId :: "string option"
  reward :: int

record UserStats =
  stats_userId :: string
  weekPomodoros :: int
  weekFocusMinutes :: int
  weekTasksCompleted :: int
  weekFocusCoins :: int
  todayPomodoros :: int
  todayFocusMinutes :: int

record Notification =
  notif_id :: string
  notif_userId :: string
  notif_type :: NotificationType
  message :: Text
  sentAt :: int
  read :: bool

definition ACHIEVEMENTS :: "Achievement list" where
  "ACHIEVEMENTS =
    [ \<lparr>ach_id = ''first_focus'', ach_name = ''First Focus'',
        requirement = \<lparr>req_type = R_pomodoros, req_count = 1\<rparr>, ach_reward = 5\<rparr>,
      \<lparr>ach_id = ''focus_streak_3'', ach_name = ''Focus Streak 3'',
        requirement = \<lparr>req_type = R_streak, req_count = 3\<rparr>, ach_reward = 10\<rparr>,
      \<lparr>ach_id = ''focus_streak_7'', ach_name = ''Focus Streak 7'',
        requirement = \<lparr>req_type = R_streak, req_count = 7\<rparr>, ach_reward = 25\<rparr>,
      \<lparr>ach_id = ''task_master'', ach_name = ''Task Master'',
        requirement = \<lparr>req_type = R_tasks, req_count = 10\<rparr>, ach_reward = 15\<rparr>,
      \<lparr>ach_id = ''pod_pioneer'', ach_name = ''Pod Pioneer'',
        requirement = \<lparr>req_type = R_pods, req_count = 1\<rparr>, ach_reward = 10\<rparr>,
      \<lparr>ach_id = ''early_bird'', ach_name = ''Early Bird'',
        requirement = \<lparr>req_type = R_focus_hours, req_count = 5\<rparr>, ach_reward = 20\<rparr>,
      \<lparr>ach_id = ''focus_master'', ach_name = ''Focus Master'',
        requirement = \<lparr>req_type = R_pomodoros, req_count = 25\<rparr>, ach_reward = 50\<rparr>,
      \<lparr>ach_id = ''marathon_runner'', ach_name = ''Marathon Runner'',
        requirement = \<lparr>req_type = R_focus_hours, req_count = 50\<rparr>, ach_reward = 100\<rparr> ]"

section \<open>Numbers\<close>

text \<open>
  A JavaScript \<open>number\<close> is an IEEE 754 double. A finite double is the real it
  denotes; the two zeros are one value. \<open>fl x\<close> is the double nearest to the real
  \<open>x\<close>, a tie going to the even significand, before the range is looked at: doubles
  have 53 significant bits, and below \<open>2 powi -1022\<close> they are spaced as at this
  exponent. \<open>toNumber x\<close> is the result of an operation whose exact value is
  \<open>x\<close>: the nearest double, or an infinity when that leaves the range.
\<close>

datatype number = Fin real | PosInfinity | NegInfinity | NaN

definition exponent :: "real \<Rightarrow> int" where
  "exponent x = max \<lfloor>log 2 \<bar>x\<bar>\<rfloor> (- 1022)"

definition roundEven :: "real \<Rightarrow> int" where
  "roundEven y =
     (let n = \<lfloor>y\<rfloor>; r = y - real_of_int n
      in if r < 1 / 2 then n else if 1 / 2 < r then n + 1 else if even n then n else n + 1)"

definition fl :: "real \<Rightarrow> real" where
  "fl x = (if x = 0 then 0
           else (let u = 2 powi (exponent x - 52) in u * real_of_int (roundEven (x / u))))"

definition toNumber :: "real \<Rightarrow> number" where
  "toNumber x =
     (let y = fl x
      in if 2 powi 1024 \<le> y then PosInfinity
         else if y \<le> - (2 powi 1024) then NegInfinity
         else Fin y)"

text \<open>A literal of the source, and a whole number read from the store.\<close>

definition lit :: "real \<Rightarrow> number" where
  "lit x = toNumber x"

definition ofInt :: "int \<Rightarrow> number" where
  "ofInt n = toNumber (real_of_int n)"

text \<open>The operators \<open>+\<close>, \<open>-\<close>, \<open>*\<close> and \<open>/\<close> on numbers.\<close>

fun nadd :: "number \<Rightarrow> number \<Rightarrow> number" where
  "nadd (Fin a) (Fin b) = toNumber (a + b)"
| "nadd NaN y = NaN"
| "nadd x NaN = NaN"
| "nadd PosInfinity NegInfinity = NaN"
| "nadd NegInfinity PosInfinity = NaN"
| "nadd PosInfinity y = PosInfinity"
| "nadd NegInfinity y = NegInfinity"
| "nadd (Fin a) y = y"

fun nsub :: "number \<Rightarrow> number \<Rightarrow> number" where
  "nsub (Fin a) (Fin b) = toNumber (a - b)"
| "nsub NaN y = NaN"
| "nsub x NaN = NaN"
| "nsub PosInfinity PosInfinity = NaN"
| "nsub NegInfinity NegInfinity = NaN"
| "nsub PosInfinity y = PosInfinity"
| "nsub NegInfinity y = NegInfinity"
| "nsub (Fin a) PosInfinity = NegInfinity"
| "nsub (Fin a) NegInfinity = PosInfinity"

text \<open>The comparison \<open>>=\<close>, which is false when an operand is NaN.\<close>

fun nge :: "number \<Rightarrow> number \<Rightarrow> bool" where
  "nge (Fin a) (Fin b) = (b \<le> a)"
| "nge NaN y = False"
| "nge x NaN = False"
| "nge PosInfinity y = True"
| "nge x NegInfinity = True"
| "nge x y = False"

text \<open>The sign of a number that is not NaN: 1, 0 or -1.\<close>

fun signOf :: "number \<Rightarrow> int" where
  "signOf (Fin a) = (if 0 < a then 1 else if a < 0 then - 1 else 0)"
| "signOf PosInfinity = 1"
| "signOf NegInfinity = - 1"
| "signOf NaN = 0"

definition infinityOf :: "int \<Rightarrow> number" where
  "infinityOf sg = (if sg = 0 then NaN else if 0 < sg then PosInfinity else NegInfinity)"

fun nmul :: "number \<Rightarrow> number \<Rightarrow> number" where
  "nmul (Fin a) (Fin b) = toNumber (a * b)"
| "nmul NaN y = NaN"
| "nmul x NaN = NaN"
| "nmul x y = infinityOf (signOf x * signOf y)"

text \<open>
  A zero divisor is the positive zero: the divisors of the program are literals and whole
  numbers read from the store.
\<close>

fun ndiv :: "number \<Rightarrow> number \<Rightarrow> number" where
  "ndiv (Fin a) (Fin b) = (if b = 0 then infinityOf (signOf (Fin a)) else toNumber (a / b))"
| "ndiv NaN y = NaN"
| "ndiv x NaN = NaN"
| "ndiv (Fin a) y = Fin 0"
| "ndiv x (Fin b) = infinityOf (signOf x * (if b < 0 then - 1 else 1))"
| "ndiv x y = NaN"

text \<open>
  \<open>Math.floor\<close>, \<open>Math.min\<close> and \<open>Math.round\<close>; the last rounds to the nearest
  integer, a half towards plus infinity.
\<close>

fun Math_floor :: "number \<Rightarrow> number" where
  "Math_floor (Fin a) = Fin (real_of_int \<lfloor>a\<rfloor>)"
| "Math_floor x = x"

fun Math_min :: "number \<Rightarrow> number \<Rightarrow> number" where
  "Math_min (Fin a) (Fin b) = Fin (min a b)"
| "Math_min NaN y = NaN"
| "Math_min x NaN = NaN"
| "Math_min NegInfinity y = NegInfinity"
| "Math_min x NegInfinity = NegInfinity"
| "Math_min PosInfinity y = y"
| "Math_min x PosInfinity = x"

fun Math_round :: "number \<Rightarrow> number" where
  "Math_round (Fin a) = Fin (real_of_int \<lfloor>a + 1 / 2\<rfloor>)"
| "Math_round x = x"

text \<open>
  The whole number that a number is, if it is one: what an \<open>INTEGER\<close> column accepts
  of a number.
\<close>

fun wholeNumber :: "number \<Rightarrow> int option" where
  "wholeNumber (Fin a) = (if real_of_int \<lfloor>a\<rfloor> = a then Some \<lfloor>a\<rfloor> else None)"
| "wholeNumber x = None"

section \<open>The store (src/storage/postgres.ts)\<close>

text \<open>
  Each table is the list of its rows. \<open>crypto.randomUUID()\<close> is an input of the
  program: the state carries the sequence of values it is going to return and how many of
  them have been drawn. A thrown \<open>Error\<close> is a value of \<open>error\<close>, returned next to
  the state the store was left in when it was thrown.
\<close>

record State =
  users :: "User list"
  sessions :: "PomodoroSession list"
  pods :: "Pod list"
  notifications :: "Notification list"
  userStats :: "UserStats list"
  uuids :: "nat \<Rightarrow> string"
  drawn :: nat

datatype error =
  AlreadyActive          \<comment> \<open>the "you already have an active session" Error of startSession\<close>
  | UserNotFound         \<comment> \<open>Error('User not found')\<close>
  | SessionNotFound      \<comment> \<open>Error('Session not found')\<close>
  | AlreadyCompleted     \<comment> \<open>Error('Session already completed')\<close>
  | FailedToUpdate       \<comment> \<open>Error('Failed to update session')\<close>
  | PodNotFound          \<comment> \<open>Error('Pod not found')\<close>
  | StoreError           \<comment> \<open>a statement rejected by the schema: a constraint, a column's type\<close>

definition randomUUID :: "State \<Rightarrow> string \<times> State" where
  "randomUUID s = (uuids s (drawn s), s\<lparr>drawn := drawn s + 1\<rparr>)"

text \<open>The values of an \<open>INTEGER\<close> column, and the strings of a \<open>VARCHAR(n)\<close> column.\<close>

definition int4 :: "int \<Rightarrow> bool" where
  "int4 n = (- 2147483648 \<le> n \<and> n \<le> 2147483647)"

definition varchar :: "nat \<Rightarrow> string \<Rightarrow> bool" where
  "varchar n str = (length str \<le> n)"

definition getUser :: "State \<Rightarrow> string \<Rightarrow> User option" where
  "getUser s userId = find (\<lambda>u. user_id u = userId) (users s)"

text \<open>
  \<open>updateUser\<close> is one \<open>UPDATE users SET ... WHERE id = ...\<close>; \<open>updates\<close> is the
  partial record of the source, applied to every matching row (\<open>setUser\<close>). The
  statement is rejected as a whole when it writes a value outside the range of an
  \<open>INTEGER\<close> column. This is written out for the counters that the services add to on
  every call, \<open>focus_coins\<close>, \<open>total_pomodoros\<close>, \<open>total_focus_minutes\<close> and
  \<open>completed_tasks\<close>: a value that the update leaves as the row has it is one the column
  holds already. \<open>current_streak\<close> and \<open>best_streak\<close> move by at most one per calendar
  day, which keeps them far inside the range, and are not checked.
\<close>

definition accepted :: "User \<Rightarrow> User \<Rightarrow> bool" where
  "accepted old new =
     ((focusCoins new = focusCoins old \<or> int4 (focusCoins new))
      \<and> (totalPomodoros new = totalPomodoros old \<or> int4 (totalPomodoros new))
      \<and> (totalFocusMinutes new = totalFocusMinutes old \<or> int4 (totalFocusMinutes new))
      \<and> (completedTasks new = completedTasks old \<or> int4 (completedTasks new)))"

definition setUser :: "State \<Rightarrow> string \<Rightarrow> (User \<Rightarrow> User) \<Rightarrow> State" where
  "setUser s userId updates =
     s\<lparr>users := map (\<lambda>u. if user_id u = userId then updates u else u) (users s)\<rparr>"

definition updateUser :: "State \<Rightarrow> string \<Rightarrow> (User \<Rightarrow> User) \<Rightarrow> State \<times> (error + unit)" where
  "updateUser s userId updates =
     (if list_all (\<lambda>u. accepted u (updates u)) (filter (\<lambda>u. user_id u = userId) (users s))
      then (setUser s userId updates, Inr ())
      else (s, Inl StoreError))"

definition getSession :: "State \<Rightarrow> string \<Rightarrow> PomodoroSession option" where
  "getSession s sessionId = find (\<lambda>x. session_id x = sessionId) (sessions s)"

text \<open>
  The callers modelled here only test the result of \<open>getUserSessions\<close> for a matching
  element, so its \<open>ORDER BY start_time DESC\<close> is not represented.
\<close>

definition getUserSessions :: "State \<Rightarrow> string \<Rightarrow> PomodoroSession list" where
  "getUserSessions s userId = filter (\<lambda>x. session_userId x = userId) (sessions s)"

definition getPod :: "State \<Rightarrow> string \<Rightarrow> Pod option" where
  "getPod s podId' = find (\<lambda>p. pod_id p = podId') (pods s)"

text \<open>
  \<open>pomodoro_sessions\<close>: \<open>id VARCHAR(36) PRIMARY KEY\<close>,
  \<open>user_id REFERENCES users(id)\<close>, \<open>pod_id REFERENCES pods(id)\<close>, \<open>duration\<close> and
  \<open>reward\<close> are \<open>INTEGER\<close>.
\<close>

definition createSession :: "State \<Rightarrow> PomodoroSession \<Rightarrow> State \<times> (error + PomodoroSession)" where
  "createSession s session =
     (if session_id session \<in> set (map session_id (sessions s))
         \<or> \<not> varchar 36 (session_id session)
         \<or> \<not> int4 (duration session)
         \<or> \<not> int4 (reward session)
         \<or> session_userId session \<notin> set (map user_id (users s))
         \<or> (case podId session of None \<Rightarrow> False
             | Some p \<Rightarrow> p \<notin> set (map pod_id (pods s)))
      then (s, Inl StoreError)
      else (s\<lparr>sessions := sessions s @ [session]\<rparr>, Inr session))"

definition updateSession ::
  "State \<Rightarrow> string \<Rightarrow> (PomodoroSession \<Rightarrow> PomodoroSession) \<Rightarrow> State \<times> PomodoroSession option" where
  "updateSession s sessionId updates =
     (let s' = s\<lparr>sessions :=
                  map (\<lambda>x. if session_id x = sessionId then updates x else x) (sessions s)\<rparr>
      in (s', getSession s' sessionId))"

text \<open>
  \<open>notifications\<close>: \<open>id VARCHAR(36) PRIMARY KEY\<close>, \<open>user_id REFERENCES users(id)\<close>.
\<close>

definition createNotification :: "State \<Rightarrow> Notification \<Rightarrow> State \<times> (error + Notification)" where
  "createNotification s n =
     (if notif_id n \<in> set (map notif_id (notifications s))
         \<or> \<not> varchar 36 (notif_id n)
         \<or> notif_userId n \<notin> set (map user_id (users s))
      then (s, Inl StoreError)
      else (s\<lparr>notifications := notifications s @ [n]\<rparr>, Inr n))"

text \<open>
  \<open>getUserPods\<close>: the pods whose \<open>participants\<close> array contains an object with this
  \<open>userId\<close> (the \<open>@>\<close> containment of the query).
\<close>

definition getUserPods :: "State \<Rightarrow> string \<Rightarrow> Pod list" where
  "getUserPods s userId =
     filter (\<lambda>p. list_ex (\<lambda>m. participant_userId m = userId) (participants p)) (pods s)"

section \<open>Reward engine (src/services/gamification.ts)\<close>

text \<open>
  \<open>toDateString\<close> names the calendar day of an instant. The process runs without a
  time zone setting (the image is node:20-alpine), so the day is the UTC day, numbered
  from the epoch.
\<close>

definition toDateString :: "int \<Rightarrow> int" where
  "toDateString t = t div 86400000"

definition awardFocusCoins :: "State \<Rightarrow> string \<Rightarrow> int \<Rightarrow> State \<times> (error + int)" where
  "awardFocusCoins s userId amount =
     (case getUser s userId of
        None \<Rightarrow> (s, Inl UserNotFound)
      | Some user \<Rightarrow>
          (let newBalance = focusCoins user + amount
           in case updateUser s userId (\<lambda>u. u\<lparr>focusCoins := newBalance\<rparr>) of
                (s1, Inl e) \<Rightarrow> (s1, Inl e)
              | (s1, Inr _) \<Rightarrow> (s1, Inr newBalance)))"

text \<open>Every operation reads the clock once: \<open>now\<close> is that reading.\<close>

definition unlockAchievement :: "int \<Rightarrow> State \<Rightarrow> string \<Rightarrow> string \<Rightarrow> State \<times> (error + bool)" where
  "unlockAchievement now s userId achievementId =
     (case getUser s userId of
        None \<Rightarrow> (s, Inl UserNotFound)
      | Some user \<Rightarrow>
          if achievementId \<in> set (achievements user) then (s, Inr False)
          else
            (case find (\<lambda>a. ach_id a = achievementId) ACHIEVEMENTS of
               None \<Rightarrow> (s, Inr False)
             | Some achievement \<Rightarrow>
                 (case updateUser s userId
                         (\<lambda>u. u\<lparr>achievements := achievements user @ [achievementId]\<rparr>) of
                    (s1, Inl e) \<Rightarrow> (s1, Inl e)
                  | (s1, Inr _) \<Rightarrow>
                      (case awardFocusCoins s1 userId (ach_reward achievement) of
                         (s2, Inl e) \<Rightarrow> (s2, Inl e)
                       | (s2, Inr _) \<Rightarrow>
                           (case randomUUID s2 of
                              (nid, s3) \<Rightarrow>
                                (case createNotification s3
                                        \<lparr>notif_id = nid, notif_userId = userId,
                                         notif_type = ACHIEVEMENT_UNLOCKED,
                                         message = AchievementUnlockedText
                                                     (ach_name achievement)
                                                     (ach_reward achievement),
                                         sentAt = now, read = False\<rparr> of
                                   (s4, Inl e) \<Rightarrow> (s4, Inl e)
                                 | (s4, Inr _) \<Rightarrow> (s4, Inr True)))))))"

text \<open>The \<open>for ... of\<close> loop of \<open>checkStreakAchievements\<close>.\<close>

fun unlockEach :: "int \<Rightarrow> string \<Rightarrow> Achievement list \<Rightarrow> State \<Rightarrow> State \<times> (error + unit)" where
  "unlockEach now userId [] s = (s, Inr ())"
| "unlockEach now userId (achievement # rest) s =
     (case unlockAchievement now s userId (ach_id achievement) of
        (s', Inl e) \<Rightarrow> (s', Inl e)
      | (s', Inr _) \<Rightarrow> unlockEach now userId rest s')"

definition checkStreakAchievements :: "int \<Rightarrow> State \<Rightarrow> string \<Rightarrow> int \<Rightarrow> State \<times> (error + unit)" where
  "checkStreakAchievements now s userId streak =
     (let streakAchievements =
            filter (\<lambda>a. req_type (requirement a) = R_streak \<and> req_count (requirement a) = streak)
              ACHIEVEMENTS
      in unlockEach now userId streakAchievements s)"

definition updateStreak :: "int \<Rightarrow> State \<Rightarrow> string \<Rightarrow> State \<times> (error + int \<times> int)" where
  "updateStreak now s userId =
     (case getUser s userId of
        None \<Rightarrow> (s, Inl UserNotFound)
      | Some user \<Rightarrow>
          (let today = toDateString now;
               lastActive = toDateString (lastActiveDate user);
               yesterday = toDateString (now - 24 * 60 * 60 * 1000)
           in if lastActive = today then (s, Inr (currentStreak user, bestStreak user))
              else
                (let currentStreak' =
                       (if lastActive = yesterday then currentStreak user + 1 else 1);
                     bestStreak' =
                       (if currentStreak' > bestStreak user then currentStreak'
                        else bestStreak user)
                 in case updateUser s userId
                           (\<lambda>u. u\<lparr>currentStreak := currentStreak', bestStreak := bestStreak',
                                  lastActiveDate := now\<rparr>) of
                      (s1, Inl e) \<Rightarrow> (s1, Inl e)
                    | (s1, Inr _) \<Rightarrow>
                        (case checkStreakAchievements now s1 userId currentStreak' of
                           (s2, Inl e) \<Rightarrow> (s2, Inl e)
                         | (s2, Inr _) \<Rightarrow> (s2, Inr (currentStreak', bestStreak'))))))"

definition checkAchievementRequirement :: "State \<Rightarrow> User \<Rightarrow> Achievement \<Rightarrow> bool" where
  "checkAchievementRequirement s user achievement =
     (let count = req_count (requirement achievement)
      in case req_type (requirement achievement) of
           R_pomodoros \<Rightarrow> totalPomodoros user \<ge> count
         | R_tasks \<Rightarrow> completedTasks user \<ge> count
         | R_streak \<Rightarrow> currentStreak user \<ge> count
         | R_focus_hours \<Rightarrow> totalFocusMinutes user div 60 \<ge> count
         | R_pods \<Rightarrow>
             (let userPods = getUserPods s (user_id user);
                  createdPods = filter (\<lambda>p. creatorId p = user_id user) userPods
              in int (length createdPods) \<ge> count))"

text \<open>
  The loop of \<open>checkAchievements\<close>: \<open>user\<close> is the record read before the loop, and
  \<open>unlocked\<close> collects the ids pushed so far.
\<close>

fun sweep ::
  "int \<Rightarrow> string \<Rightarrow> User \<Rightarrow> Achievement list \<Rightarrow> State \<Rightarrow> string list \<Rightarrow> State \<times> (error + string list)" where
  "sweep now userId user [] s unlocked = (s, Inr unlocked)"
| "sweep now userId user (achievement # rest) s unlocked =
     (if ach_id achievement \<in> set (achievements user) then sweep now userId user rest s unlocked
      else if checkAchievementRequirement s user achievement then
        (case unlockAchievement now s userId (ach_id achievement) of
           (s', Inl e) \<Rightarrow> (s', Inl e)
         | (s', Inr isNew) \<Rightarrow>
             sweep now userId user rest s'
               (if isNew then unlocked @ [ach_id achievement] else unlocked))
      else sweep now userId user rest s unlocked)"

definition checkAchievements :: "int \<Rightarrow> State \<Rightarrow> string \<Rightarrow> State \<times> (error + string list)" where
  "checkAchievements now s userId =
     (case getUser s userId of
        None \<Rightarrow> (s, Inl UserNotFound)
      | Some user \<Rightarrow> sweep now userId user ACHIEVEMENTS s [])"

text \<open>
  \<open>calculatePomodoroReward\<close> takes and returns numbers and computes on doubles, each
  operator rounding its result.
\<close>

definition calculatePomodoroReward :: "number \<Rightarrow> number \<Rightarrow> bool \<Rightarrow> number" where
  "calculatePomodoroReward baseReward streak' inPod =
     (let reward0 = baseReward;
          streakBonus = Math_min (nmul (Math_floor (ndiv streak' (lit 3))) (lit (1 / 10)))
                          (lit (1 / 2));
          reward1 = nadd reward0 (nmul baseReward streakBonus);
          reward2 = (if inPod then nadd reward1 (nmul baseReward (lit (1 / 2))) else reward1)
      in Math_round reward2)"


section \<open>Session manager (PomodoroService)\<close>

text \<open>
  The service's \<open>activeSessions\<close> timer map is never written by the class, so the
  part of \<open>completeSession\<close> and \<open>cancelSession\<close> that clears a timer has no effect and
  is not represented.
\<close>

definition getUserStats :: "State \<Rightarrow> string \<Rightarrow> UserStats option" where
  "getUserStats s userId = find (\<lambda>r. stats_userId r = userId) (userStats s)"

text \<open>
  \<open>db.updateUserStats\<close> is an \<open>INSERT ... ON CONFLICT (user_id) DO UPDATE\<close> of the six
  counters, all of them \<open>INTEGER\<close>; \<open>user_stats.user_id\<close> is the primary key and
  references \<open>users(id)\<close>.
\<close>

definition db_updateUserStats :: "State \<Rightarrow> string \<Rightarrow> UserStats \<Rightarrow> State \<times> (error + UserStats)" where
  "db_updateUserStats s userId stats =
     (let row = stats\<lparr>stats_userId := userId\<rparr>
      in if \<not> (int4 (weekPomodoros row) \<and> int4 (weekFocusMinutes row)
                \<and> int4 (weekTasksCompleted row) \<and> int4 (weekFocusCoins row)
                \<and> int4 (todayPomodoros row) \<and> int4 (todayFocusMinutes row))
         then (s, Inl StoreError)
         else if userId \<in> set (map stats_userId (userStats s))
         then (s\<lparr>userStats := map (\<lambda>r. if stats_userId r = userId then row else r) (userStats s)\<rparr>,
               Inr row)
         else if userId \<notin> set (map user_id (users s)) then (s, Inl StoreError)
         else (s\<lparr>userStats := userStats s @ [row]\<rparr>, Inr row))"

definition updateUserStats :: "State \<Rightarrow> string \<Rightarrow> int \<Rightarrow> int \<Rightarrow> State \<times> (error + unit)" where
  "updateUserStats s userId minutes coins =
     (let stats0 = (case getUserStats s userId of
                      Some r \<Rightarrow> r
                    | None \<Rightarrow> \<lparr>stats_userId = userId, weekPomodoros = 0, weekFocusMinutes = 0,
                               weekTasksCompleted = 0, weekFocusCoins = 0,
                               todayPomodoros = 0, todayFocusMinutes = 0\<rparr>);
          stats1 = stats0\<lparr>todayPomodoros := todayPomodoros stats0 + 1,
                          todayFocusMinutes := todayFocusMinutes stats0 + minutes,
                          weekPomodoros := weekPomodoros stats0 + 1,
                          weekFocusMinutes := weekFocusMinutes stats0 + minutes,
                          weekFocusCoins := weekFocusCoins stats0 + coins\<rparr>
      in case db_updateUserStats s userId stats1 of
           (s', Inl e) \<Rightarrow> (s', Inl e)
         | (s', Inr _) \<Rightarrow> (s', Inr ()))"

text \<open>The predicate \<open>s => !s.completed && !s.endTime\<close> of startSession.\<close>

definition isOpen :: "PomodoroSession \<Rightarrow> bool" where
  "isOpen x = (\<not> completed x \<and> endTime x = None)"

definition startSession ::
  "int \<Rightarrow> State \<Rightarrow> string \<Rightarrow> int \<Rightarrow> string option \<Rightarrow> State \<times> (error + PomodoroSession)" where
  "startSession now s userId duration' podId' =
     (let existingSessions = getUserSessions s userId;
          activeSession = find isOpen existingSessions
      in if activeSession \<noteq> None then (s, Inl AlreadyActive)
         else
           (case getUser s userId of
              None \<Rightarrow> (s, Inl UserNotFound)
            | Some user \<Rightarrow>
                (case randomUUID s of
                   (sid, s0) \<Rightarrow>
                     (let session = \<lparr>session_id = sid, session_userId = userId,
                                     duration = duration', startTime = now, endTime = None,
                                     completed = False, taskAction = None, podId = podId',
                                     reward = 0\<rparr>
                      in case createSession s0 session of
                           (s1, Inl e) \<Rightarrow> (s1, Inl e)
                         | (s1, Inr _) \<Rightarrow>
                             (case updateStreak now s1 userId of
                                (s2, Inl e) \<Rightarrow> (s2, Inl e)
                              | (s2, Inr _) \<Rightarrow> (s2, Inr session))))))"

text \<open>
  \<open>completionRate >= 0.9\<close> for \<open>completionRate = actualMinutes / session.duration\<close>: a
  zero duration gives Infinity (for positive minutes), NaN or -Infinity, and only the first
  passes the comparison. The elapsed minutes and the quotient are written on exact
  numbers: for instants less than \<open>2^53\<close> milliseconds apart and a duration in the range
  of its \<open>INTEGER\<close> column the doubles of the source give the same minutes and the same
  comparison (\<open>minutes_in_doubles\<close> and \<open>rate_in_doubles\<close> below).
\<close>

definition rateAtLeast90 :: "int \<Rightarrow> int \<Rightarrow> bool" where
  "rateAtLeast90 actualMinutes duration' =
     (if duration' = 0 then 0 < actualMinutes
      else 9 / 10 \<le> real_of_int actualMinutes / real_of_int duration')"

record CompleteResult =
  res_session :: PomodoroSession
  res_reward :: int
  res_achievements :: "string list"
  res_actualMinutes :: int

text \<open>\<open>!!session.podId\<close>: an absent or empty pod id is falsy.\<close>

definition truthy :: "string option \<Rightarrow> bool" where
  "truthy v = (case v of None \<Rightarrow> False | Some x \<Rightarrow> x \<noteq> [])"

text \<open>
  The reward that \<open>calculatePomodoroReward\<close> returns is a number; the first statement
  that takes it is the \<open>UPDATE\<close> of the user's \<open>INTEGER\<close> columns, which accepts
  whole numbers only.
\<close>

definition completeSession ::
  "int \<Rightarrow> State \<Rightarrow> string \<Rightarrow> TaskAction option \<Rightarrow> bool \<Rightarrow> State \<times> (error + CompleteResult)" where
  "completeSession now s sessionId taskAction' isEarlyCompletion =
     (case getSession s sessionId of
        None \<Rightarrow> (s, Inl SessionNotFound)
      | Some session \<Rightarrow>
          if completed session then (s, Inl AlreadyCompleted)
          else
            (case getUser s (session_userId session) of
               None \<Rightarrow> (s, Inl UserNotFound)
             | Some user \<Rightarrow>
                 (let actualMinutes = (now - startTime session) div 60000
                  in case
                       (if rateAtLeast90 actualMinutes (duration session) \<or> \<not> isEarlyCompletion
                        then
                          (let baseReward = Fin 1;
                               inPod = truthy (podId session)
                           in case wholeNumber
                                     (calculatePomodoroReward baseReward
                                        (ofInt (currentStreak user)) inPod) of
                                None \<Rightarrow> (s, Inl StoreError)
                              | Some reward' \<Rightarrow>
                                  (case updateUser s (session_userId session)
                                          (\<lambda>u. u\<lparr>totalPomodoros := totalPomodoros user + 1,
                                                 totalFocusMinutes :=
                                                   totalFocusMinutes user + actualMinutes,
                                                 focusCoins := focusCoins user + reward'\<rparr>) of
                                     (s1, Inl e) \<Rightarrow> (s1, Inl e)
                                   | (s1, Inr _) \<Rightarrow>
                                       (case updateUserStats s1 (session_userId session)
                                               actualMinutes reward' of
                                          (s2, Inl e) \<Rightarrow> (s2, Inl e)
                                        | (s2, Inr _) \<Rightarrow>
                                            (case checkAchievements now s2
                                                    (session_userId session) of
                                               (s3, Inl e) \<Rightarrow> (s3, Inl e)
                                             | (s3, Inr unlocked) \<Rightarrow>
                                                 (s3, Inr (reward', unlocked))))))
                        else
                          (case updateUser s (session_userId session)
                                  (\<lambda>u. u\<lparr>totalFocusMinutes :=
                                           totalFocusMinutes user + actualMinutes\<rparr>) of
                             (s1, Inl e) \<Rightarrow> (s1, Inl e)
                           | (s1, Inr _) \<Rightarrow> (s1, Inr (0, []))))
                     of
                       (s4, Inl e) \<Rightarrow> (s4, Inl e)
                     | (s4, Inr (reward', unlocked)) \<Rightarrow>
                         (case updateSession s4 sessionId
                                 (\<lambda>x. x\<lparr>completed := True, endTime := Some now,
                                        taskAction := taskAction', reward := reward'\<rparr>) of
                            (s5, None) \<Rightarrow> (s5, Inl FailedToUpdate)
                          | (s5, Some updated) \<Rightarrow>
                              (s5, Inr \<lparr>res_session = updated, res_reward = reward',
                                        res_achievements = unlocked,
                                        res_actualMinutes = actualMinutes\<rparr>)))))"

definition cancelSession :: "int \<Rightarrow> State \<Rightarrow> string \<Rightarrow> State \<times> bool" where
  "cancelSession now s sessionId =
     (case getSession s sessionId of
        None \<Rightarrow> (s, False)
      | Some session \<Rightarrow>
          (fst (updateSession s sessionId (\<lambda>x. x\<lparr>completed := False, endTime := Some now\<rparr>)),
           True))"

section \<open>Pod coordinator (PodService)\<close>

text \<open>
  \<open>pods\<close>: \<open>id VARCHAR(36) PRIMARY KEY\<close>, \<open>invite_code VARCHAR(20) UNIQUE NOT NULL\<close>,
  \<open>creator_id REFERENCES users(id)\<close>, \<open>title VARCHAR(255)\<close>, \<open>duration INTEGER\<close>.
  The default title is a literal of 13 characters followed by the creator's name.
\<close>

fun titleLength :: "Title \<Rightarrow> nat" where
  "titleLength (Literal t) = length t"
| "titleLength (DefaultPodTitle creatorName) = 13 + length creatorName"

definition db_createPod :: "State \<Rightarrow> Pod \<Rightarrow> State \<times> (error + Pod)" where
  "db_createPod s pod =
     (if pod_id pod \<in> set (map pod_id (pods s))
         \<or> inviteCode pod \<in> set (map inviteCode (pods s))
         \<or> creatorId pod \<notin> set (map user_id (users s))
         \<or> \<not> varchar 36 (pod_id pod)
         \<or> \<not> varchar 20 (inviteCode pod)
         \<or> 255 < titleLength (title pod)
         \<or> \<not> int4 (pod_duration pod)
      then (s, Inl StoreError)
      else (s\<lparr>pods := pods s @ [pod]\<rparr>, Inr pod))"

definition updatePod :: "State \<Rightarrow> string \<Rightarrow> (Pod \<Rightarrow> Pod) \<Rightarrow> State" where
  "updatePod s podId' updates =
     s\<lparr>pods := map (\<lambda>p. if pod_id p = podId' then updates p else p) (pods s)\<rparr>"

text \<open>
  \<open>crypto.randomBytes(4).toString('hex').toUpperCase()\<close>: the four random bytes are an
  input of \<open>createPod\<close>; each is written as two hexadecimal digits.
\<close>

type_synonym byte = "8 word"

definition hexDigit :: "nat \<Rightarrow> char" where
  "hexDigit n = ''0123456789abcdef'' ! n"

definition byteToHex :: "byte \<Rightarrow> string" where
  "byteToHex b = [hexDigit (unat b div 16), hexDigit (unat b mod 16)]"

definition toHex :: "byte list \<Rightarrow> string" where
  "toHex bs = concat (map byteToHex bs)"

definition toUpperCase :: "string \<Rightarrow> string" where
  "toUpperCase str =
     map (\<lambda>c. let n = (of_char c :: nat) in if 97 \<le> n \<and> n \<le> 122 then char_of (n - 32) else c) str"

definition createPod ::
  "int \<Rightarrow> string \<Rightarrow> byte \<times> byte \<times> byte \<times> byte \<Rightarrow> State \<Rightarrow> string \<Rightarrow> string \<Rightarrow> int \<Rightarrow> string option
     \<Rightarrow> State \<times> (error + Pod \<times> string)" where
  "createPod now botUsername randomBytes s creatorId' creatorName duration' title' =
     (case randomUUID s of
        (podId', s0) \<Rightarrow>
          (case randomBytes of
             (b1, b2, b3, b4) \<Rightarrow>
               (let inviteCode' = toUpperCase (toHex [b1, b2, b3, b4]);
                    shareLink' = ''https://max.ru/'' @ botUsername @ ''?start=pod_'' @ inviteCode';
                    creator = \<lparr>participant_userId = creatorId', userName = creatorName,
                               joinedAt = now, isCreator = True, taskCompleted = None,
                               participant_taskAction = None\<rparr>;
                    pod = \<lparr>pod_id = podId', inviteCode = inviteCode', creatorId = creatorId',
                           title = (if truthy title' then Literal (the title')
                                    else DefaultPodTitle creatorName),
                           pod_duration = duration', participants = [creator],
                           pod_startTime = None, pod_endTime = None, status = WAITING,
                           shareLink = shareLink', pod_createdAt = now\<rparr>
                in case db_createPod s0 pod of
                     (s1, Inl e) \<Rightarrow> (s1, Inl e)
                   | (s1, Inr _) \<Rightarrow>
                       (case checkAchievements now s1 creatorId' of
                          (s2, Inl e) \<Rightarrow> (s2, Inl e)
                        | (s2, Inr _) \<Rightarrow> (s2, Inr (pod, inviteCode'))))))"

text \<open>The notification loop of \<open>cancelPod\<close>, over the participants read before the update.\<close>

fun notifyCancelled :: "int \<Rightarrow> Pod \<Rightarrow> PodParticipant list \<Rightarrow> State \<Rightarrow> State \<times> (error + unit)" where
  "notifyCancelled now pod [] s = (s, Inr ())"
| "notifyCancelled now pod (participant # rest) s =
     (if participant_userId participant \<noteq> creatorId pod then
        (case randomUUID s of
           (nid, s0) \<Rightarrow>
             (case createNotification s0
                     \<lparr>notif_id = nid, notif_userId = participant_userId participant,
                      notif_type = POD_INVITE, message = PodCancelledText (title pod),
                      sentAt = now, read = False\<rparr> of
                (s1, Inl e) \<Rightarrow> (s1, Inl e)
              | (s1, Inr _) \<Rightarrow> notifyCancelled now pod rest s1))
      else notifyCancelled now pod rest s)"

definition cancelPod :: "int \<Rightarrow> State \<Rightarrow> string \<Rightarrow> State \<times> (error + Pod)" where
  "cancelPod now s podId' =
     (case getPod s podId' of
        None \<Rightarrow> (s, Inl PodNotFound)
      | Some pod \<Rightarrow>
          (let s1 = updatePod s podId' (\<lambda>p. p\<lparr>status := CANCELLED\<rparr>)
           in case notifyCancelled now pod (participants pod) s1 of
                (s2, Inl e) \<Rightarrow> (s2, Inl e)
              | (s2, Inr _) \<Rightarrow> (s2, Inr pod)))"

section \<open>Auxiliary notions for the proofs\<close>

text \<open>
  The fields of a user that unlocking an achievement never writes, and the part of the
  state that the reward engine's achievement paths leave as it is.
\<close>

definition counters :: "User \<Rightarrow> string \<times> int \<times> int \<times> int \<times> int \<times> int \<times> int" where
  "counters u = (user_id u, totalPomodoros u, totalFocusMinutes u, completedTasks u,
                 currentStreak u, bestStreak u, lastActiveDate u)"

definition frame :: "State \<Rightarrow> State \<Rightarrow> bool" where
  "frame s s' = (sessions s' = sessions s \<and> pods s' = pods s \<and> userStats s' = userStats s
                 \<and> map counters (users s') = map counters (users s))"

text \<open>
  The open sessions of a user, and the branch of \<open>completeSession\<close> between reading the
  user and writing the session, named so that the proofs can treat it on its own.
\<close>

definition openSessions :: "State \<Rightarrow> string \<Rightarrow> PomodoroSession list" where
  "openSessions s userId = filter isOpen (getUserSessions s userId)"

definition rewardStep ::
  "int \<Rightarrow> State \<Rightarrow> PomodoroSession \<Rightarrow> User \<Rightarrow> bool \<Rightarrow> State \<times> (error + int \<times> string list)" where
  "rewardStep now s session user isEarlyCompletion =
     (let actualMinutes = (now - startTime session) div 60000
      in if rateAtLeast90 actualMinutes (duration session) \<or> \<not> isEarlyCompletion
         then
           (let baseReward = Fin 1;
                inPod = truthy (podId session)
            in case wholeNumber
                      (calculatePomodoroReward baseReward (ofInt (currentStreak user)) inPod) of
                 None \<Rightarrow> (s, Inl StoreError)
               | Some reward' \<Rightarrow>
                   (case updateUser s (session_userId session)
                           (\<lambda>u. u\<lparr>totalPomodoros := totalPomodoros user + 1,
                                  totalFocusMinutes := totalFocusMinutes user + actualMinutes,
                                  focusCoins := focusCoins user + reward'\<rparr>) of
                      (s1, Inl e) \<Rightarrow> (s1, Inl e)
                    | (s1, Inr _) \<Rightarrow>
                        (case updateUserStats s1 (session_userId session)
                                actualMinutes reward' of
                           (s2, Inl e) \<Rightarrow> (s2, Inl e)
                         | (s2, Inr _) \<Rightarrow>
                             (case checkAchievements now s2 (session_userId session) of
                                (s3, Inl e) \<Rightarrow> (s3, Inl e)
                              | (s3, Inr unlocked) \<Rightarrow> (s3, Inr (reward', unlocked))))))
         else
           (case updateUser s (session_userId session)
                   (\<lambda>u. u\<lparr>totalFocusMinutes := totalFocusMinutes user + actualMinutes\<rparr>) of
              (s1, Inl e) \<Rightarrow> (s1, Inl e)
            | (s1, Inr _) \<Rightarrow> (s1, Inr (0, []))))"

text \<open>
  The stores that arise from one without sessions by the three operations of the session
  manager that write the sessions table, and by anything that leaves that table as it is.
\<close>

inductive reachable :: "State \<Rightarrow> bool" where
  no_sessions: "sessions s = [] \<Longrightarrow> reachable s"
| other_tables: "reachable s \<Longrightarrow> sessions s' = sessions s \<Longrightarrow> reachable s'"
| by_start: "reachable s \<Longrightarrow> reachable (fst (startSession now s userId duration' podId'))"
| by_complete: "reachable s \<Longrightarrow> reachable (fst (completeSession now s sessionId taskAction' isEarly))"
| by_cancel: "reachable s \<Longrightarrow> reachable (fst (cancelSession now s sessionId))"

text \<open>
  The achievements whose requirement the sweep can find met for a user, as far as the
  streak goes: those of another type, and the streak achievements whose threshold the
  user's current streak has reached.
\<close>

definition sweepable :: "User \<Rightarrow> Achievement \<Rightarrow> bool" where
  "sweepable snap b =
     (req_type (requirement b) \<noteq> R_streak \<or> req_count (requirement b) \<le> currentStreak snap)"

text \<open>
  The balance after an achievement's reward: the credit is a statement of its own, which
  the store rejects when the sum leaves the range of \<open>focus_coins\<close>.
\<close>

definition credited :: "int \<Rightarrow> int \<Rightarrow> int" where
  "credited balance amount = (if int4 (balance + amount) then balance + amount else balance)"


section \<open>Example states\<close>

text \<open>
  A user on a four-day streak with one running 25-minute session started at time 0, and
  the same store after that session was completed at minute 26.
\<close>

definition demoUser :: User where
  "demoUser = \<lparr>user_id = ''u1'', maxUserId = ''max-1'', user_name = ''Ann'', focusCoins = 0,
                totalPomodoros = 0, totalFocusMinutes = 0, completedTasks = 0,
                currentStreak = 4, bestStreak = 4, lastActiveDate = 0, achievements = [],
                user_createdAt = 0\<rparr>"

definition demoSession :: PomodoroSession where
  "demoSession = \<lparr>session_id = ''s1'', session_userId = ''u1'', duration = 25, startTime = 0,
                   endTime = None, completed = False, taskAction = None, podId = None,
                   reward = 0\<rparr>"

definition demoUuids :: "nat \<Rightarrow> string" where
  "demoUuids n = (if n = 0 then ''uuid-0'' else if n = 1 then ''uuid-1''
                  else if n = 2 then ''uuid-2'' else ''uuid-'' @ replicate n (CHR ''+''))"

definition demoState :: State where
  "demoState = \<lparr>users = [demoUser], sessions = [demoSession], pods = [], notifications = [],
                 userStats = [], uuids = demoUuids, drawn = 0\<rparr>"

definition doneState :: State where
  "doneState = fst (completeSession 1560000 demoState ''s1'' None False)"

text \<open>The store after the running session was cancelled at minute 10.\<close>

definition cancelledState :: State where
  "cancelledState = fst (cancelSession 600000 demoState ''s1'')"

text \<open>
  A second user, and a store with a completed pod of the two users; the pod that
  \<open>createPod\<close> adds to it for the random bytes 00 00 00 2B; and a streak achievement of
  the catalog.
\<close>

definition demoUser2 :: User where
  "demoUser2 = \<lparr>user_id = ''u2'', maxUserId = ''max-2'', user_name = ''Bob'', focusCoins = 0,
                 totalPomodoros = 0, totalFocusMinutes = 0, completedTasks = 0,
                 currentStreak = 0, bestStreak = 0, lastActiveDate = 0, achievements = [],
                 user_createdAt = 0\<rparr>"

definition demoPod :: Pod where
  "demoPod = \<lparr>pod_id = ''p1'', inviteCode = ''0000002A'', creatorId = ''u1'',
               title = DefaultPodTitle ''Ann'', pod_duration = 25,
               participants =
                 [\<lparr>participant_userId = ''u1'', userName = ''Ann'', joinedAt = 0,
                   isCreator = True, taskCompleted = None, participant_taskAction = None\<rparr>,
                  \<lparr>participant_userId = ''u2'', userName = ''Bob'', joinedAt = 0,
                   isCreator = False, taskCompleted = None, participant_taskAction = None\<rparr>],
               pod_startTime = Some 0, pod_endTime = Some 1500000, status = COMPLETED,
               shareLink = ''https://max.ru/t257_hakaton_bot?start=pod_0000002A'',
               pod_createdAt = 0\<rparr>"

definition podState :: State where
  "podState = \<lparr>users = [demoUser, demoUser2], sessions = [], pods = [demoPod],
                notifications = [], userStats = [], uuids = demoUuids, drawn = 0\<rparr>"

definition newPod :: Pod where
  "newPod = \<lparr>pod_id = ''uuid-0'', inviteCode = ''0000002B'', creatorId = ''u1'',
              title = DefaultPodTitle ''Ann'', pod_duration = 25,
              participants =
                [\<lparr>participant_userId = ''u1'', userName = ''Ann'', joinedAt = 0,
                  isCreator = True, taskCompleted = None, participant_taskAction = None\<rparr>],
              pod_startTime = None, pod_endTime = None, status = WAITING,
              shareLink = ''https://max.ru/t257_hakaton_bot?start=pod_0000002B'',
              pod_createdAt = 0\<rparr>"

definition focusStreak3 :: Achievement where
  "focusStreak3 = \<lparr>ach_id = ''focus_streak_3'', ach_name = ''Focus Streak 3'',
                    requirement = \<lparr>req_type = R_streak, req_count = 3\<rparr>, ach_reward = 10\<rparr>"

definition firstFocus :: Achievement where
  "firstFocus = \<lparr>ach_id = ''first_focus'', ach_name = ''First Focus'',
                  requirement = \<lparr>req_type = R_pomodoros, req_count = 1\<rparr>, ach_reward = 5\<rparr>"

text \<open>
  The user on a two-day streak; the user two coins below the largest balance that the
  \<open>focus_coins\<close> column holds; and the running session with a duration of ten minutes.
\<close>

definition streakState :: State where
  "streakState = demoState\<lparr>users := [demoUser\<lparr>currentStreak := 2, bestStreak := 2\<rparr>]\<rparr>"

definition richState :: State where
  "richState = demoState\<lparr>users := [demoUser\<lparr>focusCoins := 2147483645\<rparr>]\<rparr>"

definition shortState :: State where
  "shortState = demoState\<lparr>sessions := [demoSession\<lparr>duration := 10\<rparr>]\<rparr>"


section \<open>Rounding to doubles\<close>

lemma powi_pos: "0 < (2::real) powi e"
  by (rule zero_less_power_int) simp

lemma powi_powr: "(2::real) powi e = 2 powr (real_of_int e)"
  by (simp add: powr_real_of_int')

lemma powi_mono: "a \<le> b \<Longrightarrow> (2::real) powi a \<le> 2 powi b"
  by (simp add: powi_powr)

lemma powi_add: "(2::real) powi (a + b) = 2 powi a * 2 powi b"
  by (simp add: power_int_add)

lemma floor_log2:
  assumes "0 < x"
  shows "(\<lfloor>log 2 x\<rfloor> = e) = (2 powi e \<le> x \<and> x < 2 powi (e + 1))"
  using assms floor_log_eq_powr_iff [of x 2 e] by (simp add: powi_powr)

lemma exponent_eq:
  assumes "2 powi e \<le> \<bar>x\<bar>" and "\<bar>x\<bar> < 2 powi (e + 1)" and "- 1022 \<le> e"
  shows "exponent x = e"
proof -
  have pos: "0 < \<bar>x\<bar>" using assms(1) powi_pos [of e] by linarith
  have "\<lfloor>log 2 \<bar>x\<bar>\<rfloor> = e" using assms(1,2) by (simp add: floor_log2 [OF pos])
  with assms(3) show ?thesis by (simp add: exponent_def)
qed

lemma exponent_bounds:
  assumes "2 powi (- 1022) \<le> \<bar>x\<bar>"
  shows "2 powi (exponent x) \<le> \<bar>x\<bar>" and "\<bar>x\<bar> < 2 powi (exponent x + 1)"
    and "- 1022 \<le> exponent x"
proof -
  have pos: "0 < \<bar>x\<bar>" using assms powi_pos [of "- 1022"] by linarith
  define e where "e = \<lfloor>log 2 \<bar>x\<bar>\<rfloor>"
  have b: "2 powi e \<le> \<bar>x\<bar>" "\<bar>x\<bar> < 2 powi (e + 1)"
    using floor_log2 [OF pos, of e] by (simp_all add: e_def)
  have "- 1022 \<le> e"
  proof (rule ccontr)
    assume "\<not> - 1022 \<le> e"
    then have "e + 1 \<le> - 1022" by simp
    then have "(2::real) powi (e + 1) \<le> 2 powi (- 1022)" by (rule powi_mono)
    with b(2) assms show False by linarith
  qed
  then have "exponent x = e" by (simp add: exponent_def e_def)
  with b \<open>- 1022 \<le> e\<close> show "2 powi (exponent x) \<le> \<bar>x\<bar>" "\<bar>x\<bar> < 2 powi (exponent x + 1)"
    "- 1022 \<le> exponent x" by simp_all
qed

lemma exponent_least: "- 1022 \<le> exponent x"
  by (simp add: exponent_def)

lemma exponent_le:
  assumes "\<bar>x\<bar> < 2 powi (e + 1)" and "- 1022 \<le> e" and N: "x \<noteq> 0"
  shows "exponent x \<le> e"
proof (cases "2 powi (- 1022) \<le> \<bar>x\<bar>")
  case True
  show ?thesis
  proof (rule ccontr)
    assume "\<not> exponent x \<le> e"
    then have "e + 1 \<le> exponent x" by simp
    then have "(2::real) powi (e + 1) \<le> 2 powi (exponent x)" by (rule powi_mono)
    with exponent_bounds(1) [OF True] assms(1) show False by linarith
  qed
next
  case False
  have "\<lfloor>log 2 \<bar>x\<bar>\<rfloor> \<le> - 1022"
  proof -
    from N have pos: "0 < \<bar>x\<bar>" by simp
    define k where "k = \<lfloor>log 2 \<bar>x\<bar>\<rfloor>"
    have "2 powi k \<le> \<bar>x\<bar>" using floor_log2 [OF pos, of k] by (simp add: k_def)
    with False have lt: "(2::real) powi k < 2 powi (- 1022)" by linarith
    have "k \<le> - 1022"
    proof (rule ccontr)
      assume "\<not> k \<le> - 1022"
      then have "- 1022 \<le> k" by simp
      then have "(2::real) powi (- 1022) \<le> 2 powi k" by (rule powi_mono)
      with lt show False by linarith
    qed
    then show ?thesis by (simp add: k_def)
  qed
  then have "exponent x = - 1022" by (simp add: exponent_def)
  with assms(2) show ?thesis by simp
qed

lemma roundEven_near: "\<bar>real_of_int (roundEven y) - y\<bar> \<le> 1 / 2"
  unfolding roundEven_def Let_def by (auto simp: abs_if) linarith+

lemma roundEven_int: "roundEven (real_of_int z) = z"
  by (simp add: roundEven_def Let_def)

lemma roundEven_ge: "real_of_int z \<le> y \<Longrightarrow> z \<le> roundEven y"
proof -
  assume "real_of_int z \<le> y"
  then have "z \<le> \<lfloor>y\<rfloor>" by (simp add: le_floor_iff)
  then show ?thesis unfolding roundEven_def Let_def by auto
qed

lemma fl_near: "\<bar>fl x - x\<bar> \<le> 2 powi (exponent x - 53)"
proof (cases "x = 0")
  case True
  then show ?thesis using powi_pos [of "exponent 0 - 53"] by (simp add: fl_def)
next
  case False
  define u :: real where "u = 2 powi (exponent x - 52)"
  have u: "0 < u" unfolding u_def by (rule powi_pos)
  have half: "u / 2 = 2 powi (exponent x - 53)"
    using powi_add [of "exponent x - 53" 1] by (simp add: u_def)
  have "fl x - x = u * (real_of_int (roundEven (x / u)) - x / u)"
    using False u by (simp add: fl_def Let_def u_def [symmetric] algebra_simps)
  then have "\<bar>fl x - x\<bar> = u * \<bar>real_of_int (roundEven (x / u)) - x / u\<bar>"
    using u by (simp add: abs_mult)
  also have "\<dots> \<le> u * (1 / 2)"
    using roundEven_near [of "x / u"] u by (simp only: mult_le_cancel_left_pos)
  finally show ?thesis using half by simp
qed

lemma fl_eval:
  assumes "2 powi e \<le> \<bar>x\<bar>" and "\<bar>x\<bar> < 2 powi (e + 1)" and "- 1022 \<le> e"
  shows "fl x = 2 powi (e - 52) * real_of_int (roundEven (x / 2 powi (e - 52)))"
proof -
  have "0 < \<bar>x\<bar>" using assms(1) powi_pos [of e] by linarith
  then have "x \<noteq> 0" by simp
  then show ?thesis by (simp add: fl_def exponent_eq [OF assms] Let_def)
qed


text \<open>Whole numbers below \<open>2^53\<close> are doubles.\<close>

lemma fl_int:
  assumes "\<bar>m\<bar> < 2 ^ 53"
  shows "fl (real_of_int m) = real_of_int m"
proof (cases "m = 0")
  case True
  then show ?thesis by (simp add: fl_def)
next
  case False
  define x where "x = real_of_int m"
  have x1: "1 \<le> \<bar>x\<bar>" using False unfolding x_def by (simp flip: of_int_abs)
  have x2: "\<bar>x\<bar> < 2 powi (52 + 1)"
  proof -
    have "real_of_int \<bar>m\<bar> < real_of_int (2 ^ 53)" using assms by (simp only: of_int_less_iff)
    then show ?thesis by (simp add: x_def)
  qed
  have "2 powi (- 1022) \<le> (1::real)" using powi_mono [of "- 1022" 0] by simp
  with x1 have low: "2 powi (- 1022) \<le> \<bar>x\<bar>" by linarith
  define e where "e = exponent x"
  have "x \<noteq> 0" using x1 by auto
  have e52: "e \<le> 52" unfolding e_def by (rule exponent_le [OF x2]) (simp_all add: \<open>x \<noteq> 0\<close>)
  have e0: "- 1022 \<le> e" unfolding e_def by (rule exponent_least)
  define k where "k = nat (52 - e)"
  have pk: "(2::real) powi (e - 52) = 1 / 2 ^ k"
    using e52 by (simp add: k_def power_int_def field_simps)
  have "x / 2 powi (e - 52) = real_of_int (m * 2 ^ k)"
    by (simp add: pk x_def)
  then have "roundEven (x / 2 powi (e - 52)) = m * 2 ^ k"
    by (simp only: roundEven_int)
  then have "fl x = 2 powi (e - 52) * real_of_int (m * 2 ^ k)"
    using \<open>x \<noteq> 0\<close> by (simp add: fl_def Let_def e_def)
  also have "\<dots> = x" by (simp add: pk x_def)
  finally show ?thesis by (simp add: x_def)
qed

text \<open>Rounding does not step below a power of two that the exact value has reached.\<close>

lemma fl_ge_power:
  assumes "2 powi j \<le> x" and "- 1022 \<le> j"
  shows "2 powi j \<le> fl x"
proof -
  have xpos: "0 < x" using assms(1) powi_pos [of j] by linarith
  then have ax: "\<bar>x\<bar> = x" by simp
  have "(2::real) powi (- 1022) \<le> 2 powi j" using assms(2) by (rule powi_mono)
  with assms(1) ax have low: "2 powi (- 1022) \<le> \<bar>x\<bar>" by linarith
  define e where "e = exponent x"
  have b: "2 powi e \<le> x" using exponent_bounds(1) [OF low] ax by (simp add: e_def)
  have je: "j \<le> e"
  proof (rule ccontr)
    assume "\<not> j \<le> e"
    then have "e + 1 \<le> j" by simp
    then have "(2::real) powi (e + 1) \<le> 2 powi j" by (rule powi_mono)
    with exponent_bounds(2) [OF low] assms(1) ax show False by (simp add: e_def)
  qed
  define u :: real where "u = 2 powi (e - 52)"
  have u: "0 < u" unfolding u_def by (rule powi_pos)
  have ue: "u * 2 ^ 52 = 2 powi e"
    using powi_add [of "e - 52" 52] by (simp add: u_def)
  have "real_of_int (2 ^ 52) \<le> x / u"
    using b u ue by (simp add: field_simps)
  then have "2 ^ 52 \<le> roundEven (x / u)" by (rule roundEven_ge)
  then have "real_of_int (2 ^ 52) \<le> real_of_int (roundEven (x / u))"
    by (simp only: of_int_le_iff)
  then have "u * 2 ^ 52 \<le> u * real_of_int (roundEven (x / u))"
    using u by simp
  moreover have "fl x = u * real_of_int (roundEven (x / u))"
    using xpos by (simp add: fl_def Let_def u_def e_def)
  ultimately have "2 powi e \<le> fl x" using ue by simp
  moreover have "(2::real) powi j \<le> 2 powi e" using je by (rule powi_mono)
  ultimately show ?thesis by linarith
qed

text \<open>Within the range, the result of an operation is the rounded exact value.\<close>

lemma toNumber_Fin:
  assumes "\<bar>x\<bar> < 2 powi 1023"
  shows "toNumber x = Fin (fl x)"
proof (cases "x = 0")
  case True
  then show ?thesis by (simp add: toNumber_def fl_def)
next
  case False
  have "exponent x \<le> 1022" by (rule exponent_le) (use assms False in simp_all)
  then have "exponent x - 53 \<le> 1022" by simp
  then have "(2::real) powi (exponent x - 53) \<le> 2 powi 1022" by (rule powi_mono)
  with fl_near [of x] have "\<bar>fl x - x\<bar> \<le> 2 powi 1022" by linarith
  moreover have "(2::real) powi 1024 = 2 powi 1023 + 2 powi 1023"
    and "(2::real) powi 1022 \<le> 2 powi 1023" by simp_all
  ultimately have "\<bar>fl x\<bar> < 2 powi 1024" using assms by linarith
  then show ?thesis by (simp add: toNumber_def Let_def abs_less_iff)
qed


lemma ofInt_Fin:
  assumes "\<bar>n\<bar> < 2 ^ 53"
  shows "ofInt n = Fin (real_of_int n)"
proof -
  have "real_of_int \<bar>n\<bar> < real_of_int (2 ^ 53)" using assms by (simp only: of_int_less_iff)
  then have "\<bar>real_of_int n\<bar> < 2 powi 1023" by simp
  then show ?thesis by (simp add: ofInt_def toNumber_Fin fl_int [OF assms])
qed

text \<open>
  The quotient of two whole numbers, rounded and floored, is their integer quotient as
  long as the rounding error stays below the reciprocal of the divisor.
\<close>

lemma floor_fl_div:
  assumes d: "0 < d"
    and bound: "\<bar>real_of_int n / real_of_int d\<bar> < 2 powi (e + 1)"
    and e: "- 1022 \<le> e" "e \<le> 52"
    and small: "2 powi (e - 53) * real_of_int d < 1"
  shows "\<lfloor>fl (real_of_int n / real_of_int d)\<rfloor> = n div d"
proof -
  define x where "x = real_of_int n / real_of_int d"
  define q where "q = n div d"
  define r where "r = n mod d"
  have n: "n = q * d + r" by (simp add: q_def r_def)
  have r: "0 \<le> r" "r < d" using d by (simp_all add: r_def)
  have dpos: "0 < real_of_int d" using d by simp
  have x: "x = real_of_int q + real_of_int r / real_of_int d"
    using dpos by (simp add: x_def n field_simps)
  show ?thesis
  proof (cases "r = 0")
    case True
    then have xq: "x = real_of_int q" using x by simp
    have "\<bar>real_of_int q\<bar> < 2 powi (e + 1)" using bound by (simp add: x_def [symmetric] xq)
    also have "(2::real) powi (e + 1) \<le> 2 powi 53" by (rule powi_mono) (use e in simp)
    finally have "real_of_int \<bar>q\<bar> < real_of_int (2 ^ 53)" by simp
    then have "\<bar>q\<bar> < 2 ^ 53" by (simp only: of_int_less_iff)
    then have "fl (real_of_int q) = real_of_int q" by (rule fl_int)
    then show ?thesis by (simp add: x_def [symmetric] xq q_def)
  next
    case False
    with r have r1: "1 \<le> r" "r \<le> d - 1" by simp_all
    have lo: "real_of_int q + 1 / real_of_int d \<le> x"
      using r1(1) dpos by (simp add: x field_simps)
    have "real_of_int r \<le> real_of_int d - 1" using r1(2) by (simp flip: of_int_diff)
    then have "real_of_int r / real_of_int d \<le> (real_of_int d - 1) / real_of_int d"
      using dpos by (simp add: divide_right_mono)
    moreover have "(real_of_int d - 1) / real_of_int d = 1 - 1 / real_of_int d"
      using dpos by (simp add: field_simps)
    ultimately have hi: "x \<le> real_of_int q + 1 - 1 / real_of_int d"
      by (simp add: x)
    have x0: "x \<noteq> 0"
    proof
      assume "x = 0"
      then have "n = 0" using dpos by (simp add: x_def)
      then show False using False by (simp add: r_def)
    qed
    have "exponent x \<le> e" by (rule exponent_le) (use bound e x0 in \<open>simp_all add: x_def\<close>)
    then have "exponent x - 53 \<le> e - 53" by simp
    then have "(2::real) powi (exponent x - 53) \<le> 2 powi (e - 53)" by (rule powi_mono)
    with fl_near [of x] have near: "\<bar>fl x - x\<bar> \<le> 2 powi (e - 53)" by linarith
    have "2 powi (e - 53) < 1 / real_of_int d" using small dpos by (simp add: field_simps)
    with near have "\<bar>fl x - x\<bar> < 1 / real_of_int d" by linarith
    with lo hi have "real_of_int q \<le> fl x" and "fl x < real_of_int q + 1" by linarith+
    then have "\<lfloor>fl x\<rfloor> = q" by (simp add: floor_eq_iff)
    then show ?thesis by (simp add: x_def q_def)
  qed
qed

lemma floor_third:
  assumes "0 \<le> n" and "n \<le> 2147483647"
  shows "\<lfloor>fl (real_of_int n / 3)\<rfloor> = n div 3"
proof -
  have "real_of_int n \<le> real_of_int 2147483647" using assms(2) by (simp only: of_int_le_iff)
  then have "\<bar>real_of_int n / real_of_int 3\<bar> < 2 powi (30 + 1)" using assms(1) by simp
  from floor_fl_div [OF _ this] show ?thesis by simp
qed

section \<open>The literals and the streak bonus\<close>

lemma lit_3: "lit 3 = Fin 3"
  using ofInt_Fin [of 3] by (simp add: lit_def ofInt_def)

lemma lit_half: "lit (1 / 2) = Fin (1 / 2)"
  by (simp add: lit_def toNumber_def Let_def fl_eval [where e = "- 1"] roundEven_def)

lemma lit_tenth: "lit (1 / 10) = Fin (3602879701896397 / 36028797018963968)"
  by (simp add: lit_def toNumber_def Let_def fl_eval [where e = "- 4"] roundEven_def)


lemma toNumber_eval:
  assumes "2 powi e \<le> \<bar>x\<bar>" and "\<bar>x\<bar> < 2 powi (e + 1)" and "- 1022 \<le> e" and "e \<le> 1022"
  shows "toNumber x = Fin (2 powi (e - 52) * real_of_int (roundEven (x / 2 powi (e - 52))))"
proof -
  have "(2::real) powi (e + 1) \<le> 2 powi 1023" by (rule powi_mono) (use assms(4) in simp)
  with assms(2) have "\<bar>x\<bar> < 2 powi 1023" by linarith
  then show ?thesis by (simp add: toNumber_Fin fl_eval [OF assms(1-3)])
qed

lemma toNumber_0: "toNumber 0 = Fin 0"
  by (simp add: toNumber_def fl_def)

text \<open>
  The streak bonus \<open>Math.min(k * 0.1, 0.5)\<close> for a whole \<open>k\<close>: the doubles nearest
  to 0, 0.1, 0.2, 0.3 and 0.4, where \<open>3 * 0.1\<close> is the double above 0.3, and a half
  from 5 on.
\<close>

lemma bonus_small:
  "Math_min (nmul (Fin 0) (lit (1 / 10))) (lit (1 / 2)) = Fin 0"
  "Math_min (nmul (Fin 1) (lit (1 / 10))) (lit (1 / 2))
     = Fin (3602879701896397 / 36028797018963968)"
  "Math_min (nmul (Fin 2) (lit (1 / 10))) (lit (1 / 2))
     = Fin (3602879701896397 / 18014398509481984)"
  "Math_min (nmul (Fin 3) (lit (1 / 10))) (lit (1 / 2))
     = Fin (1351079888211149 / 4503599627370496)"
  "Math_min (nmul (Fin 4) (lit (1 / 10))) (lit (1 / 2))
     = Fin (3602879701896397 / 9007199254740992)"
proof -
  show "Math_min (nmul (Fin 0) (lit (1 / 10))) (lit (1 / 2)) = Fin 0"
    by (simp add: lit_tenth lit_half toNumber_0)
  show "Math_min (nmul (Fin 1) (lit (1 / 10))) (lit (1 / 2))
          = Fin (3602879701896397 / 36028797018963968)"
    by (simp add: lit_tenth lit_half toNumber_eval [where e = "- 4"] roundEven_def Let_def)
  show "Math_min (nmul (Fin 2) (lit (1 / 10))) (lit (1 / 2))
          = Fin (3602879701896397 / 18014398509481984)"
    by (simp add: lit_tenth lit_half toNumber_eval [where e = "- 3"] roundEven_def Let_def)
  show "Math_min (nmul (Fin 3) (lit (1 / 10))) (lit (1 / 2))
          = Fin (1351079888211149 / 4503599627370496)"
    by (simp add: lit_tenth lit_half toNumber_eval [where e = "- 2"] roundEven_def Let_def)
  show "Math_min (nmul (Fin 4) (lit (1 / 10))) (lit (1 / 2))
          = Fin (3602879701896397 / 9007199254740992)"
    by (simp add: lit_tenth lit_half toNumber_eval [where e = "- 2"] roundEven_def Let_def)
qed

lemma bonus_capped:
  assumes "5 \<le> k" and "k \<le> 715827882"
  shows "Math_min (nmul (Fin (real_of_int k)) (lit (1 / 10))) (lit (1 / 2)) = Fin (1 / 2)"
proof -
  define x where "x = real_of_int k * (3602879701896397 / 36028797018963968)"
  have k5: "5 \<le> real_of_int k" using assms(1) by simp
  have "real_of_int k \<le> real_of_int 715827882" using assms(2) by (simp only: of_int_le_iff)
  then have kb: "real_of_int k \<le> 715827882" by simp
  have lo: "2 powi (- 1) \<le> x" using k5 by (simp add: x_def)
  have "\<bar>x\<bar> \<le> 715827882" using k5 kb by (simp add: x_def)
  moreover have "(715827882::real) < 2 powi 1023" by simp
  ultimately have "\<bar>x\<bar> < 2 powi 1023" by linarith
  then have t: "toNumber x = Fin (fl x)" by (rule toNumber_Fin)
  have "2 powi (- 1) \<le> fl x" by (rule fl_ge_power [OF lo]) simp
  then have "1 / 2 \<le> fl x" by simp
  then have m: "min (fl x) (1 / 2) = 1 / 2" by (rule min_absorb2)
  have "nmul (Fin (real_of_int k)) (lit (1 / 10)) = Fin (fl x)"
    unfolding lit_tenth nmul.simps x_def [symmetric] by (rule t)
  then show ?thesis unfolding lit_half by (simp only: Math_min.simps m)
qed

text \<open>The rest of the computation for base 1, from the streak bonus on.\<close>

lemmas eval_number = lit_half toNumber_0 toNumber_eval [where e = "- 4"]
  toNumber_eval [where e = "- 3"] toNumber_eval [where e = "- 2"]
  toNumber_eval [where e = "- 1"] toNumber_eval [where e = 0] toNumber_eval [where e = 1]
  roundEven_def Let_def

lemma reward_from_bonus:
  "Math_round (nadd (Fin 1) (nmul (Fin 1) (Fin 0))) = Fin 1"
  "Math_round (nadd (Fin 1) (nmul (Fin 1) (Fin (3602879701896397 / 36028797018963968))))
   = Fin 1"
  "Math_round (nadd (Fin 1) (nmul (Fin 1) (Fin (3602879701896397 / 18014398509481984))))
   = Fin 1"
  "Math_round (nadd (Fin 1) (nmul (Fin 1) (Fin (1351079888211149 / 4503599627370496))))
   = Fin 1"
  "Math_round (nadd (Fin 1) (nmul (Fin 1) (Fin (3602879701896397 / 9007199254740992))))
   = Fin 1"
  "Math_round (nadd (Fin 1) (nmul (Fin 1) (Fin (1 / 2)))) = Fin 2"
  by (simp_all add: eval_number)

lemma reward_from_bonus_in_pod:
  "Math_round (nadd (nadd (Fin 1) (nmul (Fin 1) (Fin 0))) (nmul (Fin 1) (lit (1 / 2)))) = Fin 2"
  "Math_round (nadd (nadd (Fin 1) (nmul (Fin 1) (Fin (3602879701896397 / 36028797018963968))))
                 (nmul (Fin 1) (lit (1 / 2)))) = Fin 2"
  "Math_round (nadd (nadd (Fin 1) (nmul (Fin 1) (Fin (3602879701896397 / 18014398509481984))))
                 (nmul (Fin 1) (lit (1 / 2)))) = Fin 2"
  "Math_round (nadd (nadd (Fin 1) (nmul (Fin 1) (Fin (1351079888211149 / 4503599627370496))))
                 (nmul (Fin 1) (lit (1 / 2)))) = Fin 2"
  "Math_round (nadd (nadd (Fin 1) (nmul (Fin 1) (Fin (3602879701896397 / 9007199254740992))))
                 (nmul (Fin 1) (lit (1 / 2)))) = Fin 2"
  "Math_round (nadd (nadd (Fin 1) (nmul (Fin 1) (Fin (1 / 2)))) (nmul (Fin 1) (lit (1 / 2))))
   = Fin 2"
  by (simp_all add: eval_number)


text \<open>
  For base 1 and a whole streak from 0 up to the largest value of an \<open>INTEGER\<close>
  column, the doubles give 2 from streak 15 on and in a pod, and 1 otherwise.
\<close>

lemma reward_whole_streak:
  assumes "0 \<le> n" and "n \<le> 2147483647"
  shows "calculatePomodoroReward (Fin 1) (ofInt n) inPod
         = Fin (if 15 \<le> n \<or> inPod then 2 else 1)"
proof -
  define k where "k = n div 3"
  have k0: "0 \<le> k" and kb: "k \<le> 715827882" using assms by (simp_all add: k_def)
  have k15: "(15 \<le> n) = (5 \<le> k)" by (auto simp: k_def)
  have n: "ofInt n = Fin (real_of_int n)" by (rule ofInt_Fin) (use assms in simp)
  have "real_of_int n \<le> real_of_int 2147483647" using assms(2) by (simp only: of_int_le_iff)
  then have "\<bar>real_of_int n / 3\<bar> \<le> 2147483647" using assms(1) by simp
  moreover have "(2147483647::real) < 2 powi 1023" by simp
  ultimately have "\<bar>real_of_int n / 3\<bar> < 2 powi 1023" by linarith
  then have "ndiv (Fin (real_of_int n)) (lit 3) = Fin (fl (real_of_int n / 3))"
    by (simp add: lit_3 toNumber_Fin)
  then have fk: "Math_floor (ndiv (ofInt n) (lit 3)) = Fin (real_of_int k)"
    by (simp add: n floor_third [OF assms] k_def)
  have pick: "calculatePomodoroReward (Fin 1) (ofInt n) inPod
              = (if inPod then Math_round (nadd (nadd (Fin 1) (nmul (Fin 1) b))
                                             (nmul (Fin 1) (lit (1 / 2))))
                 else Math_round (nadd (Fin 1) (nmul (Fin 1) b)))"
    if "Math_min (nmul (Fin (real_of_int k)) (lit (1 / 10))) (lit (1 / 2)) = b" for b
    unfolding calculatePomodoroReward_def Let_def fk that by (cases inPod) (simp_all only: if_True if_False)
  consider "k = 0" | "k = 1" | "k = 2" | "k = 3" | "k = 4" | "5 \<le> k" using k0 by linarith
  then show ?thesis
  proof cases
    case 1
    then have "\<not> 15 \<le> n" by (simp add: k15)
    with pick [of "Fin 0"] bonus_small(1) 1
    show ?thesis by (simp del: nmul.simps nadd.simps Math_round.simps Math_min.simps
          add: reward_from_bonus reward_from_bonus_in_pod)
  next
    case 2
    then have "\<not> 15 \<le> n" by (simp add: k15)
    with pick [of "Fin (3602879701896397 / 36028797018963968)"] bonus_small(2) 2
    show ?thesis by (simp del: nmul.simps nadd.simps Math_round.simps Math_min.simps
          add: reward_from_bonus reward_from_bonus_in_pod)
  next
    case 3
    then have "\<not> 15 \<le> n" by (simp add: k15)
    with pick [of "Fin (3602879701896397 / 18014398509481984)"] bonus_small(3) 3
    show ?thesis by (simp del: nmul.simps nadd.simps Math_round.simps Math_min.simps
          add: reward_from_bonus reward_from_bonus_in_pod)
  next
    case 4
    then have "\<not> 15 \<le> n" by (simp add: k15)
    with pick [of "Fin (1351079888211149 / 4503599627370496)"] bonus_small(4) 4
    show ?thesis by (simp del: nmul.simps nadd.simps Math_round.simps Math_min.simps
          add: reward_from_bonus reward_from_bonus_in_pod)
  next
    case 5
    then have "\<not> 15 \<le> n" by (simp add: k15)
    with pick [of "Fin (3602879701896397 / 9007199254740992)"] bonus_small(5) 5
    show ?thesis by (simp del: nmul.simps nadd.simps Math_round.simps Math_min.simps
          add: reward_from_bonus reward_from_bonus_in_pod)
  next
    case 6
    then have "15 \<le> n" by (simp add: k15)
    with pick [OF bonus_capped [OF 6 kb]]
    show ?thesis by (simp del: nmul.simps nadd.simps Math_round.simps Math_min.simps
          add: reward_from_bonus reward_from_bonus_in_pod)
  qed
qed





section \<open>Elapsed minutes and completion rate in doubles\<close>

lemma roundEven_le: "y \<le> real_of_int z \<Longrightarrow> roundEven y \<le> z"
proof -
  assume a: "y \<le> real_of_int z"
  then have le: "\<lfloor>y\<rfloor> \<le> z" by (simp add: floor_le_iff)
  show ?thesis
  proof (cases "\<lfloor>y\<rfloor> = z")
    case True
    then have "y - real_of_int \<lfloor>y\<rfloor> \<le> 0" using a by simp
    then show ?thesis using True by (simp add: roundEven_def Let_def)
  next
    case False
    with le have "\<lfloor>y\<rfloor> + 1 \<le> z" by simp
    then show ?thesis unfolding roundEven_def Let_def by auto
  qed
qed

lemma fl_nonpos:
  assumes "x \<le> 0"
  shows "fl x \<le> 0"
proof (cases "x = 0")
  case True
  then show ?thesis by (simp add: fl_def)
next
  case False
  define u :: real where "u = 2 powi (exponent x - 52)"
  have u: "0 < u" unfolding u_def by (rule powi_pos)
  have "x / u \<le> real_of_int 0" using assms u by (simp add: divide_nonpos_pos)
  then have "roundEven (x / u) \<le> 0" by (rule roundEven_le)
  then have "real_of_int (roundEven (x / u)) \<le> 0" by simp
  then have "u * real_of_int (roundEven (x / u)) \<le> 0"
    using u by (simp add: mult_le_0_iff)
  then show ?thesis using False by (simp add: fl_def Let_def u_def)
qed

lemma fl_below_one:
  assumes "0 < x" and "x < 1"
  shows "x - 1 / 18014398509481984 \<le> fl x" and "fl x \<le> x + 1 / 18014398509481984"
proof -
  have "exponent x \<le> - 1" by (rule exponent_le) (use assms in simp_all)
  then have "exponent x - 53 \<le> - 54" by simp
  then have "(2::real) powi (exponent x - 53) \<le> 2 powi (- 54)" by (rule powi_mono)
  moreover have "(2::real) powi (- 54) = 1 / 18014398509481984" by simp
  ultimately have "\<bar>fl x - x\<bar> \<le> 1 / 18014398509481984" using fl_near [of x] by linarith
  then show "x - 1 / 18014398509481984 \<le> fl x" and "fl x \<le> x + 1 / 18014398509481984"
    by linarith+
qed

lemma lit_nine_tenths: "lit (9 / 10) = Fin (8106479329266893 / 9007199254740992)"
  by (simp add: lit_def toNumber_eval [where e = "- 1"] roundEven_def Let_def)

lemma fl_nine_tenths: "fl (9 / 10) = 8106479329266893 / 9007199254740992"
  by (simp add: fl_eval [where e = "- 1"] roundEven_def Let_def)

lemma rate_rounded_pos:
  assumes d: "0 < d" "d \<le> 2147483648"
  shows "(8106479329266893 / 9007199254740992 \<le> fl (real_of_int a / real_of_int d))
         = (9 / 10 \<le> real_of_int a / real_of_int d)"
proof -
  define x where "x = real_of_int a / real_of_int d"
  define t where "t = 10 * a - 9 * d"
  have dpos: "0 < real_of_int d" using d(1) by simp
  have "real_of_int d \<le> real_of_int 2147483648" using d(2) by (simp only: of_int_le_iff)
  then have dle: "real_of_int d \<le> 2147483648" by simp
  have xt: "x - 9 / 10 = real_of_int t / (10 * real_of_int d)"
    using dpos by (simp add: x_def t_def field_simps)
  have gap: "1 / 21474836480 \<le> 1 / (10 * real_of_int d)"
    using dpos dle by (simp add: field_simps)
  show ?thesis
  proof (cases "9 / 10 \<le> x")
    case True
    have "8106479329266893 / 9007199254740992 \<le> fl x"
    proof (cases "x = 9 / 10")
      case E: True
      show ?thesis unfolding E fl_nine_tenths by simp
    next
      case N: False
      with True have "0 < x - 9 / 10" by simp
      then have "0 < real_of_int t" using dpos by (simp add: xt zero_less_divide_iff)
      then have "1 \<le> t" by simp
      then have "1 \<le> real_of_int t" by simp
      then have "1 / (10 * real_of_int d) \<le> real_of_int t / (10 * real_of_int d)"
        using dpos by (simp add: divide_right_mono)
      with gap xt have far: "9 / 10 + 1 / 21474836480 \<le> x" by linarith
      show ?thesis
      proof (cases "1 \<le> x")
        case G: True
        have "2 powi 0 \<le> fl x" by (rule fl_ge_power) (use G in simp_all)
        then show ?thesis by simp
      next
        case L: False
        have "x - 1 / 18014398509481984 \<le> fl x"
          by (rule fl_below_one) (use L far in simp_all)
        with far show ?thesis by simp
      qed
    qed
    with True show ?thesis by (simp add: x_def)
  next
    case False
    then have "x - 9 / 10 < 0" by simp
    then have "real_of_int t < 0" using dpos by (simp add: xt divide_less_0_iff)
    then have "t \<le> - 1" by simp
    then have "real_of_int t \<le> - 1" by (simp flip: of_int_le_iff)
    then have "real_of_int t / (10 * real_of_int d) \<le> (- 1) / (10 * real_of_int d)"
      by (rule divide_right_mono) (use dpos in simp)
    with gap xt have far: "x \<le> 9 / 10 - 1 / 21474836480" by simp
    have "fl x < 8106479329266893 / 9007199254740992"
    proof (cases "x \<le> 0")
      case True
      from fl_nonpos [OF this] show ?thesis by simp
    next
      case P: False
      have "fl x \<le> x + 1 / 18014398509481984"
        by (rule fl_below_one) (use P far in simp_all)
      with far show ?thesis by simp
    qed
    with False show ?thesis by (simp add: x_def)
  qed
qed

text \<open>
  The comparison of the source, \<open>actualMinutes / session.duration >= 0.9\<close> on doubles,
  is \<open>rateAtLeast90\<close> for a duration in the range of its column.
\<close>

lemma rate_in_doubles:
  assumes d: "int4 d" and a: "\<bar>a\<bar> < 2 ^ 53"
  shows "nge (ndiv (ofInt a) (ofInt d)) (lit (9 / 10)) = rateAtLeast90 a d"
proof -
  have "\<bar>d\<bar> < 2 ^ 53" using d by (auto simp: int4_def abs_less_iff)
  then have od: "ofInt d = Fin (real_of_int d)" by (rule ofInt_Fin)
  have oa: "ofInt a = Fin (real_of_int a)" using a by (rule ofInt_Fin)
  show ?thesis
  proof (cases "d = 0")
    case True
    have z: "ofInt 0 = Fin 0" using ofInt_Fin [of 0] by simp
    show ?thesis
      unfolding True oa z by (simp add: lit_nine_tenths rateAtLeast90_def infinityOf_def)
  next
    case False
    define x where "x = real_of_int a / real_of_int d"
    have "real_of_int \<bar>a\<bar> < real_of_int (2 ^ 53)" using a by (simp only: of_int_less_iff)
    then have ab: "\<bar>real_of_int a\<bar> < 9007199254740992" by simp
    have "1 \<le> \<bar>d\<bar>" using False by simp
    then have "1 \<le> real_of_int \<bar>d\<bar>" by (simp only: of_int_1_le_iff)
    then have db: "1 \<le> \<bar>real_of_int d\<bar>" by simp
    have "\<bar>x\<bar> = \<bar>real_of_int a\<bar> / \<bar>real_of_int d\<bar>" by (simp add: x_def)
    also have "\<dots> \<le> \<bar>real_of_int a\<bar> / 1"
      by (rule divide_left_mono) (use db in simp_all)
    finally have "\<bar>x\<bar> < 9007199254740992" using ab by simp
    moreover have "(9007199254740992::real) < 2 powi 1023" by simp
    ultimately have "\<bar>x\<bar> < 2 powi 1023" by linarith
    then have q: "ndiv (ofInt a) (ofInt d) = Fin (fl x)"
      using False by (simp add: oa od toNumber_Fin x_def)
    have "(8106479329266893 / 9007199254740992 \<le> fl x) = (9 / 10 \<le> x)"
    proof (cases "0 < d")
      case True
      then show ?thesis
        unfolding x_def using d by (intro rate_rounded_pos) (simp_all add: int4_def)
    next
      case N: False
      with False have "0 < - d" and "- d \<le> 2147483648" using d by (simp_all add: int4_def)
      from rate_rounded_pos [OF this, of "- a"] show ?thesis by (simp add: x_def)
    qed
    then show ?thesis using False by (simp add: q lit_nine_tenths rateAtLeast90_def x_def)
  qed
qed

text \<open>
  The elapsed minutes of the source,
  \<open>Math.floor((Date.now() - session.startTime.getTime()) / 60000)\<close> on doubles, are
  the integer quotient for instants that are doubles less than \<open>2^53\<close> milliseconds
  apart.
\<close>

lemma minutes_in_doubles:
  assumes "\<bar>now\<bar> < 2 ^ 53" and "\<bar>start\<bar> < 2 ^ 53" and "\<bar>now - start\<bar> < 2 ^ 53"
  shows "Math_floor (ndiv (nsub (ofInt now) (ofInt start)) (lit 60000))
         = Fin (real_of_int ((now - start) div 60000))"
proof -
  define n where "n = now - start"
  have "real_of_int \<bar>n\<bar> < real_of_int (2 ^ 53)"
    using assms(3) unfolding n_def by (simp only: of_int_less_iff)
  then have nb: "\<bar>real_of_int n\<bar> < 9007199254740992" by simp
  moreover have "(9007199254740992::real) < 2 powi 1023" by simp
  ultimately have "\<bar>real_of_int n\<bar> < 2 powi 1023" by linarith
  then have "toNumber (real_of_int n) = Fin (real_of_int n)"
    using fl_int [of n] assms(3) by (simp add: toNumber_Fin n_def)
  then have sub: "nsub (ofInt now) (ofInt start) = Fin (real_of_int n)"
    by (simp add: ofInt_Fin [OF assms(1)] ofInt_Fin [OF assms(2)] n_def)
  have l: "lit 60000 = Fin 60000"
    using ofInt_Fin [of 60000] by (simp add: lit_def ofInt_def)
  have q: "\<bar>real_of_int n / 60000\<bar> < 9007199254740992" using nb by simp
  moreover have "(9007199254740992::real) < 2 powi 1023" by simp
  ultimately have "\<bar>real_of_int n / 60000\<bar> < 2 powi 1023" by linarith
  then have dv: "ndiv (Fin (real_of_int n)) (Fin 60000) = Fin (fl (real_of_int n / 60000))"
    by (simp add: toNumber_Fin)
  have "\<bar>real_of_int n / real_of_int 60000\<bar> < 2 powi (37 + 1)" using nb by simp
  from floor_fl_div [OF _ this] have "\<lfloor>fl (real_of_int n / 60000)\<rfloor> = n div 60000" by simp
  then show ?thesis unfolding sub l dv by (simp only: Math_floor.simps n_def)
qed

section \<open>What unlocking an achievement changes\<close>

lemma frame_refl: "frame s s"
  by (simp add: frame_def)

lemma frame_trans: "frame s s' \<Longrightarrow> frame s' s'' \<Longrightarrow> frame s s''"
  by (simp add: frame_def)

lemma find_SomeD: "find P xs = Some x \<Longrightarrow> P x \<and> x \<in> set xs"
  by (induction xs) (auto split: if_splits)

lemma find_map_update:
  assumes "\<And>u. user_id (f u) = user_id u"
  shows "find (\<lambda>u. user_id u = v) (map (\<lambda>u. if user_id u = uid then f u else u) xs)
         = (if v = uid then map_option f (find (\<lambda>u. user_id u = v) xs)
            else find (\<lambda>u. user_id u = v) xs)"
  using assms by (induction xs) auto

lemma getUser_setUser:
  assumes "\<And>u. user_id (f u) = user_id u"
  shows "getUser (setUser s uid f) v
         = (if v = uid then map_option f (getUser s v) else getUser s v)"
  using find_map_update [OF assms] by (simp add: getUser_def setUser_def)

lemma setUser_other_tables:
  "sessions (setUser s uid f) = sessions s"
  "pods (setUser s uid f) = pods s"
  "notifications (setUser s uid f) = notifications s"
  "userStats (setUser s uid f) = userStats s"
  "uuids (setUser s uid f) = uuids s"
  "drawn (setUser s uid f) = drawn s"
  by (simp_all add: setUser_def)

lemma setUser_user_ids:
  assumes "\<And>u. user_id (f u) = user_id u"
  shows "map user_id (users (setUser s uid f)) = map user_id (users s)"
  using assms by (simp add: setUser_def)

lemma getUser_in_ids: "getUser s userId = Some user \<Longrightarrow> userId \<in> set (map user_id (users s))"
  using find_SomeD [of "\<lambda>u. user_id u = userId" "users s" user] by (auto simp: getUser_def)

text \<open>The two outcomes of \<open>updateUser\<close>, and when each arises.\<close>

lemma updateUser_cases:
  "updateUser s uid f = (setUser s uid f, Inr ()) \<or> updateUser s uid f = (s, Inl StoreError)"
  by (simp add: updateUser_def)

lemma updateUser_free:
  assumes "\<And>u. accepted u (f u)"
  shows "updateUser s uid f = (setUser s uid f, Inr ())"
  using assms by (simp add: updateUser_def list_all_iff)

lemma updateUser_first:
  assumes "getUser s uid = Some user" and "\<not> accepted user (f user)"
  shows "updateUser s uid f = (s, Inl StoreError)"
proof -
  from find_SomeD [of "\<lambda>u. user_id u = uid" "users s" user] assms(1)
  have "user \<in> set (filter (\<lambda>u. user_id u = uid) (users s))" by (simp add: getUser_def)
  with assms(2) have "\<not> list_all (\<lambda>u. accepted u (f u)) (filter (\<lambda>u. user_id u = uid) (users s))"
    unfolding list_all_iff by blast
  then show ?thesis by (simp add: updateUser_def)
qed

lemma updateUser_coins:
  assumes "getUser s uid = Some user" and "nb \<noteq> focusCoins user"
  shows "updateUser s uid (\<lambda>u. u\<lparr>focusCoins := nb\<rparr>)
         = (if int4 nb then (setUser s uid (\<lambda>u. u\<lparr>focusCoins := nb\<rparr>), Inr ())
            else (s, Inl StoreError))"
proof (cases "int4 nb")
  case True
  then show ?thesis by (simp add: updateUser_free accepted_def)
next
  case False
  with assms(2) have "\<not> accepted user (user\<lparr>focusCoins := nb\<rparr>)" by (simp add: accepted_def)
  with False show ?thesis by (simp add: updateUser_first [OF assms(1)])
qed

lemma awardFocusCoins_amount:
  assumes "getUser s uid = Some user" and "amount \<noteq> 0"
  shows "awardFocusCoins s uid amount
         = (if int4 (focusCoins user + amount)
            then (setUser s uid (\<lambda>u. u\<lparr>focusCoins := focusCoins user + amount\<rparr>),
                  Inr (focusCoins user + amount))
            else (s, Inl StoreError))"
  using assms by (simp add: awardFocusCoins_def Let_def updateUser_coins)

lemma find_counters:
  "map counters xs = map counters ys \<Longrightarrow>
   map_option counters (find (\<lambda>u. user_id u = v) xs)
   = map_option counters (find (\<lambda>u. user_id u = v) ys)"
proof (induction xs arbitrary: ys)
  case Nil
  then show ?case by simp
next
  case (Cons x xs)
  then obtain y ys' where ys: "ys = y # ys'" by (cases ys) auto
  with Cons.prems have xy: "counters x = counters y" and rest: "map counters xs = map counters ys'"
    by auto
  from xy have "user_id x = user_id y" by (simp add: counters_def)
  with Cons.IH [OF rest] xy ys show ?case by simp
qed

lemma frame_getUser:
  "frame s s' \<Longrightarrow> map_option counters (getUser s' v) = map_option counters (getUser s v)"
  unfolding frame_def getUser_def by (rule find_counters) simp

lemma frame_user_ids: "frame s s' \<Longrightarrow> map user_id (users s') = map user_id (users s)"
proof -
  assume "frame s s'"
  then have "map counters (users s') = map counters (users s)" by (simp add: frame_def)
  then have "map (fst \<circ> counters) (users s') = map (fst \<circ> counters) (users s)"
    by (metis map_map)
  moreover have "fst \<circ> counters = user_id" by (rule ext) (simp add: counters_def)
  ultimately show ?thesis by simp
qed

lemma frame_setUser:
  assumes "\<And>u. counters (f u) = counters u"
  shows "frame s (setUser s uid f)"
  using assms by (simp add: frame_def setUser_def)

lemma catalog_rewards_pos: "a \<in> set ACHIEVEMENTS \<Longrightarrow> 0 < ach_reward a"
  by (auto simp: ACHIEVEMENTS_def)

text \<open>What unlockAchievement does, case by case.\<close>

lemma unlockAchievement_already:
  "getUser s userId = Some user \<Longrightarrow> achievementId \<in> set (achievements user) \<Longrightarrow>
   unlockAchievement now s userId achievementId = (s, Inr False)"
  by (simp add: unlockAchievement_def)

lemma unlockAchievement_unknown:
  "getUser s userId = Some user \<Longrightarrow> find (\<lambda>a. ach_id a = achievementId) ACHIEVEMENTS = None \<Longrightarrow>
   unlockAchievement now s userId achievementId = (s, Inr False)"
  by (simp add: unlockAchievement_def)

lemma unlockAchievement_no_user:
  "getUser s userId = None \<Longrightarrow>
   unlockAchievement now s userId achievementId = (s, Inl UserNotFound)"
  by (simp add: unlockAchievement_def)

text \<open>
  The id of a catalog achievement that the user does not hold: the id is written first,
  the credit is a second statement, the notification a third.
\<close>

lemma unlockAchievement_new:
  assumes "getUser s userId = Some user"
    and "achievementId \<notin> set (achievements user)"
    and "find (\<lambda>a. ach_id a = achievementId) ACHIEVEMENTS = Some a"
  shows "unlockAchievement now s userId achievementId
         = (if \<not> int4 (focusCoins user + ach_reward a)
            then (setUser s userId (\<lambda>u. u\<lparr>achievements := achievements user @ [achievementId]\<rparr>),
                  Inl StoreError)
            else
              (case createNotification
                      ((setUser s userId
                          (\<lambda>u. u\<lparr>achievements := achievements user @ [achievementId],
                                 focusCoins := focusCoins user + ach_reward a\<rparr>))
                       \<lparr>drawn := drawn s + 1\<rparr>)
                      \<lparr>notif_id = uuids s (drawn s), notif_userId = userId,
                       notif_type = ACHIEVEMENT_UNLOCKED,
                       message = AchievementUnlockedText (ach_name a) (ach_reward a),
                       sentAt = now, read = False\<rparr> of
                 (s4, Inl e) \<Rightarrow> (s4, Inl e)
               | (s4, Inr _) \<Rightarrow> (s4, Inr True)))"
proof -
  define f :: "User \<Rightarrow> User" where
    "f = (\<lambda>u. u\<lparr>achievements := achievements user @ [achievementId]\<rparr>)"
  define g :: "User \<Rightarrow> User" where
    "g = (\<lambda>u. u\<lparr>focusCoins := focusCoins user + ach_reward a\<rparr>)"
  define s1 where "s1 = setUser s userId f"
  have u1: "updateUser s userId f = (s1, Inr ())"
    unfolding s1_def by (rule updateUser_free) (simp add: accepted_def f_def)
  have g1: "getUser s1 userId = Some (f user)"
    using assms(1) unfolding s1_def by (simp add: getUser_setUser f_def)
  have "a \<in> set ACHIEVEMENTS" using find_SomeD [OF assms(3)] by simp
  then have "ach_reward a \<noteq> 0" using catalog_rewards_pos [of a] by simp
  from awardFocusCoins_amount [OF g1 this]
  have aw: "awardFocusCoins s1 userId (ach_reward a)
            = (if int4 (focusCoins user + ach_reward a)
               then (setUser s1 userId g, Inr (focusCoins user + ach_reward a))
               else (s1, Inl StoreError))"
    by (simp add: f_def g_def)
  have two: "setUser s1 userId g
             = setUser s userId (\<lambda>u. u\<lparr>achievements := achievements user @ [achievementId],
                                       focusCoins := focusCoins user + ach_reward a\<rparr>)"
    by (simp add: s1_def setUser_def f_def g_def comp_def cong: if_cong)
  have un: "unlockAchievement now s userId achievementId
            = (case awardFocusCoins s1 userId (ach_reward a) of
                 (s2, Inl e) \<Rightarrow> (s2, Inl e)
               | (s2, Inr _) \<Rightarrow>
                   (case createNotification (s2\<lparr>drawn := drawn s2 + 1\<rparr>)
                           \<lparr>notif_id = uuids s2 (drawn s2), notif_userId = userId,
                            notif_type = ACHIEVEMENT_UNLOCKED,
                            message = AchievementUnlockedText (ach_name a) (ach_reward a),
                            sentAt = now, read = False\<rparr> of
                      (s4, Inl e) \<Rightarrow> (s4, Inl e)
                    | (s4, Inr _) \<Rightarrow> (s4, Inr True)))"
    using assms unfolding unlockAchievement_def randomUUID_def
    by (simp add: u1 [unfolded f_def] s1_def f_def split: prod.splits sum.splits)
  show ?thesis
    unfolding un aw
    by (simp add: two [symmetric] setUser_other_tables s1_def f_def)
qed

lemma unlockAchievement_users:
  assumes "getUser s userId = Some user"
    and "achievementId \<notin> set (achievements user)"
    and "find (\<lambda>a. ach_id a = achievementId) ACHIEVEMENTS = Some a"
  shows "users (fst (unlockAchievement now s userId achievementId))
         = map (\<lambda>u. if user_id u = userId
                     then u\<lparr>achievements := achievements user @ [achievementId],
                            focusCoins := (if int4 (focusCoins user + ach_reward a)
                                           then focusCoins user + ach_reward a
                                           else focusCoins u)\<rparr>
                     else u) (users s)"
  unfolding unlockAchievement_new [OF assms]
  by (simp add: createNotification_def setUser_def split: prod.splits sum.splits)

lemma unlockAchievement_tables:
  "sessions (fst (unlockAchievement now s userId achievementId)) = sessions s
   \<and> pods (fst (unlockAchievement now s userId achievementId)) = pods s
   \<and> userStats (fst (unlockAchievement now s userId achievementId)) = userStats s"
proof (cases "getUser s userId")
  case None
  then show ?thesis by (simp add: unlockAchievement_no_user)
next
  case (Some user)
  show ?thesis
  proof (cases "achievementId \<in> set (achievements user)")
    case True
    with Some show ?thesis by (simp add: unlockAchievement_already)
  next
    case False
    show ?thesis
    proof (cases "find (\<lambda>a. ach_id a = achievementId) ACHIEVEMENTS")
      case None
      with Some show ?thesis by (simp add: unlockAchievement_unknown)
    next
      case S: (Some a)
      show ?thesis
        unfolding unlockAchievement_new [OF Some False S]
        by (simp add: createNotification_def setUser_def split: prod.splits sum.splits)
    qed
  qed
qed

lemma unlockAchievement_frame: "frame s (fst (unlockAchievement now s userId achievementId))"
proof (cases "getUser s userId")
  case None
  then show ?thesis by (simp add: unlockAchievement_no_user frame_refl)
next
  case (Some user)
  show ?thesis
  proof (cases "achievementId \<in> set (achievements user)")
    case True
    with Some show ?thesis by (simp add: unlockAchievement_already frame_refl)
  next
    case False
    show ?thesis
    proof (cases "find (\<lambda>a. ach_id a = achievementId) ACHIEVEMENTS")
      case None
      with Some show ?thesis by (simp add: unlockAchievement_unknown frame_refl)
    next
      case (Some a)
      have "map counters (users (fst (unlockAchievement now s userId achievementId)))
            = map counters (users s)"
        unfolding unlockAchievement_users [OF \<open>getUser s userId = Some user\<close> False Some]
        by (simp add: counters_def comp_def)
      then show ?thesis by (simp add: frame_def unlockAchievement_tables)
    qed
  qed
qed

lemma unlockAchievement_new_result:
  assumes "getUser s userId = Some user"
    and "achievementId \<notin> set (achievements user)"
    and "find (\<lambda>a. ach_id a = achievementId) ACHIEVEMENTS = Some a"
  shows "snd (unlockAchievement now s userId achievementId)
         = (if \<not> int4 (focusCoins user + ach_reward a)
               \<or> uuids s (drawn s) \<in> set (map notif_id (notifications s))
               \<or> \<not> varchar 36 (uuids s (drawn s))
            then Inl StoreError else Inr True)"
proof -
  have ids: "userId \<in> set (map user_id (users s))" by (rule getUser_in_ids [OF assms(1)])
  show ?thesis
    unfolding unlockAchievement_new [OF assms]
    using ids
    by (simp add: createNotification_def setUser_other_tables setUser_user_ids del: set_map)
qed

lemma unlockAchievement_result:
  assumes "getUser s userId = Some user"
  shows "snd (unlockAchievement now s userId achievementId) = Inr True
         \<or> snd (unlockAchievement now s userId achievementId) = Inr False
         \<or> snd (unlockAchievement now s userId achievementId) = Inl StoreError"
proof (cases "achievementId \<in> set (achievements user)")
  case True
  with assms show ?thesis by (simp add: unlockAchievement_already)
next
  case False
  show ?thesis
  proof (cases "find (\<lambda>a. ach_id a = achievementId) ACHIEVEMENTS")
    case None
    with assms show ?thesis by (simp add: unlockAchievement_unknown)
  next
    case (Some a)
    show ?thesis unfolding unlockAchievement_new_result [OF assms False Some] by simp
  qed
qed

lemma getUser_after_unlock:
  assumes "getUser s userId = Some user"
    and "achievementId \<notin> set (achievements user)"
    and "find (\<lambda>a. ach_id a = achievementId) ACHIEVEMENTS = Some a"
  shows "getUser (fst (unlockAchievement now s userId achievementId)) v
         = (if v = userId
            then Some (user\<lparr>achievements := achievements user @ [achievementId],
                            focusCoins := credited (focusCoins user) (ach_reward a)\<rparr>)
            else getUser s v)"
proof -
  define f :: "User \<Rightarrow> User" where
    "f = (\<lambda>u. u\<lparr>achievements := achievements user @ [achievementId],
                 focusCoins := (if int4 (focusCoins user + ach_reward a)
                                then focusCoins user + ach_reward a
                                else focusCoins u)\<rparr>)"
  have "getUser (fst (unlockAchievement now s userId achievementId)) v
        = getUser (setUser s userId f) v"
    by (simp add: getUser_def setUser_def unlockAchievement_users [OF assms] f_def)
  also have "\<dots> = (if v = userId then map_option f (getUser s v) else getUser s v)"
    by (rule getUser_setUser) (simp add: f_def)
  finally show ?thesis using assms(1) by (simp add: f_def credited_def)
qed

lemma frame_user_exists:
  "frame s s' \<Longrightarrow> getUser s v \<noteq> None \<Longrightarrow> getUser s' v \<noteq> None"
  using frame_getUser [of s s' v] by (cases "getUser s' v") auto

lemma unlockEach_frame: "frame s (fst (unlockEach now userId as s))"
proof (induction as arbitrary: s)
  case Nil
  show ?case by (simp add: frame_refl)
next
  case (Cons a as)
  obtain s' r where u: "unlockAchievement now s userId (ach_id a) = (s', r)"
    by (cases "unlockAchievement now s userId (ach_id a)")
  have f: "frame s s'" using unlockAchievement_frame [of s now userId "ach_id a"] u by simp
  show ?case
  proof (cases r)
    case (Inl e)
    with u f show ?thesis by simp
  next
    case (Inr b)
    with u have "fst (unlockEach now userId (a # as) s) = fst (unlockEach now userId as s')"
      by simp
    with frame_trans [OF f Cons.IH [of s']] show ?thesis by simp
  qed
qed

lemma unlockAchievement_error:
  assumes "getUser s userId \<noteq> None"
    and "snd (unlockAchievement now s userId achievementId) = Inl e"
  shows "e = StoreError"
proof -
  from assms(1) obtain user where g: "getUser s userId = Some user" by auto
  from unlockAchievement_result [OF g, of now achievementId] assms(2) show ?thesis by auto
qed

lemma unlockEach_error:
  "getUser s userId \<noteq> None \<Longrightarrow> snd (unlockEach now userId as s) = Inl e \<Longrightarrow> e = StoreError"
proof (induction as arbitrary: s)
  case Nil
  then show ?case by simp
next
  case (Cons a as)
  obtain s' r where u: "unlockAchievement now s userId (ach_id a) = (s', r)"
    by (cases "unlockAchievement now s userId (ach_id a)")
  have f: "frame s s'" using unlockAchievement_frame [of s now userId "ach_id a"] u by simp
  have g': "getUser s' userId \<noteq> None" by (rule frame_user_exists [OF f Cons.prems(1)])
  show ?case
  proof (cases r)
    case (Inl e')
    with u Cons.prems(2) have "snd (unlockAchievement now s userId (ach_id a)) = Inl e" by simp
    then show ?thesis by (rule unlockAchievement_error [OF Cons.prems(1)])
  next
    case (Inr b)
    with u Cons.prems(2) have "snd (unlockEach now userId as s') = Inl e" by simp
    then show ?thesis by (rule Cons.IH [OF g'])
  qed
qed

lemma sweep_frame: "frame s (fst (sweep now userId user as s acc))"
proof (induction as arbitrary: s acc)
  case Nil
  show ?case by (simp add: frame_refl)
next
  case (Cons a as)
  obtain s' r where u: "unlockAchievement now s userId (ach_id a) = (s', r)"
    by (cases "unlockAchievement now s userId (ach_id a)")
  have f: "frame s s'" using unlockAchievement_frame [of s now userId "ach_id a"] u by simp
  show ?case
  proof (cases "ach_id a \<notin> set (achievements user) \<and> checkAchievementRequirement s user a")
    case False
    then show ?thesis using Cons.IH [of s acc] by auto
  next
    case True
    show ?thesis
    proof (cases r)
      case (Inl e)
      with u f True show ?thesis by simp
    next
      case (Inr b)
      with u True have "fst (sweep now userId user (a # as) s acc)
            = fst (sweep now userId user as s' (if b then acc @ [ach_id a] else acc))"
        by simp
      with frame_trans [OF f Cons.IH [of s']] show ?thesis by simp
    qed
  qed
qed

lemma sweep_error:
  "getUser s userId \<noteq> None \<Longrightarrow> snd (sweep now userId user as s acc) = Inl e \<Longrightarrow> e = StoreError"
proof (induction as arbitrary: s acc)
  case Nil
  then show ?case by simp
next
  case (Cons a as)
  obtain s' r where u: "unlockAchievement now s userId (ach_id a) = (s', r)"
    by (cases "unlockAchievement now s userId (ach_id a)")
  have f: "frame s s'" using unlockAchievement_frame [of s now userId "ach_id a"] u by simp
  have g': "getUser s' userId \<noteq> None" by (rule frame_user_exists [OF f Cons.prems(1)])
  show ?case
  proof (cases "ach_id a \<notin> set (achievements user) \<and> checkAchievementRequirement s user a")
    case False
    with Cons.prems(2) have "snd (sweep now userId user as s acc) = Inl e"
      by (auto split: if_splits)
    then show ?thesis by (rule Cons.IH [OF Cons.prems(1)])
  next
    case True
    show ?thesis
    proof (cases r)
      case (Inl e')
      with u True Cons.prems(2)
      have "snd (unlockAchievement now s userId (ach_id a)) = Inl e" by simp
      then show ?thesis by (rule unlockAchievement_error [OF Cons.prems(1)])
    next
      case (Inr b)
      with u True Cons.prems(2)
      have "snd (sweep now userId user as s' (if b then acc @ [ach_id a] else acc)) = Inl e"
        by simp
      then show ?thesis by (rule Cons.IH [OF g'])
    qed
  qed
qed

lemma checkAchievements_frame: "frame s (fst (checkAchievements now s userId))"
  by (simp add: checkAchievements_def frame_refl sweep_frame split: option.splits)

lemma checkAchievements_error:
  "getUser s userId \<noteq> None \<Longrightarrow> snd (checkAchievements now s userId) = Inl e \<Longrightarrow> e = StoreError"
  using sweep_error [of s userId now] by (auto simp: checkAchievements_def)

lemma checkStreakAchievements_frame:
  "frame s (fst (checkStreakAchievements now s userId streak))"
  by (simp add: checkStreakAchievements_def unlockEach_frame)

lemma checkStreakAchievements_error:
  "getUser s userId \<noteq> None \<Longrightarrow> snd (checkStreakAchievements now s userId streak) = Inl e \<Longrightarrow>
   e = StoreError"
  unfolding checkStreakAchievements_def Let_def by (rule unlockEach_error)

section \<open>Evaluation of the example states\<close>

lemmas demo_defs = demoUser_def demoSession_def demoUuids_def demoState_def
lemmas pod_defs = demoUser2_def demoPod_def podState_def

lemmas op_defs = getUser_def updateUser_def setUser_def accepted_def int4_def varchar_def
  getSession_def getUserSessions_def
  createSession_def updateSession_def createNotification_def getUserPods_def toDateString_def
  awardFocusCoins_def unlockAchievement_def checkStreakAchievements_def updateStreak_def
  checkAchievementRequirement_def checkAchievements_def reward_whole_streak
  getUserStats_def db_updateUserStats_def updateUserStats_def isOpen_def
  rateAtLeast90_def truthy_def completeSession_def cancelSession_def
  randomUUID_def ACHIEVEMENTS_def Let_def

section \<open>The reward formula\<close>




section \<open>Unlocking an id outside the catalog\<close>

text \<open>
  C10: for an existing user and an achievementId that does not occur in the ACHIEVEMENTS
  catalog, unlockAchievement returns false without raising an error and leaves the whole
  store as it was: the user's achievements, focusCoins and every other field are unchanged
  and no notification is created.
\<close>

theorem unlockAchievement_unknown_id:
  assumes "getUser s userId = Some user"
    and "achievementId \<notin> set (map ach_id ACHIEVEMENTS)"
  shows "unlockAchievement now s userId achievementId = (s, Inr False)"
proof -
  have "find (\<lambda>a. ach_id a = achievementId) ACHIEVEMENTS = None"
    using assms(2) by (auto simp: find_None_iff)
  with assms(1) show ?thesis by (rule unlockAchievement_unknown)
qed

theorem unlockAchievement_unknown_id_witness:
  "getUser demoState ''u1'' = Some demoUser
   \<and> ''night_owl'' \<notin> set (map ach_id ACHIEVEMENTS)
   \<and> unlockAchievement 1560000 demoState ''u1'' ''night_owl'' = (demoState, Inr False)"
proof -
  have g: "getUser demoState ''u1'' = Some demoUser"
    by (simp add: getUser_def demoState_def demoUser_def)
  have n: "''night_owl'' \<notin> set (map ach_id ACHIEVEMENTS)"
    by (simp add: ACHIEVEMENTS_def)
  from g n unlockAchievement_unknown_id [OF g n, of 1560000] show ?thesis by simp
qed

section \<open>Completing a session\<close>

lemma updateSession_completed:
  assumes "updateSession s sid (\<lambda>x. x\<lparr>completed := True, endTime := E, taskAction := T,
                                       reward := R\<rparr>) = (s', Some u)"
  shows "getSession s' sid = Some u \<and> completed u"
proof -
  define g :: "PomodoroSession \<Rightarrow> PomodoroSession" where "g = (\<lambda>x. if session_id x = sid
                then x\<lparr>completed := True, endTime := E, taskAction := T, reward := R\<rparr> else x)"
  have s': "s' = s\<lparr>sessions := map g (sessions s)\<rparr>"
    using assms unfolding updateSession_def Let_def g_def by simp
  have gs: "getSession s' sid = Some u"
    using assms unfolding updateSession_def Let_def g_def by auto
  then have "find (\<lambda>x. session_id x = sid) (map g (sessions s)) = Some u"
    unfolding getSession_def s' by simp
  from find_SomeD [OF this] have sid: "session_id u = sid" and "u \<in> g ` set (sessions s)"
    by simp_all
  then obtain x where "u = g x" by blast
  with sid have "completed u" unfolding g_def by (cases "session_id x = sid") simp_all
  with gs show ?thesis by simp
qed

lemma completeSession_unfold:
  assumes "getSession s sid = Some session" and "\<not> completed session"
    and "getUser s (session_userId session) = Some user"
  shows "completeSession now s sid ta e
         = (case rewardStep now s session user e of
              (s4, Inl err) \<Rightarrow> (s4, Inl err)
            | (s4, Inr (reward', unlocked)) \<Rightarrow>
                (case updateSession s4 sid
                        (\<lambda>x. x\<lparr>completed := True, endTime := Some now,
                               taskAction := ta, reward := reward'\<rparr>) of
                   (s5, None) \<Rightarrow> (s5, Inl FailedToUpdate)
                 | (s5, Some updated) \<Rightarrow>
                     (s5, Inr \<lparr>res_session = updated, res_reward = reward',
                               res_achievements = unlocked,
                               res_actualMinutes = (now - startTime session) div 60000\<rparr>)))"
  using assms unfolding completeSession_def rewardStep_def Let_def by simp

lemma completeSession_success:
  assumes "completeSession now s sid ta e = (s', Inr r)"
  shows "\<exists>s4. updateSession s4 sid
                 (\<lambda>x. x\<lparr>completed := True, endTime := Some now, taskAction := ta,
                        reward := res_reward r\<rparr>) = (s', Some (res_session r))"
proof (cases "getSession s sid")
  case None
  with assms show ?thesis by (simp add: completeSession_def)
next
  case (Some session)
  show ?thesis
  proof (cases "completed session")
    case True
    with Some assms show ?thesis by (simp add: completeSession_def)
  next
    case False
    show ?thesis
    proof (cases "getUser s (session_userId session)")
      case None
      with Some False assms show ?thesis by (simp add: completeSession_def)
    next
      case U: (Some user)
      from assms show ?thesis
        unfolding completeSession_unfold [OF Some False U]
        by (auto split: prod.splits sum.splits option.splits)
    qed
  qed
qed

text \<open>
  C3: completeSession is idempotent under re-invocation. On a session whose completed flag
  is already true it reports AlreadyCompleted and leaves the whole store (the stored
  session with its reward and endTime, the user's counters and coin balance, the rolling
  stats) exactly as it was; and the store that a successful completeSession leaves is such
  a store for the same session id.
\<close>

theorem completeSession_idempotent:
  "(getSession s sessionId = Some session \<and> completed session \<longrightarrow>
      completeSession now s sessionId taskAction' isEarly = (s, Inl AlreadyCompleted))
   \<and> (snd (completeSession now0 s sessionId taskAction0 isEarly0) = Inr r \<longrightarrow>
      completeSession now (fst (completeSession now0 s sessionId taskAction0 isEarly0))
        sessionId taskAction' isEarly
      = (fst (completeSession now0 s sessionId taskAction0 isEarly0), Inl AlreadyCompleted))"
proof (intro conjI impI)
  assume "getSession s sessionId = Some session \<and> completed session"
  then show "completeSession now s sessionId taskAction' isEarly = (s, Inl AlreadyCompleted)"
    by (simp add: completeSession_def)
next
  let ?s' = "fst (completeSession now0 s sessionId taskAction0 isEarly0)"
  assume "snd (completeSession now0 s sessionId taskAction0 isEarly0) = Inr r"
  then have "completeSession now0 s sessionId taskAction0 isEarly0 = (?s', Inr r)"
    by (metis prod.collapse)
  from completeSession_success [OF this] obtain s4 where
    "updateSession s4 sessionId
       (\<lambda>x. x\<lparr>completed := True, endTime := Some now0, taskAction := taskAction0,
              reward := res_reward r\<rparr>) = (?s', Some (res_session r))" ..
  from updateSession_completed [OF this]
  have "getSession ?s' sessionId = Some (res_session r)" and "completed (res_session r)"
    by simp_all
  then show "completeSession now ?s' sessionId taskAction' isEarly = (?s', Inl AlreadyCompleted)"
    by (simp add: completeSession_def)
qed

lemma demo_first_completion:
  "snd (completeSession 1560000 demoState ''s1'' None False)
   = Inr \<lparr>res_session = demoSession\<lparr>completed := True, endTime := Some 1560000, reward := 1\<rparr>,
          res_reward = 1, res_achievements = [''first_focus'', ''focus_streak_3''],
          res_actualMinutes = 26\<rparr>"
  by (simp add: demo_defs op_defs)

theorem completeSession_idempotent_witness:
  "getSession doneState ''s1''
     = Some (demoSession\<lparr>completed := True, endTime := Some 1560000, reward := 1\<rparr>)
   \<and> completed (demoSession\<lparr>completed := True, endTime := Some 1560000, reward := 1\<rparr>)
   \<and> completeSession 1800000 doneState ''s1'' (Some TaskCOMPLETED) False
       = (doneState, Inl AlreadyCompleted)
   \<and> snd (completeSession 1560000 demoState ''s1'' None False)
       = Inr \<lparr>res_session = demoSession\<lparr>completed := True, endTime := Some 1560000,
                                          reward := 1\<rparr>,
              res_reward = 1, res_achievements = [''first_focus'', ''focus_streak_3''],
              res_actualMinutes = 26\<rparr>
   \<and> completeSession 1620000 (fst (completeSession 1560000 demoState ''s1'' None False))
         ''s1'' None True
       = (fst (completeSession 1560000 demoState ''s1'' None False), Inl AlreadyCompleted)"
proof -
  have g: "getSession doneState ''s1''
           = Some (demoSession\<lparr>completed := True, endTime := Some 1560000, reward := 1\<rparr>)"
    unfolding doneState_def by (simp add: demo_defs op_defs)
  have c: "completed (demoSession\<lparr>completed := True, endTime := Some 1560000, reward := 1\<rparr>)"
    by simp
  have again: "completeSession 1800000 doneState ''s1'' (Some TaskCOMPLETED) False
               = (doneState, Inl AlreadyCompleted)"
    using completeSession_idempotent
      [of doneState "''s1''"
          "demoSession\<lparr>completed := True, endTime := Some 1560000, reward := 1\<rparr>"
          1800000 "Some TaskCOMPLETED" False] g c
    by simp
  have twice: "completeSession 1620000 (fst (completeSession 1560000 demoState ''s1'' None False))
                 ''s1'' None True
               = (fst (completeSession 1560000 demoState ''s1'' None False), Inl AlreadyCompleted)"
    using completeSession_idempotent
      [of demoState "''s1''" _ 1620000 None True 1560000 None False]
      demo_first_completion
    by simp
  from g c again demo_first_completion twice show ?thesis by simp
qed

section \<open>Unlocking exactly once\<close>

text \<open>
  What unlockAchievement does for every user and id. An id that is held already leaves
  the store as it was. The id of a catalog achievement that is not held is appended; the
  reward is credited when the new balance is in the range of the \<open>focus_coins\<close> column,
  and otherwise the credit is rejected after the id was written, and the call fails with
  the id stored and the balance as it was. A second call with the same id returns false
  and changes nothing.
\<close>

lemma unlockAchievement_semantics:
  assumes "getUser s userId = Some user"
  shows "(achievementId \<in> set (achievements user) \<longrightarrow>
            unlockAchievement now s userId achievementId = (s, Inr False))
       \<and> (achievementId \<notin> set (achievements user)
            \<and> find (\<lambda>a. ach_id a = achievementId) ACHIEVEMENTS = Some a \<longrightarrow>
            getUser (fst (unlockAchievement now s userId achievementId)) userId
              = Some (user\<lparr>achievements := achievements user @ [achievementId],
                           focusCoins := credited (focusCoins user) (ach_reward a)\<rparr>)
            \<and> snd (unlockAchievement now s userId achievementId)
              = (if \<not> int4 (focusCoins user + ach_reward a)
                    \<or> uuids s (drawn s) \<in> set (map notif_id (notifications s))
                    \<or> \<not> varchar 36 (uuids s (drawn s))
                 then Inl StoreError else Inr True))
       \<and> unlockAchievement now' (fst (unlockAchievement now s userId achievementId))
            userId achievementId
          = (fst (unlockAchievement now s userId achievementId), Inr False)"
proof (intro conjI impI)
  assume "achievementId \<in> set (achievements user)"
  with assms show "unlockAchievement now s userId achievementId = (s, Inr False)"
    by (rule unlockAchievement_already)
next
  assume h: "achievementId \<notin> set (achievements user)
             \<and> find (\<lambda>a. ach_id a = achievementId) ACHIEVEMENTS = Some a"
  then show "getUser (fst (unlockAchievement now s userId achievementId)) userId
        = Some (user\<lparr>achievements := achievements user @ [achievementId],
                     focusCoins := credited (focusCoins user) (ach_reward a)\<rparr>)"
    using getUser_after_unlock [OF assms, of achievementId a now userId] by simp
  from h show "snd (unlockAchievement now s userId achievementId)
        = (if \<not> int4 (focusCoins user + ach_reward a)
              \<or> uuids s (drawn s) \<in> set (map notif_id (notifications s))
              \<or> \<not> varchar 36 (uuids s (drawn s))
           then Inl StoreError else Inr True)"
    using unlockAchievement_new_result [OF assms, of achievementId a now] by simp
next
  let ?s' = "fst (unlockAchievement now s userId achievementId)"
  show "unlockAchievement now' ?s' userId achievementId = (?s', Inr False)"
  proof (cases "achievementId \<in> set (achievements user)")
    case True
    with assms have "unlockAchievement now s userId achievementId = (s, Inr False)"
      by (rule unlockAchievement_already)
    then have "?s' = s" by simp
    with assms True show ?thesis by (simp add: unlockAchievement_already)
  next
    case False
    show ?thesis
    proof (cases "find (\<lambda>a. ach_id a = achievementId) ACHIEVEMENTS")
      case None
      with assms have "unlockAchievement now s userId achievementId = (s, Inr False)"
        by (rule unlockAchievement_unknown)
      then have "?s' = s" by simp
      with assms None show ?thesis by (simp add: unlockAchievement_unknown)
    next
      case (Some b)
      have "getUser ?s' userId
            = Some (user\<lparr>achievements := achievements user @ [achievementId],
                         focusCoins := credited (focusCoins user) (ach_reward b)\<rparr>)"
        using getUser_after_unlock [OF assms False Some, of now userId] by simp
      then show ?thesis by (rule unlockAchievement_already) simp
    qed
  qed
qed

text \<open>
  C7 on the code: unlockAchievement writes the id, then credits the reward with a second
  statement. For a user with 2147483645 coins who does not hold first_focus (reward 5) the
  id is appended, the credit of 2147483650 is rejected by the INTEGER column and the call
  fails: the id is stored, the balance is as it was and no notification is created. The
  repeated call finds the id and returns false, so the reward is never granted. (For the
  same user with no coins the id is appended, 5 coins are credited, the call returns true
  and the repeated call returns false.)
\<close>

theorem unlock_stores_id_without_reward:
  "getUser richState ''u1'' = Some (demoUser\<lparr>focusCoins := 2147483645\<rparr>)
   \<and> achievements (demoUser\<lparr>focusCoins := 2147483645\<rparr>) = []
   \<and> find (\<lambda>a. ach_id a = ''first_focus'') ACHIEVEMENTS = Some firstFocus
   \<and> ach_reward firstFocus = 5
   \<and> snd (unlockAchievement 1560000 richState ''u1'' ''first_focus'') = Inl StoreError
   \<and> getUser (fst (unlockAchievement 1560000 richState ''u1'' ''first_focus'')) ''u1''
       = Some (demoUser\<lparr>focusCoins := 2147483645, achievements := [''first_focus'']\<rparr>)
   \<and> notifications (fst (unlockAchievement 1560000 richState ''u1'' ''first_focus'')) = []
   \<and> unlockAchievement 1800000
         (fst (unlockAchievement 1560000 richState ''u1'' ''first_focus'')) ''u1'' ''first_focus''
       = (fst (unlockAchievement 1560000 richState ''u1'' ''first_focus''), Inr False)
   \<and> getUser demoState ''u1'' = Some demoUser
   \<and> snd (unlockAchievement 1560000 demoState ''u1'' ''first_focus'') = Inr True
   \<and> getUser (fst (unlockAchievement 1560000 demoState ''u1'' ''first_focus'')) ''u1''
       = Some (demoUser\<lparr>focusCoins := 5, achievements := [''first_focus'']\<rparr>)
   \<and> unlockAchievement 1800000
         (fst (unlockAchievement 1560000 demoState ''u1'' ''first_focus'')) ''u1'' ''first_focus''
       = (fst (unlockAchievement 1560000 demoState ''u1'' ''first_focus''), Inr False)"
  by (simp add: richState_def firstFocus_def demo_defs op_defs)

section \<open>Open sessions\<close>

lemma frame_sessions: "frame s s' \<Longrightarrow> sessions s' = sessions s"
  by (simp add: frame_def)

lemma fst_case_error:
  "fst (case p of (s2, Inl e) \<Rightarrow> (s2, Inl e) | (s2, Inr v) \<Rightarrow> (s2, h v)) = fst p"
  by (cases p; cases "snd p") auto

lemma updateUser_streak:
  "updateUser s uid (\<lambda>u. u\<lparr>currentStreak := c, bestStreak := b, lastActiveDate := t\<rparr>)
   = (setUser s uid (\<lambda>u. u\<lparr>currentStreak := c, bestStreak := b, lastActiveDate := t\<rparr>), Inr ())"
  by (rule updateUser_free) (simp add: accepted_def)

lemma updateStreak_sessions: "sessions (fst (updateStreak now s userId)) = sessions s"
proof (cases "getUser s userId")
  case None
  then show ?thesis by (simp add: updateStreak_def)
next
  case (Some user)
  have "sessions (fst (checkStreakAchievements now (setUser s userId f) userId n)) = sessions s"
    for f n
    using frame_sessions [OF checkStreakAchievements_frame [of "setUser s userId f" now userId n]]
    by (simp add: setUser_other_tables)
  with Some show ?thesis
    by (simp add: updateStreak_def Let_def updateUser_streak fst_case_error)
qed

lemma updateUserStats_other_tables:
  "sessions (fst (updateUserStats s uid m c)) = sessions s"
  "pods (fst (updateUserStats s uid m c)) = pods s"
  "users (fst (updateUserStats s uid m c)) = users s"
  "notifications (fst (updateUserStats s uid m c)) = notifications s"
  by (simp_all add: updateUserStats_def db_updateUserStats_def Let_def split: option.splits)

lemma find_None_filter: "find P xs = None \<Longrightarrow> filter P xs = []"
  by (induction xs) (auto split: if_splits)

lemma find_Some_filter: "find P xs = Some x \<Longrightarrow> filter P xs \<noteq> []"
  by (induction xs) (auto split: if_splits)

lemma startSession_sessions:
  "sessions (fst (startSession now s userId d p)) = sessions s
   \<or> (openSessions s userId = []
       \<and> (\<exists>x. session_userId x = userId
                \<and> sessions (fst (startSession now s userId d p)) = sessions s @ [x]))"
proof (cases "find isOpen (getUserSessions s userId)")
  case (Some a)
  then show ?thesis by (simp add: startSession_def)
next
  case None
  then have op: "openSessions s userId = []" by (simp add: openSessions_def find_None_filter)
  show ?thesis
  proof (cases "getUser s userId")
    case N: None
    with None show ?thesis by (simp add: startSession_def)
  next
    case (Some user)
    define x :: PomodoroSession where
      "x = \<lparr>session_id = uuids s (drawn s), session_userId = userId, duration = d,
             startTime = now, endTime = None, completed = False, taskAction = None,
             podId = p, reward = 0\<rparr>"
    define s0 where "s0 = s\<lparr>drawn := drawn s + 1\<rparr>"
    have st: "startSession now s userId d p
              = (case createSession s0 x of
                   (s1, Inl e) \<Rightarrow> (s1, Inl e)
                 | (s1, Inr _) \<Rightarrow>
                     (case updateStreak now s1 userId of
                        (s2, Inl e) \<Rightarrow> (s2, Inl e)
                      | (s2, Inr _) \<Rightarrow> (s2, Inr x)))"
      using None Some unfolding startSession_def randomUUID_def Let_def x_def s0_def by simp
    show ?thesis
    proof (cases "snd (createSession s0 x)")
      case (Inl e)
      then have "createSession s0 x = (s0, Inl e)"
        by (auto simp: createSession_def split: if_splits)
      with st show ?thesis by (simp add: s0_def)
    next
      case (Inr y)
      then have c: "createSession s0 x = (s0\<lparr>sessions := sessions s0 @ [x]\<rparr>, Inr y)"
        by (auto simp: createSession_def split: if_splits)
      have "sessions (fst (startSession now s userId d p))
            = sessions (fst (updateStreak now (s0\<lparr>sessions := sessions s0 @ [x]\<rparr>) userId))"
        unfolding st c by (simp split: prod.splits sum.splits)
      also have "\<dots> = sessions s @ [x]" by (simp add: updateStreak_sessions s0_def)
      finally show ?thesis using op by (auto simp: x_def)
    qed
  qed
qed

lemma rewardStep_sessions:
  "sessions (fst (rewardStep now s session user e)) = sessions s"
proof -
  define uid where "uid = session_userId session"
  define m where "m = (now - startTime session) div 60000"
  have aux: "sessions (fst (case updateUserStats s1 uid m c of
                         (s2, Inl e) \<Rightarrow> (s2, Inl e)
                       | (s2, Inr _) \<Rightarrow>
                           (case checkAchievements now s2 uid of
                              (s3, Inl e) \<Rightarrow> (s3, Inl e)
                            | (s3, Inr unlocked) \<Rightarrow> (s3, Inr (r, unlocked))))) = sessions s1"
    for s1 c and r :: int
  proof (cases "updateUserStats s1 uid m c")
    case (Pair s2 res)
    then have s2: "sessions s2 = sessions s1"
      using updateUserStats_other_tables(1) [of s1 uid m c] by simp
    show ?thesis
    proof (cases res)
      case (Inl err)
      with Pair s2 show ?thesis by simp
    next
      case (Inr u)
      have "sessions (fst (checkAchievements now s2 uid)) = sessions s2"
        by (rule frame_sessions [OF checkAchievements_frame])
      with Pair Inr s2 show ?thesis by (simp add: fst_case_error)
    qed
  qed
  show ?thesis
  proof (cases "rateAtLeast90 m (duration session) \<or> \<not> e")
    case True
    show ?thesis
    proof (cases "wholeNumber (calculatePomodoroReward (Fin 1) (ofInt (currentStreak user))
                                 (truthy (podId session)))")
      case None
      with True show ?thesis by (simp add: rewardStep_def Let_def m_def)
    next
      case (Some r)
      define f :: "User \<Rightarrow> User" where
        "f = (\<lambda>u. u\<lparr>totalPomodoros := totalPomodoros user + 1,
                     totalFocusMinutes := totalFocusMinutes user + m,
                     focusCoins := focusCoins user + r\<rparr>)"
      have rs: "rewardStep now s session user e
                = (case updateUser s uid f of
                     (s1, Inl err) \<Rightarrow> (s1, Inl err)
                   | (s1, Inr _) \<Rightarrow>
                       (case updateUserStats s1 uid m r of
                          (s2, Inl err) \<Rightarrow> (s2, Inl err)
                        | (s2, Inr _) \<Rightarrow>
                            (case checkAchievements now s2 uid of
                               (s3, Inl err) \<Rightarrow> (s3, Inl err)
                             | (s3, Inr unlocked) \<Rightarrow> (s3, Inr (r, unlocked)))))"
        using True Some unfolding rewardStep_def Let_def m_def uid_def f_def by simp
      from updateUser_cases [of s uid f] show ?thesis
      proof
        assume "updateUser s uid f = (setUser s uid f, Inr ())"
        then show ?thesis unfolding rs by (simp add: aux setUser_other_tables)
      next
        assume "updateUser s uid f = (s, Inl StoreError)"
        then show ?thesis unfolding rs by simp
      qed
    qed
  next
    case False
    define f :: "User \<Rightarrow> User" where
      "f = (\<lambda>u. u\<lparr>totalFocusMinutes := totalFocusMinutes user + m\<rparr>)"
    have rs: "rewardStep now s session user e
              = (case updateUser s uid f of
                   (s1, Inl err) \<Rightarrow> (s1, Inl err)
                 | (s1, Inr _) \<Rightarrow> (s1, Inr (0, [])))"
      using False unfolding rewardStep_def Let_def m_def uid_def f_def by simp
    from updateUser_cases [of s uid f] show ?thesis
      unfolding rs by (auto simp: setUser_other_tables)
  qed
qed

lemma updateSession_sessions:
  "sessions (fst (updateSession s sid f))
   = map (\<lambda>x. if session_id x = sid then f x else x) (sessions s)"
  by (simp add: updateSession_def Let_def)

lemma completeSession_sessions:
  "sessions (fst (completeSession now s sid ta e)) = sessions s
   \<or> (\<exists>r. sessions (fst (completeSession now s sid ta e))
           = map (\<lambda>x. if session_id x = sid
                       then x\<lparr>completed := True, endTime := Some now,
                              taskAction := ta, reward := r\<rparr>
                       else x) (sessions s))"
proof (cases "getSession s sid")
  case None
  then show ?thesis by (simp add: completeSession_def)
next
  case (Some session)
  show ?thesis
  proof (cases "completed session")
    case True
    with Some show ?thesis by (simp add: completeSession_def)
  next
    case False
    show ?thesis
    proof (cases "getUser s (session_userId session)")
      case None
      with Some False show ?thesis by (simp add: completeSession_def)
    next
      case (Some user)
      note u = completeSession_unfold [OF \<open>getSession s sid = Some session\<close> False Some]
      obtain s4 res where rs: "rewardStep now s session user e = (s4, res)"
        by (cases "rewardStep now s session user e")
      then have s4: "sessions s4 = sessions s"
        using rewardStep_sessions [of now s session user e] by simp
      show ?thesis
      proof (cases res)
        case (Inl err)
        with u rs s4 show ?thesis by simp
      next
        case (Inr ru)
        obtain r un where ru: "ru = (r, un)" by (cases ru)
        let ?f = "\<lambda>x::PomodoroSession. x\<lparr>completed := True, endTime := Some now,
                               taskAction := ta, reward := r\<rparr>"
        have "fst (completeSession now s sid ta e) = fst (updateSession s4 sid ?f)"
          unfolding u rs Inr ru by (simp split: prod.splits option.splits)
        then have "sessions (fst (completeSession now s sid ta e))
                   = map (\<lambda>x. if session_id x = sid then ?f x else x) (sessions s)"
          by (simp add: updateSession_sessions s4)
        then show ?thesis by blast
      qed
    qed
  qed
qed

lemma cancelSession_sessions:
  "sessions (fst (cancelSession now s sid)) = sessions s
   \<or> sessions (fst (cancelSession now s sid))
       = map (\<lambda>x. if session_id x = sid then x\<lparr>completed := False, endTime := Some now\<rparr>
                   else x) (sessions s)"
  by (simp add: cancelSession_def updateSession_sessions split: option.splits)

lemma filter_map_closing:
  assumes "\<And>x. P (g x) \<Longrightarrow> P x"
  shows "length (filter P (map g xs)) \<le> length (filter P xs)"
  using assms by (induction xs) auto

lemma openSessions_alt:
  "openSessions s u = filter (\<lambda>x. session_userId x = u \<and> isOpen x) (sessions s)"
  by (simp add: openSessions_def getUserSessions_def conj_commute)

lemma startSession_keeps:
  assumes "length (openSessions s u) \<le> 1"
  shows "length (openSessions (fst (startSession now s userId duration' podId')) u) \<le> 1"
  using startSession_sessions [of now s userId duration' podId'] assms
  by (auto simp: openSessions_alt)

lemma completeSession_closes:
  "length (openSessions (fst (completeSession now s sessionId taskAction' isEarly)) u)
   \<le> length (openSessions s u)"
  using completeSession_sessions [of now s sessionId taskAction' isEarly]
proof
  assume "sessions (fst (completeSession now s sessionId taskAction' isEarly)) = sessions s"
  then show ?thesis by (simp add: openSessions_alt)
next
  assume "\<exists>r. sessions (fst (completeSession now s sessionId taskAction' isEarly))
         = map (\<lambda>x. if session_id x = sessionId
                     then x\<lparr>completed := True, endTime := Some now,
                            taskAction := taskAction', reward := r\<rparr>
                     else x) (sessions s)"
  then obtain r where "sessions (fst (completeSession now s sessionId taskAction' isEarly))
         = map (\<lambda>x. if session_id x = sessionId
                     then x\<lparr>completed := True, endTime := Some now,
                            taskAction := taskAction', reward := r\<rparr>
                     else x) (sessions s)" ..
  then show ?thesis
    unfolding openSessions_alt
    by (simp only:) (rule filter_map_closing, simp add: isOpen_def split: if_splits)
qed

lemma cancelSession_closes:
  "length (openSessions (fst (cancelSession now s sessionId)) u) \<le> length (openSessions s u)"
  using cancelSession_sessions [of now s sessionId]
proof
  assume "sessions (fst (cancelSession now s sessionId)) = sessions s"
  then show ?thesis by (simp add: openSessions_alt)
next
  assume "sessions (fst (cancelSession now s sessionId))
     = map (\<lambda>x. if session_id x = sessionId then x\<lparr>completed := False, endTime := Some now\<rparr>
                 else x) (sessions s)"
  then show ?thesis
    unfolding openSessions_alt
    by (simp only:) (rule filter_map_closing, simp add: isOpen_def split: if_splits)
qed

lemma reachable_invariant: "reachable s \<Longrightarrow> length (openSessions s u) \<le> 1"
proof (induction rule: reachable.induct)
  case (no_sessions s)
  then show ?case by (simp add: openSessions_alt)
next
  case (other_tables s s')
  then show ?case by (simp add: openSessions_alt)
next
  case (by_start s now userId duration' podId')
  from by_start.IH show ?case by (rule startSession_keeps)
next
  case (by_complete s now sessionId taskAction' isEarly)
  with completeSession_closes [of now s sessionId taskAction' isEarly u] show ?case by simp
next
  case (by_cancel s now sessionId)
  with cancelSession_closes [of now s sessionId u] show ?case by simp
qed

text \<open>
  C1: for every user at most one open session (completed = false and no endTime) exists.
  startSession fails with AlreadyActive, leaving the store as it was, when the user already
  has an open session; startSession, completeSession and cancelSession each preserve, for
  every user, that the user has at most one open session; and so this holds in every store
  that arises from one without sessions by these three operations and by operations that
  do not write the sessions table.
\<close>

theorem at_most_one_open_session:
  "(openSessions s userId \<noteq> [] \<longrightarrow>
      startSession now s userId duration' podId' = (s, Inl AlreadyActive))
   \<and> (length (openSessions s u) \<le> 1 \<longrightarrow>
        length (openSessions (fst (startSession now s userId duration' podId')) u) \<le> 1
        \<and> length (openSessions (fst (completeSession now s sessionId taskAction' isEarly)) u) \<le> 1
        \<and> length (openSessions (fst (cancelSession now s sessionId)) u) \<le> 1)
   \<and> (reachable s \<longrightarrow> length (openSessions s u) \<le> 1)"
proof (intro conjI impI)
  assume "openSessions s userId \<noteq> []"
  then have "find isOpen (getUserSessions s userId) \<noteq> None"
    using find_None_filter [of isOpen "getUserSessions s userId"]
    by (auto simp: openSessions_def)
  then show "startSession now s userId duration' podId' = (s, Inl AlreadyActive)"
    by (simp add: startSession_def)
next
  assume "length (openSessions s u) \<le> 1"
  then show "length (openSessions (fst (startSession now s userId duration' podId')) u) \<le> 1"
    by (rule startSession_keeps)
next
  assume "length (openSessions s u) \<le> 1"
  with completeSession_closes [of now s sessionId taskAction' isEarly u]
  show "length (openSessions (fst (completeSession now s sessionId taskAction' isEarly)) u) \<le> 1"
    by simp
next
  assume "length (openSessions s u) \<le> 1"
  with cancelSession_closes [of now s sessionId u]
  show "length (openSessions (fst (cancelSession now s sessionId)) u) \<le> 1"
    by simp
next
  assume "reachable s"
  then show "length (openSessions s u) \<le> 1" by (rule reachable_invariant)
qed

theorem at_most_one_open_session_witness:
  "openSessions demoState ''u1'' \<noteq> []
   \<and> startSession 1560000 demoState ''u1'' 25 None = (demoState, Inl AlreadyActive)
   \<and> length (openSessions demoState ''u1'') \<le> 1
   \<and> length (openSessions (fst (startSession 1560000 demoState ''u1'' 25 None)) ''u1'') \<le> 1
   \<and> length (openSessions (fst (completeSession 1560000 demoState ''s1'' None False)) ''u1'') \<le> 1
   \<and> length (openSessions (fst (cancelSession 1560000 demoState ''s1'')) ''u1'') \<le> 1
   \<and> length (openSessions doneState ''u1'') \<le> 1
   \<and> snd (startSession 1800000 doneState ''u1'' 25 None)
       = Inr \<lparr>session_id = ''uuid-2'', session_userId = ''u1'', duration = 25,
              startTime = 1800000, endTime = None, completed = False, taskAction = None,
              podId = None, reward = 0\<rparr>
   \<and> length (openSessions (fst (startSession 1800000 doneState ''u1'' 25 None)) ''u1'') \<le> 1
   \<and> reachable (fst (startSession 1800000 podState ''u1'' 25 None))
   \<and> length (openSessions (fst (startSession 1800000 podState ''u1'' 25 None)) ''u1'') \<le> 1"
proof -
  have o: "openSessions demoState ''u1'' = [demoSession]"
    by (simp add: openSessions_def getUserSessions_def isOpen_def demoState_def demoSession_def)
  have running: "startSession 1560000 demoState ''u1'' 25 None = (demoState, Inl AlreadyActive)
     \<and> length (openSessions (fst (startSession 1560000 demoState ''u1'' 25 None)) ''u1'') \<le> 1
     \<and> length (openSessions (fst (completeSession 1560000 demoState ''s1'' None False)) ''u1'') \<le> 1
     \<and> length (openSessions (fst (cancelSession 1560000 demoState ''s1'')) ''u1'') \<le> 1"
    using at_most_one_open_session
      [of demoState "''u1''" 1560000 25 None "''u1''" "''s1''" None False] o
    by simp
  have d: "openSessions doneState ''u1'' = []"
    by (simp add: openSessions_def doneState_def demo_defs op_defs)
  have started: "snd (startSession 1800000 doneState ''u1'' 25 None)
       = Inr \<lparr>session_id = ''uuid-2'', session_userId = ''u1'', duration = 25,
              startTime = 1800000, endTime = None, completed = False, taskAction = None,
              podId = None, reward = 0\<rparr>"
    by (simp add: startSession_def doneState_def demo_defs op_defs)
  have fresh: "length (openSessions (fst (startSession 1800000 doneState ''u1'' 25 None)) ''u1'')
               \<le> 1"
    using at_most_one_open_session
      [of doneState "''u1''" 1800000 25 None "''u1''" "''s1''" None False] d
    by simp
  have "sessions podState = []" by (simp add: podState_def)
  then have "reachable podState" by (rule reachable.no_sessions)
  then have r: "reachable (fst (startSession 1800000 podState ''u1'' 25 None))"
    by (rule reachable.by_start)
  have reached: "length (openSessions (fst (startSession 1800000 podState ''u1'' 25 None)) ''u1'')
                 \<le> 1"
    using at_most_one_open_session
      [of "fst (startSession 1800000 podState ''u1'' 25 None)" _ _ _ _ "''u1''"] r
    by simp
  from o running d started fresh r reached show ?thesis by simp
qed

section \<open>The reward policy of completeSession\<close>

lemma find_map_session:
  assumes "\<And>x. session_id (f x) = session_id x"
  shows "find (\<lambda>x. session_id x = v) (map (\<lambda>x. if session_id x = sid then f x else x) xs)
         = (if v = sid then map_option f (find (\<lambda>x. session_id x = v) xs)
            else find (\<lambda>x. session_id x = v) xs)"
  using assms by (induction xs) auto

lemma updateSession_found:
  assumes "getSession s sid = Some x" and "\<And>y. session_id (f y) = session_id y"
  shows "updateSession s sid f
         = (s\<lparr>sessions := map (\<lambda>y. if session_id y = sid then f y else y) (sessions s)\<rparr>,
            Some (f x))"
  using assms(1) find_map_session [of f sid sid "sessions s", OF assms(2)]
  by (simp add: updateSession_def getSession_def Let_def)

lemma updateUserStats_result:
  "snd (updateUserStats s uid m c) = Inr () \<or> snd (updateUserStats s uid m c) = Inl StoreError"
  by (simp add: updateUserStats_def db_updateUserStats_def Let_def)

text \<open>The reward of a session for a whole streak that is not negative: 1 or 2 coins.\<close>

lemma reward_value:
  assumes "0 \<le> n" and "n \<le> 2147483647"
  shows "wholeNumber (calculatePomodoroReward (Fin 1) (ofInt n) inPod)
         = Some (if 15 \<le> n \<or> inPod then 2 else 1)"
  by (simp add: reward_whole_streak [OF assms])

lemma rewardStep_not_rewarded:
  assumes "\<not> (rateAtLeast90 ((now - startTime session) div 60000) (duration session) \<or> \<not> e)"
  shows "rewardStep now s session user e
         = (case updateUser s (session_userId session)
                   (\<lambda>u. u\<lparr>totalFocusMinutes :=
                             totalFocusMinutes user + (now - startTime session) div 60000\<rparr>) of
              (s1, Inl err) \<Rightarrow> (s1, Inl err)
            | (s1, Inr _) \<Rightarrow> (s1, Inr (0, [])))"
  using assms by (simp add: rewardStep_def Let_def)

lemma catalog_rewards_nonneg: "a \<in> set ACHIEVEMENTS \<Longrightarrow> 0 \<le> ach_reward a"
  using catalog_rewards_pos [of a] by simp

lemma unlockAchievement_coins:
  assumes "getUser s u = Some user"
  shows "\<exists>user'. getUser (fst (unlockAchievement now s u aid)) u = Some user'
           \<and> focusCoins user \<le> focusCoins user'"
proof (cases "aid \<in> set (achievements user)")
  case True
  with assms show ?thesis by (simp add: unlockAchievement_already)
next
  case False
  show ?thesis
  proof (cases "find (\<lambda>a. ach_id a = aid) ACHIEVEMENTS")
    case None
    with assms show ?thesis by (simp add: unlockAchievement_unknown)
  next
    case (Some a)
    from find_SomeD [OF Some] have "0 \<le> ach_reward a" by (simp add: catalog_rewards_nonneg)
    with getUser_after_unlock [OF assms False Some, of now u] show ?thesis
      by (simp add: credited_def)
  qed
qed

lemma sweep_coins:
  assumes "getUser s u = Some cur"
  shows "\<exists>user'. getUser (fst (sweep now u snap as s acc)) u = Some user'
           \<and> focusCoins cur \<le> focusCoins user'"
  using assms
proof (induction as arbitrary: s cur acc)
  case Nil
  then show ?case by simp
next
  case (Cons a as)
  show ?case
  proof (cases "ach_id a \<notin> set (achievements snap) \<and> checkAchievementRequirement s snap a")
    case False
    then have "sweep now u snap (a # as) s acc = sweep now u snap as s acc"
      by (auto split: if_splits)
    with Cons.IH [OF Cons.prems, of acc] show ?thesis by simp
  next
    case True
    obtain s' r where un: "unlockAchievement now s u (ach_id a) = (s', r)"
      by (cases "unlockAchievement now s u (ach_id a)")
    from unlockAchievement_coins [OF Cons.prems, of now "ach_id a"] un
    obtain user1 where g1: "getUser s' u = Some user1"
      and c1: "focusCoins cur \<le> focusCoins user1"
      by auto
    show ?thesis
    proof (cases r)
      case (Inl e)
      with un True g1 c1 show ?thesis by simp
    next
      case (Inr b)
      with un True have st: "sweep now u snap (a # as) s acc
            = sweep now u snap as s' (if b then acc @ [ach_id a] else acc)" by simp
      from Cons.IH [OF g1, of "if b then acc @ [ach_id a] else acc"] c1
      show ?thesis unfolding st by auto
    qed
  qed
qed

lemma checkAchievements_coins:
  assumes "getUser s u = Some cur"
  shows "\<exists>user'. getUser (fst (checkAchievements now s u)) u = Some user'
           \<and> focusCoins cur \<le> focusCoins user'"
  using assms sweep_coins [OF assms, of now cur ACHIEVEMENTS "[]"]
  by (simp add: checkAchievements_def)

lemma rewardStep_rewarded:
  assumes c: "rateAtLeast90 ((now - startTime session) div 60000) (duration session) \<or> \<not> e"
    and g: "getUser s (session_userId session) = Some user"
    and st: "0 \<le> currentStreak user" "currentStreak user \<le> 2147483647"
    and ok: "snd (rewardStep now s session user e) \<noteq> Inl StoreError"
  defines "r \<equiv> (if 15 \<le> currentStreak user \<or> truthy (podId session) then 2 else 1 :: int)"
  shows "\<exists>unlocked user'.
           snd (rewardStep now s session user e) = Inr (r, unlocked)
           \<and> getUser (fst (rewardStep now s session user e)) (session_userId session)
             = Some user'
           \<and> counters user'
             = counters (user\<lparr>totalPomodoros := totalPomodoros user + 1,
                               totalFocusMinutes := totalFocusMinutes user
                                  + (now - startTime session) div 60000\<rparr>)
           \<and> focusCoins user + r \<le> focusCoins user'"
proof -
  define uid where "uid = session_userId session"
  define m where "m = (now - startTime session) div 60000"
  define f :: "User \<Rightarrow> User" where
    "f = (\<lambda>u. u\<lparr>totalPomodoros := totalPomodoros user + 1,
                  totalFocusMinutes := totalFocusMinutes user + m,
                  focusCoins := focusCoins user + r\<rparr>)"
  have w: "wholeNumber (calculatePomodoroReward (Fin 1) (ofInt (currentStreak user))
                          (truthy (podId session))) = Some r"
    unfolding r_def by (rule reward_value [OF st])
  have rs: "rewardStep now s session user e
            = (case updateUser s uid f of
                 (s1, Inl err) \<Rightarrow> (s1, Inl err)
               | (s1, Inr _) \<Rightarrow>
                   (case updateUserStats s1 uid m r of
                      (s2, Inl err) \<Rightarrow> (s2, Inl err)
                    | (s2, Inr _) \<Rightarrow>
                        (case checkAchievements now s2 uid of
                           (s3, Inl err) \<Rightarrow> (s3, Inl err)
                         | (s3, Inr unlocked) \<Rightarrow> (s3, Inr (r, unlocked)))))"
    using c unfolding rewardStep_def Let_def w f_def m_def uid_def by simp
  define s1 where "s1 = setUser s uid f"
  have u1: "updateUser s uid f = (s1, Inr ())"
  proof (rule ccontr)
    assume "updateUser s uid f \<noteq> (s1, Inr ())"
    with updateUser_cases [of s uid f] have "updateUser s uid f = (s, Inl StoreError)"
      by (simp add: s1_def)
    then have "snd (rewardStep now s session user e) = Inl StoreError" unfolding rs by simp
    with ok show False by simp
  qed
  have g1: "getUser s1 uid = Some (f user)"
    using g unfolding s1_def uid_def by (simp add: getUser_setUser f_def)
  obtain s2 r2 where s2: "updateUserStats s1 uid m r = (s2, r2)"
    by (cases "updateUserStats s1 uid m r")
  have r2: "r2 = Inr ()"
  proof (rule ccontr)
    assume "r2 \<noteq> Inr ()"
    with updateUserStats_result [of s1 uid m r] s2 have "r2 = Inl StoreError" by simp
    then have "snd (rewardStep now s session user e) = Inl StoreError"
      unfolding rs u1 by (simp add: s2)
    with ok show False by simp
  qed
  have u2: "users s2 = users s1"
    using updateUserStats_other_tables(3) [of s1 uid m r] s2 by simp
  then have g2: "getUser s2 uid = Some (f user)" using g1 by (simp add: getUser_def)
  obtain s3 res where s3: "checkAchievements now s2 uid = (s3, res)"
    by (cases "checkAchievements now s2 uid")
  have rs3: "rewardStep now s session user e
             = (case res of Inl err \<Rightarrow> (s3, Inl err) | Inr unlocked \<Rightarrow> (s3, Inr (r, unlocked)))"
    unfolding rs u1 by (simp add: s2 r2 s3)
  have fr: "frame s2 s3" using checkAchievements_frame [of s2 now uid] s3 by simp
  from checkAchievements_coins [OF g2, of now] s3
  obtain user' where g3: "getUser s3 uid = Some user'"
    and coins: "focusCoins (f user) \<le> focusCoins user'"
    by auto
  have cnt: "counters user' = counters (f user)"
    using frame_getUser [OF fr, of uid] g2 g3 by simp
  show ?thesis
  proof (cases res)
    case (Inl err)
    have "err = StoreError"
      using checkAchievements_error [of s2 uid now err] g2 s3 Inl by simp
    with ok rs3 Inl show ?thesis by simp
  next
    case (Inr unlocked)
    with rs3 have "rewardStep now s session user e = (s3, Inr (r, unlocked))" by simp
    with cnt coins g3 show ?thesis
      unfolding uid_def f_def m_def by (simp add: counters_def)
  qed
qed

lemma getUser_sessions_update: "getUser (s\<lparr>sessions := xs\<rparr>) v = getUser s v"
  by (simp add: getUser_def)

text \<open>
  C2: completeSession grants a positive reward and increments the user's totalPomodoros if
  and only if completionRate = actualMinutes / duration is at least 0.9 or the call is not
  flagged as early; in the other case (flagged early, rate below 0.9) the reward is 0 and
  totalPomodoros is unchanged, and totalFocusMinutes still increases by the elapsed minutes.
  A session with duration 0 reaches the rate when the elapsed minutes are positive (the
  quotient is Infinity then, and NaN or -Infinity otherwise). A granted reward is the value
  of calculatePomodoroReward(1, streak, inPod) and is credited to the coin balance (next to
  the rewards of the achievements the call unlocks); without a reward the balance stays as
  it was. The session is one that is stored and not completed, its user exists with a
  streak from 0 to 2147483647, and the store rejects none of the call's statements: it
  rejects a counter that leaves the range of its INTEGER column and a notification id that
  is taken or too long, and \<open>completeSession_accepted\<close> below gives conditions on
  the store under which it rejects none.
\<close>

theorem completeSession_reward_policy:
  fixes session :: PomodoroSession and isEarly :: bool
  defines "qualifies \<equiv>
             (\<lambda>actualMinutes.
                (if duration session = 0 then 0 < actualMinutes
                 else 9 / 10 \<le> real_of_int actualMinutes / real_of_int (duration session))
                \<or> \<not> isEarly)"
  assumes gs: "getSession s sessionId = Some session"
    and nc: "\<not> completed session"
    and gu: "getUser s (session_userId session) = Some user"
    and st: "0 \<le> currentStreak user" "currentStreak user \<le> 2147483647"
    and ok: "snd (completeSession now s sessionId taskAction' isEarly) \<noteq> Inl StoreError"
  shows "\<exists>r user'.
      snd (completeSession now s sessionId taskAction' isEarly) = Inr r
    \<and> getUser (fst (completeSession now s sessionId taskAction' isEarly))
          (session_userId session) = Some user'
    \<and> res_actualMinutes r = (now - startTime session) div 60000
    \<and> ((0 < res_reward r \<and> totalPomodoros user' = totalPomodoros user + 1)
        \<longleftrightarrow> qualifies (res_actualMinutes r))
    \<and> (qualifies (res_actualMinutes r) \<longrightarrow>
         calculatePomodoroReward (Fin 1) (ofInt (currentStreak user)) (truthy (podId session))
           = Fin (real_of_int (res_reward r))
         \<and> focusCoins user + res_reward r \<le> focusCoins user')
    \<and> (\<not> qualifies (res_actualMinutes r) \<longrightarrow>
         res_reward r = 0 \<and> totalPomodoros user' = totalPomodoros user
         \<and> focusCoins user' = focusCoins user)
    \<and> totalFocusMinutes user' = totalFocusMinutes user + res_actualMinutes r"
proof -
  define m where "m = (now - startTime session) div 60000"
  define uid where "uid = session_userId session"
  have q: "qualifies m = (rateAtLeast90 m (duration session) \<or> \<not> isEarly)"
    by (simp add: qualifies_def rateAtLeast90_def)
  note u = completeSession_unfold [OF gs nc gu, of now taskAction' isEarly]
  obtain s4 res where rs: "rewardStep now s session user isEarly = (s4, res)"
    by (cases "rewardStep now s session user isEarly")
  have "sessions s4 = sessions s"
    using rewardStep_sessions [of now s session user isEarly] rs by simp
  then have gs4: "getSession s4 sessionId = Some session"
    using gs by (simp add: getSession_def)
  have fin: "completeSession now s sessionId taskAction' isEarly
        = (s4\<lparr>sessions := map (\<lambda>y. if session_id y = sessionId
                                     then y\<lparr>completed := True, endTime := Some now,
                                            taskAction := taskAction', reward := r0\<rparr>
                                     else y) (sessions s4)\<rparr>,
           Inr \<lparr>res_session = session\<lparr>completed := True, endTime := Some now,
                                       taskAction := taskAction', reward := r0\<rparr>,
                 res_reward = r0, res_achievements = un, res_actualMinutes = m\<rparr>)"
    if "res = Inr (r0, un)" for r0 un
    unfolding u rs that m_def
    by (simp add: updateSession_found [OF gs4])
  have nerr: "res \<noteq> Inl StoreError"
  proof
    assume "res = Inl StoreError"
    with u rs have "snd (completeSession now s sessionId taskAction' isEarly) = Inl StoreError"
      by simp
    with ok show False by simp
  qed
  show ?thesis
  proof (cases "rateAtLeast90 m (duration session) \<or> \<not> isEarly")
    case True
    define r1 :: int where
      "r1 = (if 15 \<le> currentStreak user \<or> truthy (podId session) then 2 else 1)"
    have "snd (rewardStep now s session user isEarly) \<noteq> Inl StoreError"
      using rs nerr by simp
    from rewardStep_rewarded [OF True [unfolded m_def] gu st this] rs
    obtain un user' where res: "res = Inr (r1, un)"
      and g4: "getUser s4 (session_userId session) = Some user'"
      and c': "counters user' = counters (user\<lparr>totalPomodoros := totalPomodoros user + 1,
                                        totalFocusMinutes := totalFocusMinutes user + m\<rparr>)"
      and coins: "focusCoins user + r1 \<le> focusCoins user'"
      unfolding m_def r1_def by auto
    from c' have tp: "totalPomodoros user' = totalPomodoros user + 1"
      and tf: "totalFocusMinutes user' = totalFocusMinutes user + m"
      by (simp_all add: counters_def)
    have pos: "0 < r1" by (simp add: r1_def)
    have val: "calculatePomodoroReward (Fin 1) (ofInt (currentStreak user))
                 (truthy (podId session)) = Fin (real_of_int r1)"
      by (simp add: reward_whole_streak [OF st] r1_def)
    show ?thesis
      unfolding fin [OF res]
      using True g4 tp tf pos coins val
      by (simp add: getUser_sessions_update q m_def [symmetric])
  next
    case False
    define f :: "User \<Rightarrow> User" where
      "f = (\<lambda>u. u\<lparr>totalFocusMinutes := totalFocusMinutes user + m\<rparr>)"
    from rewardStep_not_rewarded [OF False [unfolded m_def], of s user] rs
    have rs': "(s4, res) = (case updateUser s (session_userId session) f of
                              (s1, Inl err) \<Rightarrow> (s1, Inl err)
                            | (s1, Inr _) \<Rightarrow> (s1, Inr (0, [])))"
      unfolding m_def f_def by simp
    have "updateUser s (session_userId session) f \<noteq> (s, Inl StoreError)"
    proof
      assume "updateUser s (session_userId session) f = (s, Inl StoreError)"
      with rs' have "res = Inl StoreError" by simp
      with nerr show False by simp
    qed
    with updateUser_cases [of s "session_userId session" f]
    have "updateUser s (session_userId session) f = (setUser s (session_userId session) f, Inr ())"
      by simp
    with rs' have s4: "s4 = setUser s (session_userId session) f" and res: "res = Inr (0, [])"
      by simp_all
    have g4: "getUser s4 (session_userId session)
              = Some (user\<lparr>totalFocusMinutes := totalFocusMinutes user + m\<rparr>)"
      unfolding s4 using gu by (simp add: getUser_setUser f_def)
    show ?thesis
      unfolding fin [OF res]
      using False g4 by (simp add: getUser_sessions_update q m_def [symmetric])
  qed
qed

theorem completeSession_reward_policy_witness:
  "getSession demoState ''s1'' = Some demoSession
   \<and> \<not> completed demoSession
   \<and> getUser demoState (session_userId demoSession) = Some demoUser
   \<and> 0 \<le> currentStreak demoUser \<and> currentStreak demoUser \<le> 2147483647
   \<and> snd (completeSession 300000 demoState ''s1'' None True) \<noteq> Inl StoreError
   \<and> (\<exists>r user'.
        snd (completeSession 300000 demoState ''s1'' None True) = Inr r
      \<and> getUser (fst (completeSession 300000 demoState ''s1'' None True)) ''u1'' = Some user'
      \<and> res_actualMinutes r = 5 \<and> res_reward r = 0
      \<and> totalPomodoros user' = 0 \<and> totalFocusMinutes user' = 5 \<and> focusCoins user' = 0)
   \<and> snd (completeSession 1560000 demoState ''s1'' None False) \<noteq> Inl StoreError
   \<and> (\<exists>r user'.
        snd (completeSession 1560000 demoState ''s1'' None False) = Inr r
      \<and> getUser (fst (completeSession 1560000 demoState ''s1'' None False)) ''u1'' = Some user'
      \<and> res_actualMinutes r = 26 \<and> 0 < res_reward r
      \<and> totalPomodoros user' = 1 \<and> totalFocusMinutes user' = 26)
   \<and> snd (completeSession 1380000 demoState ''s1'' None True) \<noteq> Inl StoreError
   \<and> (\<exists>r user'.
        snd (completeSession 1380000 demoState ''s1'' None True) = Inr r
      \<and> getUser (fst (completeSession 1380000 demoState ''s1'' None True)) ''u1'' = Some user'
      \<and> res_actualMinutes r = 23 \<and> 0 < res_reward r
      \<and> totalPomodoros user' = 1 \<and> totalFocusMinutes user' = 23)
   \<and> snd (completeSession 1320000 demoState ''s1'' None True) \<noteq> Inl StoreError
   \<and> (\<exists>r user'.
        snd (completeSession 1320000 demoState ''s1'' None True) = Inr r
      \<and> getUser (fst (completeSession 1320000 demoState ''s1'' None True)) ''u1'' = Some user'
      \<and> res_actualMinutes r = 22 \<and> res_reward r = 0
      \<and> totalPomodoros user' = 0 \<and> totalFocusMinutes user' = 22)
   \<and> getSession shortState ''s1'' = Some (demoSession\<lparr>duration := 10\<rparr>)
   \<and> snd (completeSession 540000 shortState ''s1'' None True) \<noteq> Inl StoreError
   \<and> (\<exists>r user'.
        snd (completeSession 540000 shortState ''s1'' None True) = Inr r
      \<and> getUser (fst (completeSession 540000 shortState ''s1'' None True)) ''u1'' = Some user'
      \<and> res_actualMinutes r = 9 \<and> 0 < res_reward r
      \<and> totalPomodoros user' = 1 \<and> totalFocusMinutes user' = 9)"
proof -
  have gs: "getSession demoState ''s1'' = Some demoSession"
    by (simp add: getSession_def demoState_def demoSession_def)
  have gs': "getSession shortState ''s1'' = Some (demoSession\<lparr>duration := 10\<rparr>)"
    by (simp add: getSession_def shortState_def demoState_def demoSession_def)
  have nc: "\<not> completed demoSession" by (simp add: demoSession_def)
  have nc': "\<not> completed (demoSession\<lparr>duration := 10\<rparr>)" by (simp add: demoSession_def)
  have gu: "getUser demoState (session_userId demoSession) = Some demoUser"
    by (simp add: getUser_def demoState_def demoSession_def demoUser_def)
  have gu': "getUser shortState (session_userId (demoSession\<lparr>duration := 10\<rparr>)) = Some demoUser"
    by (simp add: getUser_def shortState_def demoState_def demoSession_def demoUser_def)
  have st: "0 \<le> currentStreak demoUser" "currentStreak demoUser \<le> 2147483647"
    by (simp_all add: demoUser_def)
  have ok1: "snd (completeSession 300000 demoState ''s1'' None True) \<noteq> Inl StoreError"
    by (simp add: demo_defs op_defs)
  have ok2: "snd (completeSession 1560000 demoState ''s1'' None False) \<noteq> Inl StoreError"
    by (simp add: demo_first_completion)
  have ok3: "snd (completeSession 1380000 demoState ''s1'' None True) \<noteq> Inl StoreError"
    by (simp add: demo_defs op_defs)
  have ok4: "snd (completeSession 1320000 demoState ''s1'' None True) \<noteq> Inl StoreError"
    by (simp add: demo_defs op_defs)
  have ok5: "snd (completeSession 540000 shortState ''s1'' None True) \<noteq> Inl StoreError"
    by (simp add: shortState_def demo_defs op_defs)
  have v: "session_userId demoSession = ''u1''" "startTime demoSession = 0"
    "duration demoSession = 25" "totalPomodoros demoUser = 0" "totalFocusMinutes demoUser = 0"
    "focusCoins demoUser = 0"
    by (simp_all add: demoSession_def demoUser_def)
  have early: "\<exists>r user'.
        snd (completeSession 300000 demoState ''s1'' None True) = Inr r
      \<and> getUser (fst (completeSession 300000 demoState ''s1'' None True)) ''u1'' = Some user'
      \<and> res_actualMinutes r = 5 \<and> res_reward r = 0
      \<and> totalPomodoros user' = 0 \<and> totalFocusMinutes user' = 5 \<and> focusCoins user' = 0"
    using completeSession_reward_policy [OF gs nc gu st ok1] v by auto
  have full: "\<exists>r user'.
        snd (completeSession 1560000 demoState ''s1'' None False) = Inr r
      \<and> getUser (fst (completeSession 1560000 demoState ''s1'' None False)) ''u1'' = Some user'
      \<and> res_actualMinutes r = 26 \<and> 0 < res_reward r
      \<and> totalPomodoros user' = 1 \<and> totalFocusMinutes user' = 26"
    using completeSession_reward_policy [OF gs nc gu st ok2] v by auto
  have late: "\<exists>r user'.
        snd (completeSession 1380000 demoState ''s1'' None True) = Inr r
      \<and> getUser (fst (completeSession 1380000 demoState ''s1'' None True)) ''u1'' = Some user'
      \<and> res_actualMinutes r = 23 \<and> 0 < res_reward r
      \<and> totalPomodoros user' = 1 \<and> totalFocusMinutes user' = 23"
    using completeSession_reward_policy [OF gs nc gu st ok3] v by auto
  have short: "\<exists>r user'.
        snd (completeSession 1320000 demoState ''s1'' None True) = Inr r
      \<and> getUser (fst (completeSession 1320000 demoState ''s1'' None True)) ''u1'' = Some user'
      \<and> res_actualMinutes r = 22 \<and> res_reward r = 0
      \<and> totalPomodoros user' = 0 \<and> totalFocusMinutes user' = 22"
    using completeSession_reward_policy [OF gs nc gu st ok4] v by auto
  have exact: "\<exists>r user'.
        snd (completeSession 540000 shortState ''s1'' None True) = Inr r
      \<and> getUser (fst (completeSession 540000 shortState ''s1'' None True)) ''u1'' = Some user'
      \<and> res_actualMinutes r = 9 \<and> 0 < res_reward r
      \<and> totalPomodoros user' = 1 \<and> totalFocusMinutes user' = 9"
    using completeSession_reward_policy [OF gs' nc' gu' st ok5] v by auto
  from gs gs' nc gu st ok1 ok2 ok3 ok4 ok5 early full late short exact show ?thesis by simp
qed

section \<open>Streaks\<close>

lemma yesterday_day: "toDateString (now - 24 * 60 * 60 * 1000) = toDateString now - 1"
proof -
  have "(now - 86400000) div 86400000 = now div 86400000 - 1"
    by simp
  then show ?thesis by (simp add: toDateString_def)
qed

lemma updateStreak_same_day:
  assumes "getUser s userId = Some user"
    and "toDateString (lastActiveDate user) = toDateString now"
  shows "updateStreak now s userId = (s, Inr (currentStreak user, bestStreak user))"
  using assms by (simp add: updateStreak_def Let_def)

text \<open>
  On another day: the streak values are written, then the streak achievements are checked
  with the streak that was written.
\<close>

lemma updateStreak_unfold:
  assumes gu: "getUser s userId = Some user"
    and d: "toDateString (lastActiveDate user) \<noteq> toDateString now"
  defines "c \<equiv> (if toDateString (lastActiveDate user) = toDateString now - 1
                 then currentStreak user + 1 else 1)"
  defines "b \<equiv> (if c > bestStreak user then c else bestStreak user)"
  shows "updateStreak now s userId
         = (case checkStreakAchievements now
                   (setUser s userId
                      (\<lambda>u. u\<lparr>currentStreak := c, bestStreak := b, lastActiveDate := now\<rparr>))
                   userId c of
              (s2, Inl e) \<Rightarrow> (s2, Inl e)
            | (s2, Inr _) \<Rightarrow> (s2, Inr (c, b)))"
  unfolding updateStreak_def Let_def yesterday_day updateUser_streak b_def c_def
  using gu d by simp

lemma updateStreak_new_day:
  assumes gu: "getUser s userId = Some user"
    and d: "toDateString (lastActiveDate user) \<noteq> toDateString now"
  defines "c \<equiv> (if toDateString (lastActiveDate user) = toDateString now - 1
                 then currentStreak user + 1 else 1)"
  shows "\<exists>user'. getUser (fst (updateStreak now s userId)) userId = Some user'
           \<and> currentStreak user' = c
           \<and> bestStreak user' = max (bestStreak user) c
           \<and> lastActiveDate user' = now
           \<and> (snd (updateStreak now s userId) = Inr (c, max (bestStreak user) c)
                \<or> snd (updateStreak now s userId) = Inl StoreError)"
proof -
  define b where "b = (if c > bestStreak user then c else bestStreak user)"
  define f :: "User \<Rightarrow> User" where
    "f = (\<lambda>u. u\<lparr>currentStreak := c, bestStreak := b, lastActiveDate := now\<rparr>)"
  define s1 where "s1 = setUser s userId f"
  have bmax: "b = max (bestStreak user) c" by (simp add: b_def max_def)
  have us: "updateStreak now s userId
            = (case checkStreakAchievements now s1 userId c of
                 (s2, Inl e) \<Rightarrow> (s2, Inl e)
               | (s2, Inr _) \<Rightarrow> (s2, Inr (c, b)))"
    unfolding updateStreak_unfold [OF gu d] s1_def f_def b_def c_def by (rule refl)
  have g1: "getUser s1 userId = Some (f user)"
    using gu unfolding s1_def by (simp add: getUser_setUser f_def)
  obtain s2 res where cs: "checkStreakAchievements now s1 userId c = (s2, res)"
    by (cases "checkStreakAchievements now s1 userId c")
  have fr: "frame s1 s2" using checkStreakAchievements_frame [of s1 now userId c] cs by simp
  have "map_option counters (getUser s2 userId) = Some (counters (f user))"
    using frame_getUser [OF fr, of userId] g1 by simp
  then obtain user' where g2: "getUser s2 userId = Some user'"
    and c': "counters user' = counters (f user)"
    by (cases "getUser s2 userId") auto
  from c' have v: "currentStreak user' = c" "bestStreak user' = b" "lastActiveDate user' = now"
    by (simp_all add: counters_def f_def)
  have r: "res = Inr () \<or> res = Inl StoreError"
  proof (cases res)
    case (Inl e)
    then have "e = StoreError"
      using checkStreakAchievements_error [of s1 userId now c e] g1 cs by simp
    with Inl show ?thesis by simp
  next
    case (Inr x)
    then show ?thesis by simp
  qed
  have "fst (updateStreak now s userId) = s2" unfolding us cs by (simp split: sum.splits)
  moreover have "snd (updateStreak now s userId) = Inr (c, b)
                 \<or> snd (updateStreak now s userId) = Inl StoreError"
    using r unfolding us cs by auto
  ultimately show ?thesis using g2 v by (simp add: bmax)
qed

text \<open>
  C5: updateStreak follows the daily-calendar semantics for every user. If lastActiveDate
  is today it is a no-op that returns the current streak values unchanged. Otherwise the
  current streak becomes the old one plus 1 when lastActiveDate is exactly one calendar day
  earlier and 1 for any other day, bestStreak becomes max(previous bestStreak, new
  currentStreak), lastActiveDate is stamped with the present instant, and these are the
  values returned. In every case, for a user whose current streak does not exceed the best
  one, bestStreak afterwards equals max(previous bestStreak, new currentStreak), and the
  current streak still does not exceed it.
\<close>

theorem updateStreak_daily_semantics:
  assumes "getUser s userId = Some user"
  shows "(toDateString (lastActiveDate user) = toDateString now \<longrightarrow>
            updateStreak now s userId = (s, Inr (currentStreak user, bestStreak user)))
       \<and> (toDateString (lastActiveDate user) \<noteq> toDateString now \<longrightarrow>
            (\<exists>user'. getUser (fst (updateStreak now s userId)) userId = Some user'
               \<and> currentStreak user'
                   = (if toDateString (lastActiveDate user) = toDateString now - 1
                      then currentStreak user + 1 else 1)
               \<and> bestStreak user' = max (bestStreak user) (currentStreak user')
               \<and> lastActiveDate user' = now
               \<and> (snd (updateStreak now s userId)
                     = Inr (currentStreak user', bestStreak user')
                    \<or> snd (updateStreak now s userId) = Inl StoreError)))
       \<and> (currentStreak user \<le> bestStreak user \<longrightarrow>
            (\<exists>user'. getUser (fst (updateStreak now s userId)) userId = Some user'
               \<and> bestStreak user' = max (bestStreak user) (currentStreak user')
               \<and> currentStreak user' \<le> bestStreak user'))"
proof (intro conjI impI)
  assume "toDateString (lastActiveDate user) = toDateString now"
  with assms show "updateStreak now s userId = (s, Inr (currentStreak user, bestStreak user))"
    by (rule updateStreak_same_day)
next
  assume "toDateString (lastActiveDate user) \<noteq> toDateString now"
  from updateStreak_new_day [OF assms this]
  show "\<exists>user'. getUser (fst (updateStreak now s userId)) userId = Some user'
               \<and> currentStreak user'
                   = (if toDateString (lastActiveDate user) = toDateString now - 1
                      then currentStreak user + 1 else 1)
               \<and> bestStreak user' = max (bestStreak user) (currentStreak user')
               \<and> lastActiveDate user' = now
               \<and> (snd (updateStreak now s userId)
                     = Inr (currentStreak user', bestStreak user')
                    \<or> snd (updateStreak now s userId) = Inl StoreError)"
    by auto
next
  assume inv: "currentStreak user \<le> bestStreak user"
  show "\<exists>user'. getUser (fst (updateStreak now s userId)) userId = Some user'
               \<and> bestStreak user' = max (bestStreak user) (currentStreak user')
               \<and> currentStreak user' \<le> bestStreak user'"
  proof (cases "toDateString (lastActiveDate user) = toDateString now")
    case True
    from updateStreak_same_day [OF assms True] assms inv show ?thesis by simp
  next
    case False
    from updateStreak_new_day [OF assms False] show ?thesis by auto
  qed
qed

theorem updateStreak_daily_semantics_witness:
  "getUser demoState ''u1'' = Some demoUser
   \<and> updateStreak 1560000 demoState ''u1'' = (demoState, Inr (4, 4))
   \<and> (\<exists>user'. getUser (fst (updateStreak 87960000 demoState ''u1'')) ''u1'' = Some user'
         \<and> currentStreak user' = 5 \<and> bestStreak user' = 5 \<and> lastActiveDate user' = 87960000)
   \<and> (\<exists>user'. getUser (fst (updateStreak 259200000 demoState ''u1'')) ''u1'' = Some user'
         \<and> currentStreak user' = 1 \<and> bestStreak user' = 4 \<and> lastActiveDate user' = 259200000)"
proof -
  have g: "getUser demoState ''u1'' = Some demoUser"
    by (simp add: getUser_def demoState_def demoUser_def)
  have v: "lastActiveDate demoUser = 0" "currentStreak demoUser = 4" "bestStreak demoUser = 4"
    by (simp_all add: demoUser_def)
  have same: "updateStreak 1560000 demoState ''u1'' = (demoState, Inr (4, 4))"
    using updateStreak_daily_semantics [OF g, of 1560000] v by (simp add: toDateString_def)
  have next_day: "\<exists>user'. getUser (fst (updateStreak 87960000 demoState ''u1'')) ''u1'' = Some user'
         \<and> currentStreak user' = 5 \<and> bestStreak user' = 5 \<and> lastActiveDate user' = 87960000"
    using updateStreak_daily_semantics [OF g, of 87960000] v by (auto simp: toDateString_def)
  have gap: "\<exists>user'. getUser (fst (updateStreak 259200000 demoState ''u1'')) ''u1'' = Some user'
         \<and> currentStreak user' = 1 \<and> bestStreak user' = 4 \<and> lastActiveDate user' = 259200000"
    using updateStreak_daily_semantics [OF g, of 259200000] v by (auto simp: toDateString_def)
  from g same next_day gap show ?thesis by simp
qed

section \<open>Streak achievements: exact match and the sweep\<close>

lemma unlockAchievement_achievements:
  assumes "getUser s u = Some user"
  shows "\<exists>user'. getUser (fst (unlockAchievement now s u aid)) u = Some user'
           \<and> set (achievements user) \<subseteq> set (achievements user')
           \<and> set (achievements user') \<subseteq> insert aid (set (achievements user))
           \<and> (find (\<lambda>a. ach_id a = aid) ACHIEVEMENTS \<noteq> None \<longrightarrow>
                aid \<in> set (achievements user'))"
proof (cases "aid \<in> set (achievements user)")
  case True
  with assms show ?thesis by (auto simp: unlockAchievement_already)
next
  case False
  show ?thesis
  proof (cases "find (\<lambda>a. ach_id a = aid) ACHIEVEMENTS")
    case None
    with assms show ?thesis by (auto simp: unlockAchievement_unknown)
  next
    case (Some a)
    from getUser_after_unlock [OF assms False Some, of now u] show ?thesis by auto
  qed
qed

lemma catalog_ids_distinct: "distinct (map ach_id ACHIEVEMENTS)"
  by (simp add: ACHIEVEMENTS_def)

lemma catalog_find:
  assumes "a \<in> set ACHIEVEMENTS"
  shows "find (\<lambda>b. ach_id b = ach_id a) ACHIEVEMENTS \<noteq> None"
  using assms by (auto simp: find_None_iff)

lemma catalog_id_inj:
  assumes "a \<in> set ACHIEVEMENTS" and "b \<in> set ACHIEVEMENTS" and "ach_id a = ach_id b"
  shows "a = b"
  using catalog_ids_distinct assms by (auto simp: distinct_map inj_on_def)

lemma unlockEach_achievements:
  assumes "getUser s u = Some user"
  shows "\<exists>user'. getUser (fst (unlockEach now u as s)) u = Some user'
           \<and> set (achievements user) \<subseteq> set (achievements user')
           \<and> set (achievements user') \<subseteq> set (achievements user) \<union> ach_id ` set as
           \<and> (snd (unlockEach now u as s) = Inr () \<longrightarrow> set as \<subseteq> set ACHIEVEMENTS \<longrightarrow>
                ach_id ` set as \<subseteq> set (achievements user'))"
  using assms
proof (induction as arbitrary: s user)
  case Nil
  then show ?case by simp
next
  case (Cons a as)
  obtain s' r where un: "unlockAchievement now s u (ach_id a) = (s', r)"
    by (cases "unlockAchievement now s u (ach_id a)")
  from unlockAchievement_achievements [OF Cons.prems, of now "ach_id a"] un
  obtain user1 where g1: "getUser s' u = Some user1"
    and lo1: "set (achievements user) \<subseteq> set (achievements user1)"
    and hi1: "set (achievements user1) \<subseteq> insert (ach_id a) (set (achievements user))"
    and in1: "find (\<lambda>b. ach_id b = ach_id a) ACHIEVEMENTS \<noteq> None \<longrightarrow>
              ach_id a \<in> set (achievements user1)"
    by auto
  show ?case
  proof (cases r)
    case (Inl e)
    with un g1 lo1 hi1 show ?thesis by auto
  next
    case (Inr b)
    with un have st: "unlockEach now u (a # as) s = unlockEach now u as s'" by simp
    from Cons.IH [OF g1] obtain user' where
      g': "getUser (fst (unlockEach now u as s')) u = Some user'"
      and lo: "set (achievements user1) \<subseteq> set (achievements user')"
      and hi: "set (achievements user') \<subseteq> set (achievements user1) \<union> ach_id ` set as"
      and al: "snd (unlockEach now u as s') = Inr () \<longrightarrow> set as \<subseteq> set ACHIEVEMENTS \<longrightarrow>
                ach_id ` set as \<subseteq> set (achievements user')"
      by auto
    have "set (a # as) \<subseteq> set ACHIEVEMENTS \<longrightarrow> ach_id a \<in> set (achievements user')"
      using in1 lo catalog_find [of a] by auto
    with g' lo hi al lo1 hi1 show ?thesis unfolding st by auto
  qed
qed

lemma checkAchievementRequirement_streak:
  "req_type (requirement a) = R_streak \<Longrightarrow>
   checkAchievementRequirement s user a = (req_count (requirement a) \<le> currentStreak user)"
  by (simp add: checkAchievementRequirement_def)

lemma sweep_achievements:
  assumes "getUser s u = Some cur" and "set (achievements snap) \<subseteq> set (achievements cur)"
  shows "\<exists>user'. getUser (fst (sweep now u snap as s acc)) u = Some user'
           \<and> set (achievements cur) \<subseteq> set (achievements user')
           \<and> set (achievements user')
               \<subseteq> set (achievements cur) \<union> ach_id ` set (filter (sweepable snap) as)
           \<and> (snd (sweep now u snap as s acc) \<noteq> Inl StoreError \<longrightarrow>
                ach_id ` set (filter (\<lambda>b. b \<in> set ACHIEVEMENTS
                                           \<and> req_type (requirement b) = R_streak
                                           \<and> req_count (requirement b) \<le> currentStreak snap) as)
                \<subseteq> set (achievements user'))"
  using assms
proof (induction as arbitrary: s cur acc)
  case Nil
  then show ?case by simp
next
  case (Cons a as)
  show ?case
  proof (cases "ach_id a \<in> set (achievements snap)")
    case True
    then have st: "sweep now u snap (a # as) s acc = sweep now u snap as s acc" by simp
    from Cons.IH [OF Cons.prems, of acc] obtain user' where
      g': "getUser (fst (sweep now u snap as s acc)) u = Some user'"
      and lo: "set (achievements cur) \<subseteq> set (achievements user')"
      and hi: "set (achievements user')
               \<subseteq> set (achievements cur) \<union> ach_id ` set (filter (sweepable snap) as)"
      and al: "snd (sweep now u snap as s acc) \<noteq> Inl StoreError \<longrightarrow>
                ach_id ` set (filter (\<lambda>b. b \<in> set ACHIEVEMENTS
                                           \<and> req_type (requirement b) = R_streak
                                           \<and> req_count (requirement b) \<le> currentStreak snap) as)
                \<subseteq> set (achievements user')"
      by auto
    have "ach_id a \<in> set (achievements user')" using True Cons.prems(2) lo by auto
    with g' lo hi al show ?thesis unfolding st by auto
  next
    case False
    show ?thesis
    proof (cases "checkAchievementRequirement s snap a")
      case N: False
      with False have st: "sweep now u snap (a # as) s acc = sweep now u snap as s acc" by simp
      from Cons.IH [OF Cons.prems, of acc] obtain user' where
        g': "getUser (fst (sweep now u snap as s acc)) u = Some user'"
        and lo: "set (achievements cur) \<subseteq> set (achievements user')"
        and hi: "set (achievements user')
                 \<subseteq> set (achievements cur) \<union> ach_id ` set (filter (sweepable snap) as)"
        and al: "snd (sweep now u snap as s acc) \<noteq> Inl StoreError \<longrightarrow>
                  ach_id ` set (filter (\<lambda>b. b \<in> set ACHIEVEMENTS
                                             \<and> req_type (requirement b) = R_streak
                                             \<and> req_count (requirement b) \<le> currentStreak snap) as)
                  \<subseteq> set (achievements user')"
        by auto
      have "\<not> (req_type (requirement a) = R_streak
                \<and> req_count (requirement a) \<le> currentStreak snap)"
        using N checkAchievementRequirement_streak [of a s snap] by auto
      with g' lo hi al show ?thesis unfolding st by auto
    next
      case Y: True
      have sw: "sweepable snap a"
        using Y checkAchievementRequirement_streak [of a s snap] by (auto simp: sweepable_def)
      obtain s' r where un: "unlockAchievement now s u (ach_id a) = (s', r)"
        by (cases "unlockAchievement now s u (ach_id a)")
      from unlockAchievement_achievements [OF Cons.prems(1), of now "ach_id a"] un
      obtain user1 where g1: "getUser s' u = Some user1"
        and lo1: "set (achievements cur) \<subseteq> set (achievements user1)"
        and hi1: "set (achievements user1) \<subseteq> insert (ach_id a) (set (achievements cur))"
        and in1: "find (\<lambda>b. ach_id b = ach_id a) ACHIEVEMENTS \<noteq> None \<longrightarrow>
                  ach_id a \<in> set (achievements user1)"
        by auto
      show ?thesis
      proof (cases r)
        case (Inl e)
        have "e = StoreError"
          using unlockAchievement_error [of s u now "ach_id a" e] Cons.prems(1) un Inl by simp
        with Inl un False Y have "sweep now u snap (a # as) s acc = (s', Inl StoreError)"
          by simp
        with g1 lo1 hi1 sw show ?thesis by auto
      next
        case (Inr b)
        with un False Y have st: "sweep now u snap (a # as) s acc
              = sweep now u snap as s' (if b then acc @ [ach_id a] else acc)" by simp
        have sub: "set (achievements snap) \<subseteq> set (achievements user1)"
          using Cons.prems(2) lo1 by auto
        from Cons.IH [OF g1 sub, of "if b then acc @ [ach_id a] else acc"] obtain user' where
          g': "getUser (fst (sweep now u snap as s' (if b then acc @ [ach_id a] else acc))) u
               = Some user'"
          and lo: "set (achievements user1) \<subseteq> set (achievements user')"
          and hi: "set (achievements user')
                   \<subseteq> set (achievements user1) \<union> ach_id ` set (filter (sweepable snap) as)"
          and al: "snd (sweep now u snap as s' (if b then acc @ [ach_id a] else acc))
                     \<noteq> Inl StoreError \<longrightarrow>
                    ach_id ` set (filter (\<lambda>b. b \<in> set ACHIEVEMENTS
                                               \<and> req_type (requirement b) = R_streak
                                               \<and> req_count (requirement b) \<le> currentStreak snap) as)
                    \<subseteq> set (achievements user')"
          by auto
        have "a \<in> set ACHIEVEMENTS \<longrightarrow> ach_id a \<in> set (achievements user')"
          using in1 lo catalog_find [of a] by auto
        with g' lo hi al lo1 hi1 sw show ?thesis unfolding st by auto
      qed
    qed
  qed
qed

text \<open>
  What the check inside updateStreak does to a streak achievement of the catalog, on a day
  other than the user's last active one: \<open>c\<close> is the streak that updateStreak stores.
\<close>

lemma updateStreak_unlocks:
  assumes gu: "getUser s userId = Some user"
    and cat: "a \<in> set ACHIEVEMENTS"
    and ty: "req_type (requirement a) = R_streak"
    and d: "toDateString (lastActiveDate user) \<noteq> toDateString now"
  defines "c \<equiv> (if toDateString (lastActiveDate user) = toDateString now - 1
                 then currentStreak user + 1 else 1)"
  shows "\<exists>user'. getUser (fst (updateStreak now s userId)) userId = Some user'
           \<and> currentStreak user' = c
           \<and> (req_count (requirement a) \<noteq> c \<and> ach_id a \<notin> set (achievements user) \<longrightarrow>
                ach_id a \<notin> set (achievements user'))
           \<and> (req_count (requirement a) = c
                \<and> snd (updateStreak now s userId) \<noteq> Inl StoreError \<longrightarrow>
                ach_id a \<in> set (achievements user'))"
proof -
  define b where "b = (if c > bestStreak user then c else bestStreak user)"
  define f :: "User \<Rightarrow> User" where
    "f = (\<lambda>u. u\<lparr>currentStreak := c, bestStreak := b, lastActiveDate := now\<rparr>)"
  define s1 where "s1 = setUser s userId f"
  define exact where
    "exact = filter (\<lambda>b. req_type (requirement b) = R_streak \<and> req_count (requirement b) = c)
               ACHIEVEMENTS"
  have us: "updateStreak now s userId
            = (case unlockEach now userId exact s1 of
                 (s2, Inl e) \<Rightarrow> (s2, Inl e)
               | (s2, Inr _) \<Rightarrow> (s2, Inr (c, b)))"
    unfolding updateStreak_unfold [OF gu d] checkStreakAchievements_def Let_def
      s1_def f_def b_def c_def exact_def
    by (rule refl)
  have g1: "getUser s1 userId = Some (f user)"
    using gu unfolding s1_def by (simp add: getUser_setUser f_def)
  obtain s2 res where ue: "unlockEach now userId exact s1 = (s2, res)"
    by (cases "unlockEach now userId exact s1")
  from unlockEach_achievements [OF g1, of now exact] ue obtain user' where
    g2: "getUser s2 userId = Some user'"
    and hi: "set (achievements user') \<subseteq> set (achievements (f user)) \<union> ach_id ` set exact"
    and al: "res = Inr () \<longrightarrow> set exact \<subseteq> set ACHIEVEMENTS \<longrightarrow>
               ach_id ` set exact \<subseteq> set (achievements user')"
    by auto
  have fr: "frame s1 s2" using unlockEach_frame [of s1 now userId exact] ue by simp
  have "counters user' = counters (f user)"
    using frame_getUser [OF fr, of userId] g1 g2 by simp
  then have cs: "currentStreak user' = c" by (simp add: counters_def f_def)
  have fs: "fst (updateStreak now s userId) = s2" unfolding us ue by (simp split: sum.splits)
  have p1: "ach_id a \<notin> set (achievements user')"
    if "req_count (requirement a) \<noteq> c" and "ach_id a \<notin> set (achievements user)"
  proof
    assume "ach_id a \<in> set (achievements user')"
    with hi that(2) obtain b' where b': "b' \<in> set exact" and "ach_id b' = ach_id a"
      by (auto simp: f_def)
    then have "b' = a" using catalog_id_inj [of b' a] cat by (auto simp: exact_def)
    with b' that(1) show False by (simp add: exact_def)
  qed
  have p2: "ach_id a \<in> set (achievements user')"
    if "req_count (requirement a) = c" and "snd (updateStreak now s userId) \<noteq> Inl StoreError"
  proof -
    have "res = Inr ()"
    proof (cases res)
      case (Inl e)
      then have "e = StoreError"
        using unlockEach_error [of s1 userId now exact e] g1 ue by simp
      with Inl that(2) show ?thesis unfolding us ue by simp
    next
      case (Inr x)
      then show ?thesis by simp
    qed
    moreover have "a \<in> set exact" using cat ty that(1) by (simp add: exact_def)
    moreover have "set exact \<subseteq> set ACHIEVEMENTS" by (auto simp: exact_def)
    ultimately show ?thesis using al by auto
  qed
  from g2 cs p1 p2 show ?thesis unfolding fs by simp
qed

text \<open>
  C9, as the code has it: updateStreak does not check on the user's last active day; on
  another day the check inside it runs with the streak it has just stored (the old one
  plus 1 after exactly one day, else 1) and unlocks a streak achievement of the catalog
  only on an exact match of its threshold with that streak (and does unlock it then, when
  the call is not rejected by the store). The requirement that the checkAchievements sweep
  evaluates for a streak achievement is that the current streak is at least the threshold:
  a sweep that runs to its end unlocks every streak achievement of the catalog whose
  threshold the current streak has reached or passed, and none whose threshold it has not
  reached.
\<close>

theorem streak_achievement_thresholds:
  fixes user :: User and now :: int
  defines "stored \<equiv> (if toDateString (lastActiveDate user) = toDateString now - 1
                      then currentStreak user + 1 else 1)"
  assumes gu: "getUser s userId = Some user"
    and cat: "a \<in> set ACHIEVEMENTS"
    and ty: "req_type (requirement a) = R_streak"
  shows "(toDateString (lastActiveDate user) = toDateString now \<longrightarrow>
            updateStreak now s userId = (s, Inr (currentStreak user, bestStreak user)))
       \<and> (toDateString (lastActiveDate user) \<noteq> toDateString now \<longrightarrow>
            (\<exists>user'. getUser (fst (updateStreak now s userId)) userId = Some user'
                    \<and> currentStreak user' = stored
                    \<and> (req_count (requirement a) \<noteq> stored
                         \<and> ach_id a \<notin> set (achievements user) \<longrightarrow>
                         ach_id a \<notin> set (achievements user'))
                    \<and> (req_count (requirement a) = stored
                         \<and> snd (updateStreak now s userId) \<noteq> Inl StoreError \<longrightarrow>
                         ach_id a \<in> set (achievements user'))))
       \<and> (req_count (requirement a) \<noteq> streak' \<and> ach_id a \<notin> set (achievements user) \<longrightarrow>
            (\<exists>user'. getUser (fst (checkStreakAchievements now s userId streak')) userId
                        = Some user'
                    \<and> ach_id a \<notin> set (achievements user')))
       \<and> (req_count (requirement a) = streak'
            \<and> snd (checkStreakAchievements now s userId streak') = Inr () \<longrightarrow>
            (\<exists>user'. getUser (fst (checkStreakAchievements now s userId streak')) userId
                        = Some user'
                    \<and> ach_id a \<in> set (achievements user')))
       \<and> checkAchievementRequirement s user a = (req_count (requirement a) \<le> currentStreak user)
       \<and> (req_count (requirement a) \<le> currentStreak user
            \<and> snd (checkAchievements now s userId) \<noteq> Inl StoreError \<longrightarrow>
            (\<exists>user'. getUser (fst (checkAchievements now s userId)) userId = Some user'
                    \<and> ach_id a \<in> set (achievements user')))
       \<and> (currentStreak user < req_count (requirement a)
            \<and> ach_id a \<notin> set (achievements user) \<longrightarrow>
            (\<exists>user'. getUser (fst (checkAchievements now s userId)) userId = Some user'
                    \<and> ach_id a \<notin> set (achievements user')))"
proof -
  have same: "updateStreak now s userId = (s, Inr (currentStreak user, bestStreak user))"
    if "toDateString (lastActiveDate user) = toDateString now"
    using gu that by (rule updateStreak_same_day)
  have other: "\<exists>user'. getUser (fst (updateStreak now s userId)) userId = Some user'
                    \<and> currentStreak user' = stored
                    \<and> (req_count (requirement a) \<noteq> stored
                         \<and> ach_id a \<notin> set (achievements user) \<longrightarrow>
                         ach_id a \<notin> set (achievements user'))
                    \<and> (req_count (requirement a) = stored
                         \<and> snd (updateStreak now s userId) \<noteq> Inl StoreError \<longrightarrow>
                         ach_id a \<in> set (achievements user'))"
    if "toDateString (lastActiveDate user) \<noteq> toDateString now"
    unfolding stored_def by (rule updateStreak_unlocks [OF gu cat ty that])
  define exact where
    "exact = filter (\<lambda>b. req_type (requirement b) = R_streak \<and> req_count (requirement b) = streak')
               ACHIEVEMENTS"
  have cs: "checkStreakAchievements now s userId streak' = unlockEach now userId exact s"
    by (simp add: checkStreakAchievements_def exact_def)
  from unlockEach_achievements [OF gu, of now exact] obtain u1 where
    g1: "getUser (fst (unlockEach now userId exact s)) userId = Some u1"
    and hi1: "set (achievements u1) \<subseteq> set (achievements user) \<union> ach_id ` set exact"
    and al1: "snd (unlockEach now userId exact s) = Inr () \<longrightarrow> set exact \<subseteq> set ACHIEVEMENTS \<longrightarrow>
                ach_id ` set exact \<subseteq> set (achievements u1)"
    by auto
  have p1: "ach_id a \<notin> set (achievements u1)"
    if "req_count (requirement a) \<noteq> streak'" and "ach_id a \<notin> set (achievements user)"
  proof
    assume "ach_id a \<in> set (achievements u1)"
    with hi1 that(2) obtain b where b: "b \<in> set exact" and "ach_id b = ach_id a" by auto
    then have "b = a" using catalog_id_inj [of b a] cat by (auto simp: exact_def)
    with b that(1) show False by (simp add: exact_def)
  qed
  have p2: "ach_id a \<in> set (achievements u1)"
    if "req_count (requirement a) = streak'" and "snd (unlockEach now userId exact s) = Inr ()"
  proof -
    have "a \<in> set exact" using cat ty that(1) by (simp add: exact_def)
    moreover have "set exact \<subseteq> set ACHIEVEMENTS" by (auto simp: exact_def)
    ultimately show ?thesis using al1 that(2) by auto
  qed
  have ca: "checkAchievements now s userId = sweep now userId user ACHIEVEMENTS s []"
    using gu by (simp add: checkAchievements_def)
  from sweep_achievements [OF gu subset_refl, where now = now and as = ACHIEVEMENTS and acc = "[]"] obtain u2 where
    g2: "getUser (fst (sweep now userId user ACHIEVEMENTS s [])) userId = Some u2"
    and hi2: "set (achievements u2)
              \<subseteq> set (achievements user) \<union> ach_id ` set (filter (sweepable user) ACHIEVEMENTS)"
    and al2: "snd (sweep now userId user ACHIEVEMENTS s []) \<noteq> Inl StoreError \<longrightarrow>
                ach_id ` set (filter (\<lambda>b. b \<in> set ACHIEVEMENTS
                                           \<and> req_type (requirement b) = R_streak
                                           \<and> req_count (requirement b) \<le> currentStreak user)
                                ACHIEVEMENTS)
                \<subseteq> set (achievements u2)"
    by auto
  have p4: "ach_id a \<in> set (achievements u2)"
    if "req_count (requirement a) \<le> currentStreak user"
      and "snd (sweep now userId user ACHIEVEMENTS s []) \<noteq> Inl StoreError"
    using al2 that cat ty by auto
  have p5: "ach_id a \<notin> set (achievements u2)"
    if "currentStreak user < req_count (requirement a)" and "ach_id a \<notin> set (achievements user)"
  proof
    assume "ach_id a \<in> set (achievements u2)"
    with hi2 that(2) obtain b where b: "b \<in> set ACHIEVEMENTS" "sweepable user b"
      and "ach_id b = ach_id a" by auto
    then have "b = a" using catalog_id_inj [of b a] cat by auto
    with b ty that(1) show False by (simp add: sweepable_def)
  qed
  have rest: "(req_count (requirement a) \<noteq> streak' \<and> ach_id a \<notin> set (achievements user) \<longrightarrow>
            (\<exists>user'. getUser (fst (checkStreakAchievements now s userId streak')) userId
                        = Some user'
                    \<and> ach_id a \<notin> set (achievements user')))
       \<and> (req_count (requirement a) = streak'
            \<and> snd (checkStreakAchievements now s userId streak') = Inr () \<longrightarrow>
            (\<exists>user'. getUser (fst (checkStreakAchievements now s userId streak')) userId
                        = Some user'
                    \<and> ach_id a \<in> set (achievements user')))
       \<and> checkAchievementRequirement s user a = (req_count (requirement a) \<le> currentStreak user)
       \<and> (req_count (requirement a) \<le> currentStreak user
            \<and> snd (checkAchievements now s userId) \<noteq> Inl StoreError \<longrightarrow>
            (\<exists>user'. getUser (fst (checkAchievements now s userId)) userId = Some user'
                    \<and> ach_id a \<in> set (achievements user')))
       \<and> (currentStreak user < req_count (requirement a)
            \<and> ach_id a \<notin> set (achievements user) \<longrightarrow>
            (\<exists>user'. getUser (fst (checkAchievements now s userId)) userId = Some user'
                    \<and> ach_id a \<notin> set (achievements user')))"
    unfolding cs ca
    using g1 g2 p1 p2 p4 p5 checkAchievementRequirement_streak [OF ty, of s user]
    by auto
  from same other rest show ?thesis by blast
qed

theorem streak_achievement_thresholds_witness:
  "getUser streakState ''u1'' = Some (demoUser\<lparr>currentStreak := 2, bestStreak := 2\<rparr>)
   \<and> getUser demoState ''u1'' = Some demoUser
   \<and> focusStreak3 \<in> set ACHIEVEMENTS
   \<and> req_type (requirement focusStreak3) = R_streak
   \<and> req_count (requirement focusStreak3) = 3
   \<and> toDateString 0 \<noteq> toDateString 87960000
   \<and> snd (updateStreak 87960000 streakState ''u1'') \<noteq> Inl StoreError
   \<and> (\<exists>user'. getUser (fst (updateStreak 87960000 streakState ''u1'')) ''u1'' = Some user'
              \<and> currentStreak user' = 3
              \<and> ''focus_streak_3'' \<in> set (achievements user'))
   \<and> (\<exists>user'. getUser (fst (updateStreak 87960000 demoState ''u1'')) ''u1'' = Some user'
              \<and> currentStreak user' = 5
              \<and> ''focus_streak_3'' \<notin> set (achievements user'))
   \<and> updateStreak 1560000 streakState ''u1'' = (streakState, Inr (2, 2))
   \<and> (\<exists>user'. getUser (fst (checkStreakAchievements 1560000 demoState ''u1'' 4)) ''u1''
                 = Some user'
              \<and> ''focus_streak_3'' \<notin> set (achievements user'))
   \<and> checkAchievementRequirement demoState demoUser focusStreak3
   \<and> snd (checkAchievements 1560000 demoState ''u1'') \<noteq> Inl StoreError
   \<and> (\<exists>user'. getUser (fst (checkAchievements 1560000 demoState ''u1'')) ''u1'' = Some user'
              \<and> ''focus_streak_3'' \<in> set (achievements user'))"
proof -
  have g: "getUser demoState ''u1'' = Some demoUser"
    by (simp add: getUser_def demoState_def demoUser_def)
  have g': "getUser streakState ''u1'' = Some (demoUser\<lparr>currentStreak := 2, bestStreak := 2\<rparr>)"
    by (simp add: getUser_def streakState_def demoState_def demoUser_def)
  have c: "focusStreak3 \<in> set ACHIEVEMENTS" by (simp add: focusStreak3_def ACHIEVEMENTS_def)
  have t: "req_type (requirement focusStreak3) = R_streak" by (simp add: focusStreak3_def)
  have ok: "snd (checkAchievements 1560000 demoState ''u1'') \<noteq> Inl StoreError"
    by (simp add: demo_defs op_defs)
  have ok': "snd (updateStreak 87960000 streakState ''u1'') \<noteq> Inl StoreError"
    by (simp add: streakState_def demo_defs op_defs)
  have days: "toDateString 0 \<noteq> toDateString 87960000" "toDateString 87960000 - 1 = toDateString 0"
    "toDateString 0 = toDateString 1560000"
    by (simp_all add: toDateString_def)
  have v: "ach_id focusStreak3 = ''focus_streak_3''" "req_count (requirement focusStreak3) = 3"
    "currentStreak demoUser = 4" "achievements demoUser = []" "lastActiveDate demoUser = 0"
    "bestStreak demoUser = 4"
    by (simp_all add: focusStreak3_def demoUser_def)
  have hit: "\<exists>user'. getUser (fst (updateStreak 87960000 streakState ''u1'')) ''u1'' = Some user'
              \<and> currentStreak user' = 3
              \<and> ''focus_streak_3'' \<in> set (achievements user')"
    using streak_achievement_thresholds [OF g' c t, of 87960000 4] ok' days v by auto
  have miss: "\<exists>user'. getUser (fst (updateStreak 87960000 demoState ''u1'')) ''u1'' = Some user'
              \<and> currentStreak user' = 5
              \<and> ''focus_streak_3'' \<notin> set (achievements user')"
    using streak_achievement_thresholds [OF g c t, of 87960000 4] days v by auto
  have same: "updateStreak 1560000 streakState ''u1'' = (streakState, Inr (2, 2))"
    using streak_achievement_thresholds [OF g' c t, of 1560000 4] days v by simp
  from streak_achievement_thresholds [OF g c t, of 1560000 4] g g' c t ok ok' days v hit miss same
  show ?thesis by simp
qed

text \<open>
  A user on a four-day streak who holds no achievement: the sweep unlocks the streak
  achievement with threshold 3, although the streak does not equal that threshold.
\<close>

theorem sweep_unlocks_passed_threshold:
  "getUser demoState ''u1'' = Some demoUser
   \<and> currentStreak demoUser = 4
   \<and> achievements demoUser = []
   \<and> focusStreak3 \<in> set ACHIEVEMENTS
   \<and> req_type (requirement focusStreak3) = R_streak
   \<and> req_count (requirement focusStreak3) = 3
   \<and> snd (checkAchievements 1560000 demoState ''u1'') = Inr [''focus_streak_3'']
   \<and> map_option achievements (getUser (fst (checkAchievements 1560000 demoState ''u1'')) ''u1'')
       = Some [''focus_streak_3'']"
  by (simp add: demo_defs op_defs focusStreak3_def)

section \<open>When the store accepts a completion\<close>

lemma unlockAchievement_accepted:
  assumes g: "getUser s userId = Some user"
    and n: "achievementId \<notin> set (achievements user)"
    and f: "find (\<lambda>a. ach_id a = achievementId) ACHIEVEMENTS = Some a"
    and c: "int4 (focusCoins user + ach_reward a)"
    and fresh: "uuids s (drawn s) \<notin> set (map notif_id (notifications s))"
    and len: "varchar 36 (uuids s (drawn s))"
  shows "unlockAchievement now s userId achievementId
         = ((setUser s userId
               (\<lambda>u. u\<lparr>achievements := achievements user @ [achievementId],
                      focusCoins := focusCoins user + ach_reward a\<rparr>))
            \<lparr>drawn := drawn s + 1,
             notifications := notifications s
               @ [\<lparr>notif_id = uuids s (drawn s), notif_userId = userId,
                   notif_type = ACHIEVEMENT_UNLOCKED,
                   message = AchievementUnlockedText (ach_name a) (ach_reward a),
                   sentAt = now, read = False\<rparr>]\<rparr>,
            Inr True)"
proof -
  have ids: "userId \<in> set (map user_id (users s))" by (rule getUser_in_ids [OF g])
  show ?thesis
    unfolding unlockAchievement_new [OF g n f]
    using c fresh len ids
    by (simp add: createNotification_def setUser_other_tables setUser_user_ids del: set_map)
qed

lemma catalog_find_self:
  assumes "a \<in> set ACHIEVEMENTS"
  shows "find (\<lambda>b. ach_id b = ach_id a) ACHIEVEMENTS = Some a"
proof (cases "find (\<lambda>b. ach_id b = ach_id a) ACHIEVEMENTS")
  case None
  with assms show ?thesis by (auto simp: find_None_iff)
next
  case (Some b)
  from find_SomeD [OF Some] have "b \<in> set ACHIEVEMENTS" and "ach_id b = ach_id a" by simp_all
  then have "b = a" using catalog_id_inj [of b a] assms by simp
  with Some show ?thesis by simp
qed

text \<open>
  The sweep is not rejected when the balance has room for the rewards of the achievements
  it goes through and the ids that randomUUID is going to return, one for each of them,
  are new, of 36 characters at most and pairwise distinct.
\<close>

lemma sweep_accepted:
  assumes "getUser s u = Some cur"
    and "set as \<subseteq> set ACHIEVEMENTS"
    and "- 2147483648 \<le> focusCoins cur"
    and "focusCoins cur + sum_list (map ach_reward as) \<le> 2147483647"
    and "\<forall>i<length as. uuids s (drawn s + i) \<notin> set (map notif_id (notifications s))
                         \<and> varchar 36 (uuids s (drawn s + i))"
    and "inj_on (\<lambda>i. uuids s (drawn s + i)) {..<length as}"
  shows "\<exists>unlocked. snd (sweep now u snap as s acc) = Inr unlocked"
  using assms
proof (induction as arbitrary: s cur acc)
  case Nil
  show ?case by simp
next
  case (Cons a as)
  have a: "a \<in> set ACHIEVEMENTS" and sub: "set as \<subseteq> set ACHIEVEMENTS"
    using Cons.prems(2) by simp_all
  have ra: "0 \<le> ach_reward a" by (rule catalog_rewards_nonneg [OF a])
  have rs: "0 \<le> sum_list (map ach_reward as)"
    using sub by (induction as) (auto simp: catalog_rewards_nonneg)
  have coins': "focusCoins cur + sum_list (map ach_reward as) \<le> 2147483647"
    using Cons.prems(4) ra by simp
  have fresh': "\<forall>i<length as. uuids s (drawn s + i) \<notin> set (map notif_id (notifications s))
                              \<and> varchar 36 (uuids s (drawn s + i))"
    using Cons.prems(5) by simp
  have inj': "inj_on (\<lambda>i. uuids s (drawn s + i)) {..<length as}"
    by (rule inj_on_subset [OF Cons.prems(6)]) auto
  note same = Cons.IH [OF Cons.prems(1) sub Cons.prems(3) coins' fresh' inj']
  show ?case
  proof (cases "ach_id a \<notin> set (achievements snap) \<and> checkAchievementRequirement s snap a")
    case False
    then have "sweep now u snap (a # as) s acc = sweep now u snap as s acc"
      by (auto split: if_splits)
    with same [of acc] show ?thesis by simp
  next
    case True
    show ?thesis
    proof (cases "ach_id a \<in> set (achievements cur)")
      case H: True
      have "unlockAchievement now s u (ach_id a) = (s, Inr False)"
        by (rule unlockAchievement_already [OF Cons.prems(1) H])
      with True have "sweep now u snap (a # as) s acc = sweep now u snap as s acc" by simp
      with same [of acc] show ?thesis by simp
    next
      case N: False
      define s' where
        "s' = (setUser s u
                 (\<lambda>x. x\<lparr>achievements := achievements cur @ [ach_id a],
                        focusCoins := focusCoins cur + ach_reward a\<rparr>))
              \<lparr>drawn := drawn s + 1,
               notifications := notifications s
                 @ [\<lparr>notif_id = uuids s (drawn s), notif_userId = u,
                     notif_type = ACHIEVEMENT_UNLOCKED,
                     message = AchievementUnlockedText (ach_name a) (ach_reward a),
                     sentAt = now, read = False\<rparr>]\<rparr>"
      have c: "int4 (focusCoins cur + ach_reward a)"
        using Cons.prems(3,4) ra rs by (simp add: int4_def)
      have f0: "uuids s (drawn s) \<notin> set (map notif_id (notifications s))"
        and l0: "varchar 36 (uuids s (drawn s))"
        using Cons.prems(5) by auto
      have un: "unlockAchievement now s u (ach_id a) = (s', Inr True)"
        unfolding s'_def
        by (rule unlockAchievement_accepted [OF Cons.prems(1) N catalog_find_self [OF a] c f0 l0])
      with True have st: "sweep now u snap (a # as) s acc
                          = sweep now u snap as s' (acc @ [ach_id a])" by simp
      have g': "getUser s' u
                = Some (cur\<lparr>achievements := achievements cur @ [ach_id a],
                            focusCoins := focusCoins cur + ach_reward a\<rparr>)"
        using Cons.prems(1) by (simp add: s'_def getUser_def setUser_def find_map_update)
      have d': "drawn s' = drawn s + 1" and u': "uuids s' = uuids s"
        and n': "set (map notif_id (notifications s'))
                 = insert (uuids s (drawn s)) (set (map notif_id (notifications s)))"
        by (simp_all add: s'_def setUser_def)
      have low: "- 2147483648 \<le> focusCoins cur + ach_reward a" using Cons.prems(3) ra by simp
      have high: "focusCoins cur + ach_reward a + sum_list (map ach_reward as) \<le> 2147483647"
        using Cons.prems(4) by simp
      have fresh2: "\<forall>i<length as. uuids s' (drawn s' + i) \<notin> set (map notif_id (notifications s'))
                                  \<and> varchar 36 (uuids s' (drawn s' + i))"
      proof (intro allI impI)
        fix i assume i: "i < length as"
        then have i1: "Suc i < length (a # as)" by simp
        from Cons.prems(5) i1
        have old: "uuids s (drawn s + Suc i) \<notin> set (map notif_id (notifications s))"
          and len: "varchar 36 (uuids s (drawn s + Suc i))"
          by blast+
        have "uuids s (drawn s + Suc i) \<noteq> uuids s (drawn s + 0)"
        proof
          assume e: "uuids s (drawn s + Suc i) = uuids s (drawn s + 0)"
          have "Suc i = 0" by (rule inj_onD [OF Cons.prems(6) e]) (use i1 in simp_all)
          then show False by simp
        qed
        with old len
        show "uuids s' (drawn s' + i) \<notin> set (map notif_id (notifications s'))
              \<and> varchar 36 (uuids s' (drawn s' + i))"
          unfolding n' d' u' by simp
      qed
      have inj2: "inj_on (\<lambda>i. uuids s' (drawn s' + i)) {..<length as}"
      proof (rule inj_onI)
        fix i j assume i: "i \<in> {..<length as}" and j: "j \<in> {..<length as}"
          and e: "uuids s' (drawn s' + i) = uuids s' (drawn s' + j)"
        from e have e': "uuids s (drawn s + Suc i) = uuids s (drawn s + Suc j)"
          by (simp add: d' u')
        have "Suc i = Suc j" by (rule inj_onD [OF Cons.prems(6) e']) (use i j in simp_all)
        then show "i = j" by simp
      qed
      from Cons.IH [OF g' sub _ _ fresh2 inj2, of "acc @ [ach_id a]"] low high
      show ?thesis unfolding st by simp
    qed
  qed
qed

lemma catalog_rewards_sum: "sum_list (map ach_reward ACHIEVEMENTS) = 235"
  by (simp add: ACHIEVEMENTS_def)

text \<open>
  completeSession is not rejected by the store when the counters it writes stay in the
  range of their columns, the balance has room for the reward and for the rewards of the
  whole catalog, and the next eight ids of randomUUID are new, of 36 characters at most and
  pairwise distinct.
\<close>

lemma completeSession_accepted:
  fixes session :: PomodoroSession and user :: User and now :: int and s :: State
  defines "m \<equiv> (now - startTime session) div 60000"
  defines "stats \<equiv> (case getUserStats s (session_userId session) of
                       Some row \<Rightarrow> row
                     | None \<Rightarrow> \<lparr>stats_userId = session_userId session, weekPomodoros = 0,
                                weekFocusMinutes = 0, weekTasksCompleted = 0,
                                weekFocusCoins = 0, todayPomodoros = 0,
                                todayFocusMinutes = 0\<rparr>)"
  assumes gs: "getSession s sessionId = Some session"
    and nc: "\<not> completed session"
    and gu: "getUser s (session_userId session) = Some user"
    and st: "0 \<le> currentStreak user" "currentStreak user \<le> 2147483647"
    and pom: "int4 (totalPomodoros user + 1)"
    and mins: "int4 (totalFocusMinutes user + m)"
    and coins: "- 2147483648 \<le> focusCoins user" "focusCoins user + 237 \<le> 2147483647"
    and rolling: "int4 (todayPomodoros stats + 1)" "int4 (todayFocusMinutes stats + m)"
      "int4 (weekPomodoros stats + 1)" "int4 (weekFocusMinutes stats + m)"
      "int4 (weekFocusCoins stats + 1)" "int4 (weekFocusCoins stats + 2)"
      "int4 (weekTasksCompleted stats)"
    and fresh: "\<forall>i<8. uuids s (drawn s + i) \<notin> set (map notif_id (notifications s))
                        \<and> varchar 36 (uuids s (drawn s + i))"
    and inj: "inj_on (\<lambda>i. uuids s (drawn s + i)) {..<8}"
  shows "\<exists>r. snd (completeSession now s sessionId taskAction' isEarly) = Inr r"
proof -
  define uid where "uid = session_userId session"
  note u = completeSession_unfold [OF gs nc gu, of now taskAction' isEarly]
  obtain s4 res where rs: "rewardStep now s session user isEarly = (s4, res)"
    by (cases "rewardStep now s session user isEarly")
  have "sessions s4 = sessions s"
    using rewardStep_sessions [of now s session user isEarly] rs by simp
  then have gs4: "getSession s4 sessionId = Some session"
    using gs by (simp add: getSession_def)
  have fin: "\<exists>r. snd (completeSession now s sessionId taskAction' isEarly) = Inr r"
    if "res = Inr (r0, un)" for r0 un
    unfolding u rs that by (simp add: updateSession_found [OF gs4])
  show ?thesis
  proof (cases "rateAtLeast90 m (duration session) \<or> \<not> isEarly")
    case False
    define f :: "User \<Rightarrow> User" where
      "f = (\<lambda>x. x\<lparr>totalFocusMinutes := totalFocusMinutes user + m\<rparr>)"
    have "updateUser s uid f = (setUser s uid f, Inr ())"
      using mins by (simp add: updateUser_def list_all_iff accepted_def f_def)
    with rewardStep_not_rewarded [OF False [unfolded m_def], of s user] rs
    have "res = Inr (0, [])" by (simp add: uid_def f_def m_def)
    then show ?thesis by (rule fin)
  next
    case True
    define r :: int where
      "r = (if 15 \<le> currentStreak user \<or> truthy (podId session) then 2 else 1)"
    define f :: "User \<Rightarrow> User" where
      "f = (\<lambda>x. x\<lparr>totalPomodoros := totalPomodoros user + 1,
                   totalFocusMinutes := totalFocusMinutes user + m,
                   focusCoins := focusCoins user + r\<rparr>)"
    have r12: "1 \<le> r" "r \<le> 2" by (simp_all add: r_def)
    have w: "wholeNumber (calculatePomodoroReward (Fin 1) (ofInt (currentStreak user))
                            (truthy (podId session))) = Some r"
      unfolding r_def by (rule reward_value [OF st])
    have step: "rewardStep now s session user isEarly
              = (case updateUser s uid f of
                   (s1, Inl err) \<Rightarrow> (s1, Inl err)
                 | (s1, Inr _) \<Rightarrow>
                     (case updateUserStats s1 uid m r of
                        (s2, Inl err) \<Rightarrow> (s2, Inl err)
                      | (s2, Inr _) \<Rightarrow>
                          (case checkAchievements now s2 uid of
                             (s3, Inl err) \<Rightarrow> (s3, Inl err)
                           | (s3, Inr unlocked) \<Rightarrow> (s3, Inr (r, unlocked)))))"
      using True unfolding rewardStep_def Let_def w f_def m_def uid_def by simp
    define s1 where "s1 = setUser s uid f"
    have c1: "int4 (focusCoins user + r)" using coins r12 by (simp add: int4_def)
    have u1: "updateUser s uid f = (s1, Inr ())"
      using pom mins c1 by (simp add: updateUser_def list_all_iff accepted_def f_def s1_def)
    have g1: "getUser s1 uid = Some (f user)"
      using gu unfolding s1_def uid_def by (simp add: getUser_setUser f_def)
    have ids: "uid \<in> set (map user_id (users s1))" by (rule getUser_in_ids [OF g1])
    have st1: "getUserStats s1 uid = getUserStats s uid"
      by (simp add: getUserStats_def s1_def setUser_other_tables)
    have wk: "int4 (weekFocusCoins stats + r)" using rolling(5,6) by (simp add: r_def)
    obtain s2 where s2: "updateUserStats s1 uid m r = (s2, Inr ())"
      and t2: "users s2 = users s1" "notifications s2 = notifications s1"
        "uuids s2 = uuids s1" "drawn s2 = drawn s1"
      using ids rolling(1-4,7) wk
      unfolding updateUserStats_def db_updateUserStats_def Let_def st1
        stats_def [unfolded uid_def [symmetric], symmetric]
      by (cases "uid \<in> set (map stats_userId (userStats s1))") (simp_all del: set_map)
    have g2: "getUser s2 uid = Some (f user)" using g1 t2(1) by (simp add: getUser_def)
    have same: "notifications s2 = notifications s" "uuids s2 = uuids s" "drawn s2 = drawn s"
      using t2 by (simp_all add: s1_def setUser_other_tables)
    have len8: "length ACHIEVEMENTS = 8" by (simp add: ACHIEVEMENTS_def)
    have "\<exists>unlocked. snd (sweep now uid (f user) ACHIEVEMENTS s2 []) = Inr unlocked"
    proof (rule sweep_accepted [OF g2 subset_refl])
      show "- 2147483648 \<le> focusCoins (f user)" using coins(1) r12 by (simp add: f_def)
      show "focusCoins (f user) + sum_list (map ach_reward ACHIEVEMENTS) \<le> 2147483647"
        using coins(2) r12 by (simp add: f_def catalog_rewards_sum)
      show "\<forall>i<length ACHIEVEMENTS.
              uuids s2 (drawn s2 + i) \<notin> set (map notif_id (notifications s2))
              \<and> varchar 36 (uuids s2 (drawn s2 + i))"
        using fresh unfolding same len8 by simp
      show "inj_on (\<lambda>i. uuids s2 (drawn s2 + i)) {..<length ACHIEVEMENTS}"
        using inj unfolding same len8 by simp
    qed
    then obtain unlocked where "snd (checkAchievements now s2 uid) = Inr unlocked"
      using g2 by (auto simp: checkAchievements_def)
    then obtain s3 where s3: "checkAchievements now s2 uid = (s3, Inr unlocked)"
      by (cases "checkAchievements now s2 uid") simp
    have "rewardStep now s session user isEarly = (s3, Inr (r, unlocked))"
      unfolding step u1 by (simp add: s2 s3)
    with rs have "res = Inr (r, unlocked)" by simp
    then show ?thesis by (rule fin)
  qed
qed

section \<open>Invite codes\<close>

lemma frame_pods: "frame s s' \<Longrightarrow> pods s' = pods s"
  by (simp add: frame_def)

lemma hex_2A: "toUpperCase (toHex [0, 0, 0, 42]) = ''0000002A''"
  by code_simp

lemma hex_2B: "toUpperCase (toHex [0, 0, 0, 43]) = ''0000002B''"
  by code_simp

lemma createPod_unfold:
  "createPod now botUsername (b1, b2, b3, b4) s creatorId' creatorName duration' title'
   = (case db_createPod (s\<lparr>drawn := drawn s + 1\<rparr>)
             \<lparr>pod_id = uuids s (drawn s),
              inviteCode = toUpperCase (toHex [b1, b2, b3, b4]),
              creatorId = creatorId',
              title = (if truthy title' then Literal (the title')
                       else DefaultPodTitle creatorName),
              pod_duration = duration',
              participants = [\<lparr>participant_userId = creatorId', userName = creatorName,
                               joinedAt = now, isCreator = True, taskCompleted = None,
                               participant_taskAction = None\<rparr>],
              pod_startTime = None, pod_endTime = None, status = WAITING,
              shareLink = ''https://max.ru/'' @ botUsername @ ''?start=pod_''
                          @ toUpperCase (toHex [b1, b2, b3, b4]),
              pod_createdAt = now\<rparr> of
        (s1, Inl e) \<Rightarrow> (s1, Inl e)
      | (s1, Inr pod) \<Rightarrow>
          (case checkAchievements now s1 creatorId' of
             (s2, Inl e) \<Rightarrow> (s2, Inl e)
           | (s2, Inr _) \<Rightarrow> (s2, Inr (pod, inviteCode pod))))"
  unfolding createPod_def randomUUID_def Let_def db_createPod_def
  by (simp split: if_splits)

text \<open>
  What createPod does for every store and every four random bytes: it derives the invite
  code from the bytes as eight upper-case hexadecimal digits, without looking at the
  stored pods and without a second attempt. When the code equals a stored pod's invite
  code the insert is rejected by the unique constraint: createPod fails with the store's
  error and no pod is added. A pod that createPod returns carries a code that differs from
  every pod stored before.
\<close>

lemma createPod_invite_code:
  "(snd (createPod now botUsername (b1, b2, b3, b4) s creatorId' creatorName duration' title')
      = Inr (pod, code) \<longrightarrow>
      code = toUpperCase (toHex [b1, b2, b3, b4])
      \<and> inviteCode pod = code
      \<and> code \<notin> set (map inviteCode (pods s))
      \<and> pods (fst (createPod now botUsername (b1, b2, b3, b4) s creatorId' creatorName
                      duration' title')) = pods s @ [pod])
   \<and> (toUpperCase (toHex [b1, b2, b3, b4]) \<in> set (map inviteCode (pods s)) \<longrightarrow>
      createPod now botUsername (b1, b2, b3, b4) s creatorId' creatorName duration' title'
        = (s\<lparr>drawn := drawn s + 1\<rparr>, Inl StoreError))"
proof -
  define s0 where "s0 = s\<lparr>drawn := drawn s + 1\<rparr>"
  define c where "c = toUpperCase (toHex [b1, b2, b3, b4])"
  define p :: Pod where
    "p = \<lparr>pod_id = uuids s (drawn s), inviteCode = c, creatorId = creatorId',
           title = (if truthy title' then Literal (the title')
                    else DefaultPodTitle creatorName),
           pod_duration = duration',
           participants = [\<lparr>participant_userId = creatorId', userName = creatorName,
                            joinedAt = now, isCreator = True, taskCompleted = None,
                            participant_taskAction = None\<rparr>],
           pod_startTime = None, pod_endTime = None, status = WAITING,
           shareLink = ''https://max.ru/'' @ botUsername @ ''?start=pod_'' @ c,
           pod_createdAt = now\<rparr>"
  let ?cp = "createPod now botUsername (b1, b2, b3, b4) s creatorId' creatorName duration' title'"
  have cp: "?cp = (case db_createPod s0 p of
                     (s1, Inl e) \<Rightarrow> (s1, Inl e)
                   | (s1, Inr pod) \<Rightarrow>
                       (case checkAchievements now s1 creatorId' of
                          (s2, Inl e) \<Rightarrow> (s2, Inl e)
                        | (s2, Inr _) \<Rightarrow> (s2, Inr (pod, inviteCode pod))))"
    unfolding createPod_unfold s0_def p_def c_def by (rule refl)
  have ic: "inviteCode p = c" by (simp add: p_def)
  show ?thesis
  proof (cases "pod_id p \<in> set (map pod_id (pods s))
                \<or> c \<in> set (map inviteCode (pods s))
                \<or> creatorId p \<notin> set (map user_id (users s))
                \<or> \<not> varchar 36 (pod_id p) \<or> \<not> varchar 20 c
                \<or> 255 < titleLength (title p) \<or> \<not> int4 (pod_duration p)")
    case True
    then have "db_createPod s0 p = (s0, Inl StoreError)"
      by (simp add: db_createPod_def s0_def ic del: set_map)
    then have "?cp = (s0, Inl StoreError)" unfolding cp by simp
    then show ?thesis unfolding c_def [symmetric] by (simp add: s0_def)
  next
    case False
    then have fresh: "c \<notin> set (map inviteCode (pods s))" by simp
    from False have db: "db_createPod s0 p = (s0\<lparr>pods := pods s @ [p]\<rparr>, Inr p)"
      by (simp add: db_createPod_def s0_def ic del: set_map)
    obtain s2 res where ca: "checkAchievements now (s0\<lparr>pods := pods s @ [p]\<rparr>) creatorId' = (s2, res)"
      by (cases "checkAchievements now (s0\<lparr>pods := pods s @ [p]\<rparr>) creatorId'")
    have ps: "pods s2 = pods s @ [p]"
      using frame_pods [OF checkAchievements_frame
          [of "s0\<lparr>pods := pods s @ [p]\<rparr>" now creatorId']] ca by simp
    have r: "?cp = (case res of Inl e \<Rightarrow> (s2, Inl e) | Inr _ \<Rightarrow> (s2, Inr (p, c)))"
      by (cases res) (simp_all add: cp db ca ic)
    then have f: "pods (fst ?cp) = pods s @ [p]" using ps by (simp split: sum.splits)
    have "snd ?cp = Inr (pod, code) \<longrightarrow> pod = p \<and> code = c"
      unfolding r by (simp split: sum.splits)
    with f fresh ic show ?thesis unfolding c_def [symmetric] by auto
  qed
qed

text \<open>
  C8 on the code: createPod generates the invite code once, from four random bytes, and
  neither looks the code up among the stored pods nor tries again. With a stored pod whose
  invite code is 0000002A and the random bytes 00 00 00 2A the generated code is the stored
  one: the insert is rejected by the unique constraint, createPod fails with the store's
  error and no pod is added. (With the bytes 00 00 00 2B the same call stores the pod and
  returns the code 0000002B.)
\<close>

theorem createPod_collision:
  "''0000002A'' \<in> set (map inviteCode (pods podState))
   \<and> toUpperCase (toHex [0, 0, 0, 42]) = ''0000002A''
   \<and> snd (createPod 0 ''t257_hakaton_bot'' (0, 0, 0, 42) podState ''u1'' ''Ann'' 25 None)
       = Inl StoreError
   \<and> pods (fst (createPod 0 ''t257_hakaton_bot'' (0, 0, 0, 42) podState ''u1'' ''Ann'' 25 None))
       = pods podState
   \<and> snd (createPod 0 ''t257_hakaton_bot'' (0, 0, 0, 43) podState ''u1'' ''Ann'' 25 None)
       = Inr (newPod, ''0000002B'')
   \<and> pods (fst (createPod 0 ''t257_hakaton_bot'' (0, 0, 0, 43) podState ''u1'' ''Ann'' 25 None))
       = pods podState @ [newPod]"
  by (simp add: pod_defs demo_defs op_defs newPod_def createPod_unfold db_createPod_def
      hex_2A hex_2B)

section \<open>Terminal states\<close>

text \<open>
  C4 on the code: a cancelled session (completed = false, endTime set) passes the guard of
  completeSession, which only looks at the completed flag, and is rewarded; cancelSession
  on a completed session clears its completed flag and moves its endTime, after which
  completeSession rewards it a second time; and cancelPod turns a COMPLETED pod into a
  CANCELLED one.
\<close>

theorem terminal_states_are_overwritten:
  "getSession cancelledState ''s1''
     = Some (demoSession\<lparr>completed := False, endTime := Some 600000\<rparr>)
   \<and> snd (completeSession 1560000 cancelledState ''s1'' None False)
       = Inr \<lparr>res_session = demoSession\<lparr>completed := True, endTime := Some 1560000,
                                          reward := 1\<rparr>,
              res_reward = 1, res_achievements = [''first_focus'', ''focus_streak_3''],
              res_actualMinutes = 26\<rparr>
   \<and> map_option focusCoins
         (getUser (fst (completeSession 1560000 cancelledState ''s1'' None False)) ''u1'')
       = Some 16
   \<and> getSession doneState ''s1''
       = Some (demoSession\<lparr>completed := True, endTime := Some 1560000, reward := 1\<rparr>)
   \<and> getSession (fst (cancelSession 1800000 doneState ''s1'')) ''s1''
       = Some (demoSession\<lparr>completed := False, endTime := Some 1800000, reward := 1\<rparr>)
   \<and> snd (completeSession 1860000 (fst (cancelSession 1800000 doneState ''s1'')) ''s1''
            None False)
       = Inr \<lparr>res_session = demoSession\<lparr>completed := True, endTime := Some 1860000,
                                          reward := 1\<rparr>,
              res_reward = 1, res_achievements = [], res_actualMinutes = 31\<rparr>
   \<and> map_option totalPomodoros
         (getUser (fst (completeSession 1860000 (fst (cancelSession 1800000 doneState ''s1''))
                          ''s1'' None False)) ''u1'')
       = Some 2
   \<and> map_option status (getPod podState ''p1'') = Some COMPLETED
   \<and> snd (cancelPod 1560000 podState ''p1'') = Inr demoPod
   \<and> map_option status (getPod (fst (cancelPod 1560000 podState ''p1'')) ''p1'')
       = Some CANCELLED"
  by (simp add: demo_defs op_defs pod_defs doneState_def cancelledState_def getPod_def
      updatePod_def cancelPod_def)

end
